(* ===== verification/Prelude.thy ===== *)
theory Prelude
  imports Main "HOL-Library.Word"
begin

unbundle bit_operations_syntax

text \<open>
  Shared vocabulary of the development: the fixed-width integers of the Rust sources, the result
  type with its three outcomes (a value, an \<open>Err\<close> with its message, a panic), Rust's checked
  arithmetic and slice indexing, and the little-endian codec (\<open>to_le_bytes\<close>, \<open>from_le_bytes\<close>)
  with its round-trip laws. The collections \<open>res_simps\<close>, \<open>le_simps\<close> and \<open>word_nat\<close> carry the
  proofs of the component theories.

  Arithmetic follows the profile the repository is run with (\<open>cargo run\<close>, overflow checks on):
  an operation that the sources write as plain \<open>+\<close>, \<open>-\<close> or \<open>*\<close> on values that can overflow
  panics, and the \<open>wrapping_*\<close> calls and \<open>as\<close> casts wrap.
\<close>

named_theorems res_simps \<open>evaluation of the result combinators\<close>
named_theorems le_simps \<open>the little-endian codec\<close>
named_theorems word_nat \<open>words read as natural numbers\<close>

section \<open>Integers of the sources\<close>

type_synonym u8 = "8 word"
type_synonym u16 = "16 word"
type_synonym u32 = "32 word"
type_synonym u64 = "64 word"

section \<open>Results: value, error, panic\<close>

datatype (set_res: 'a) res = Ok 'a | Err string | Panic

text \<open>The \<open>?\<close> operator: go on with the value, hand an error or a panic to the caller.\<close>

primrec bind_r :: "'a res \<Rightarrow> ('a \<Rightarrow> 'b res) \<Rightarrow> 'b res" where
  "bind_r (Ok x) f = f x"
| "bind_r (Err e) f = Err e"
| "bind_r Panic f = Panic"

text \<open>The statement \<open>r.ok();\<close> on a call that changes the state \<open>s\<close>: an error is dropped and the
  old state kept, a panic still unwinds.\<close>

primrec ok_or_keep :: "'s \<Rightarrow> 's res \<Rightarrow> 's res" where
  "ok_or_keep s (Ok s') = Ok s'"
| "ok_or_keep s (Err e) = Ok s"
| "ok_or_keep s Panic = Panic"

text \<open>\<open>expect\<close> and \<open>unwrap\<close> on a result: an error becomes a panic.\<close>

primrec expect_r :: "'a res \<Rightarrow> 'a res" where
  "expect_r (Ok x) = Ok x"
| "expect_r (Err e) = Panic"
| "expect_r Panic = Panic"

text \<open>\<open>o.ok_or(msg)\<close>.\<close>

primrec ok_or :: "string \<Rightarrow> 'a option \<Rightarrow> 'a res" where
  "ok_or msg None = Err msg"
| "ok_or msg (Some x) = Ok x"

text \<open>A \<open>for\<close> loop over a list whose body may leave with an error or a panic.\<close>

primrec for_r :: "('x \<Rightarrow> 's \<Rightarrow> 's res) \<Rightarrow> 'x list \<Rightarrow> 's \<Rightarrow> 's res" where
  "for_r body [] s = Ok s"
| "for_r body (x # xs) s = bind_r (body x s) (for_r body xs)"

definition is_panic :: "'a res \<Rightarrow> bool" where
  "is_panic r \<longleftrightarrow> r = Panic"

declare bind_r.simps [res_simps] ok_or_keep.simps [res_simps] expect_r.simps [res_simps]
  ok_or.simps [res_simps]

lemma bind_r_eq_Ok [simp]: "bind_r m f = Ok y \<longleftrightarrow> (\<exists>x. m = Ok x \<and> f x = Ok y)"
  by (cases m) auto

lemma bind_r_eq_Err: "bind_r m f = Err e \<longleftrightarrow> m = Err e \<or> (\<exists>x. m = Ok x \<and> f x = Err e)"
  by (cases m) auto

lemma bind_r_eq_Panic: "bind_r m f = Panic \<longleftrightarrow> m = Panic \<or> (\<exists>x. m = Ok x \<and> f x = Panic)"
  by (cases m) auto

lemma bind_r_assoc: "bind_r (bind_r m f) g = bind_r m (\<lambda>x. bind_r (f x) g)"
  by (cases m) auto

lemma bind_r_Ok_right [simp]: "bind_r m Ok = m"
  by (cases m) auto

lemma bind_r_cong [fundef_cong]:
  "\<lbrakk>m = m'; \<And>x. m' = Ok x \<Longrightarrow> f x = g x\<rbrakk> \<Longrightarrow> bind_r m f = bind_r m' g"
  by (cases m') auto

lemma bind_r_mono_Ok: "\<lbrakk>m = Ok x; f x = r\<rbrakk> \<Longrightarrow> bind_r m f = r"
  by simp

lemma ok_or_eq_Ok [simp]: "ok_or msg m = Ok x \<longleftrightarrow> m = Some x"
  by (cases m) auto

lemma ok_or_eq_Err [simp]: "ok_or msg m = Err e \<longleftrightarrow> m = None \<and> e = msg"
  by (cases m) auto

lemma ok_or_not_Panic [simp]: "ok_or msg m \<noteq> Panic"
  by (cases m) auto

lemma for_r_append: "for_r body (xs @ ys) s = bind_r (for_r body xs s) (for_r body ys)"
proof (induction xs arbitrary: s)
  case (Cons x xs)
  then show ?case by (cases "body x s") auto
qed simp

text \<open>A loop whose rounds are loops is one loop.\<close>

lemma for_r_flatten:
  "\<lbrakk>for_r body xs s = Ok t; \<And>x s t. x \<in> set xs \<Longrightarrow> body x s = Ok t \<Longrightarrow> for_r g (h x) s = Ok t\<rbrakk> \<Longrightarrow>
   for_r g (concat (map h xs)) s = Ok t"
proof (induction xs arbitrary: s)
  case (Cons x xs)
  from Cons.prems(1) obtain u where "body x s = Ok u" "for_r body xs u = Ok t" by auto
  then show ?case using Cons.IH [of u] Cons.prems(2) by (auto simp: for_r_append)
qed simp

text \<open>A loop whose body always succeeds is a fold, and keeps what each round keeps.\<close>

lemma for_r_fold:
  "(\<And>x s. x \<in> set xs \<Longrightarrow> body x s = Ok (f x s)) \<Longrightarrow> for_r body xs s = Ok (fold f xs s)"
  by (induction xs arbitrary: s) auto

lemma for_r_invariant:
  "\<lbrakk>for_r body xs s = Ok t; P s; \<And>x s t. x \<in> set xs \<Longrightarrow> body x s = Ok t \<Longrightarrow> P s \<Longrightarrow> P t\<rbrakk> \<Longrightarrow> P t"
  by (induction xs arbitrary: s) auto

lemma for_r_no_panic:
  "\<lbrakk>P s; \<And>x s. x \<in> set xs \<Longrightarrow> P s \<Longrightarrow> body x s \<noteq> Panic;
    \<And>x s t. x \<in> set xs \<Longrightarrow> body x s = Ok t \<Longrightarrow> P s \<Longrightarrow> P t\<rbrakk> \<Longrightarrow> for_r body xs s \<noteq> Panic"
proof (induction xs arbitrary: s)
  case (Cons x xs)
  have "for_r body xs t \<noteq> Panic" if "body x s = Ok t" for t
    using Cons.IH [of t] Cons.prems that by (metis list.set_intros)
  moreover have "body x s \<noteq> Panic" using Cons.prems by simp
  ultimately show ?case by (auto simp: bind_r_eq_Panic)
qed simp

lemma for_r_concat: "for_r g (concat (map h xs)) s = for_r (\<lambda>x. for_r g (h x)) xs s"
  by (induction xs arbitrary: s) (auto simp: for_r_append intro!: bind_r_cong)

lemma for_r_cong: "(\<And>x s. x \<in> set xs \<Longrightarrow> f x s = g x s) \<Longrightarrow> for_r f xs s = for_r g xs s"
  by (induction xs arbitrary: s) (auto intro!: bind_r_cong)

lemma for_r_total: "(\<And>x s. x \<in> set xs \<Longrightarrow> \<exists>t. body x s = Ok t) \<Longrightarrow> \<exists>t. for_r body xs s = Ok t"
proof (induction xs arbitrary: s)
  case (Cons x xs)
  obtain t where "body x s = Ok t" using Cons.prems [of x s] by auto
  moreover obtain u where "for_r body xs t = Ok u" using Cons.IH [of t] Cons.prems by (meson list.set_intros(2))
  ultimately show ?case by auto
qed simp

lemma sorted_wrt_concat_upt:
  "\<lbrakk>\<And>i. i < n \<Longrightarrow> sorted_wrt P (f i);
    \<And>i j x y. i < j \<Longrightarrow> j < n \<Longrightarrow> x \<in> set (f i) \<Longrightarrow> y \<in> set (f j) \<Longrightarrow> P x y\<rbrakk> \<Longrightarrow>
   sorted_wrt P (concat (map f [0..<n]))"
  by (induction n) (auto simp: sorted_wrt_append)

section \<open>Checked arithmetic\<close>

definition add_chk :: "'a::len word \<Rightarrow> 'a word \<Rightarrow> 'a word res" where
  "add_chk a b = (if unat a + unat b < 2 ^ LENGTH('a) then Ok (a + b) else Panic)"

definition sub_chk :: "'a::len word \<Rightarrow> 'a word \<Rightarrow> 'a word res" where
  "sub_chk a b = (if unat b \<le> unat a then Ok (a - b) else Panic)"

definition mul_chk :: "'a::len word \<Rightarrow> 'a word \<Rightarrow> 'a word res" where
  "mul_chk a b = (if unat a * unat b < 2 ^ LENGTH('a) then Ok (a * b) else Panic)"

lemma add_chk_Ok_iff:
  "add_chk a b = Ok c \<longleftrightarrow> unat a + unat b < 2 ^ LENGTH('a) \<and> c = (a + b :: 'a::len word)"
  by (auto simp: add_chk_def)

lemma add_chk_unat: "add_chk a b = Ok c \<Longrightarrow> unat c = unat a + unat b"
  by (simp add: add_chk_Ok_iff unat_word_ariths)

lemma sub_chk_Ok_iff: "sub_chk a b = Ok c \<longleftrightarrow> b \<le> a \<and> c = a - b"
  by (auto simp: sub_chk_def word_le_nat_alt)

lemma sub_chk_unat: "sub_chk a b = Ok c \<Longrightarrow> unat c = unat a - unat b"
  by (simp add: sub_chk_Ok_iff unat_sub)

lemma mul_chk_unat: "mul_chk a b = Ok c \<Longrightarrow> unat c = unat a * unat b"
  by (auto simp: mul_chk_def unat_word_ariths split: if_splits)

lemma chk_not_Err [simp]:
  "add_chk a b \<noteq> Err e" "sub_chk a b \<noteq> Err e" "mul_chk a b \<noteq> Err e"
  by (simp_all add: add_chk_def sub_chk_def mul_chk_def)

section \<open>Words as natural numbers\<close>

lemma unat_and_mask [word_nat]: "unat (w AND mask n) = unat w mod 2 ^ n"
proof -
  have "unat (take_bit n w) = take_bit n (unat w)" by (rule unsigned_take_bit_eq)
  then show ?thesis by (metis take_bit_eq_mask take_bit_eq_mod)
qed

lemma unat_drop_bit [word_nat]: "unat (drop_bit n w) = unat w div 2 ^ n"
  by (metis drop_bit_eq_div unat_drop_bit_eq)

lemma unat_and_not_mask [word_nat]: "unat (w AND NOT (mask n)) = unat w div 2 ^ n * 2 ^ n"
proof -
  have "w AND NOT (mask n) = w AND NOT (w AND mask n)"
    by (rule bit_word_eqI) (auto simp: bit_simps)
  also have "\<dots> = w - (w AND mask n)"
    by (rule disjunctive_diff_eq_and_not [symmetric]) (auto intro!: bit_word_eqI simp: bit_simps)
  finally have "unat (w AND NOT (mask n)) = unat w - unat w mod 2 ^ n"
    by (simp add: unat_sub word_and_le2 unat_and_mask)
  then show ?thesis by (simp add: minus_mod_eq_div_mult)
qed

lemma unat_plus_lt: "unat a + unat b < 2 ^ LENGTH('a) \<Longrightarrow> unat (a + b :: 'a::len word) = unat a + unat b"
  by (simp add: unat_word_ariths)

lemma unat_lt_64 [simp]: "unat (w :: u64) < 18446744073709551616"
  using unsigned_less [of w] by simp

lemma unat_lt_32 [simp]: "unat (w :: u32) < 4294967296"
  using unsigned_less [of w] by simp

lemma unat_lt_16 [simp]: "unat (w :: u16) < 65536"
  using unsigned_less [of w] by simp

lemma unat_lt_8 [simp]: "unat (w :: u8) < 256"
  using unsigned_less [of w] by simp

lemma unat_ucast_up [word_nat]:
  "LENGTH('a) \<le> LENGTH('b) \<Longrightarrow> unat (ucast (w :: 'a::len word) :: 'b::len word) = unat w"
proof -
  assume le: "LENGTH('a) \<le> LENGTH('b)"
  have "unat w < 2 ^ LENGTH('a)" by (rule unsigned_less)
  also have "\<dots> \<le> 2 ^ LENGTH('b)" using le by simp
  finally show ?thesis by (simp add: unsigned_ucast_eq take_bit_nat_eq_self)
qed

text \<open>Addresses at a small distance from one below the top of the address space.\<close>

lemma near_addr:
  assumes "unat (p :: u64) + numeral k < 18446744073709551616"
  shows "unat (p + numeral k) = unat p + numeral k" "unat (numeral k + p) = unat p + numeral k"
    "add_chk p (numeral k) = Ok (p + numeral k)"
proof -
  have "(numeral k :: nat) < 2 ^ LENGTH(64)" using assms by (simp del: numeral_less_iff)
  then have "unat (of_nat (numeral k) :: u64) = numeral k" by (simp only: unsigned_of_nat take_bit_nat_eq_self of_nat_id)
  then have u: "unat (numeral k :: u64) = numeral k" by (simp only: of_nat_numeral)
  show s: "unat (p + numeral k) = unat p + numeral k"
    using assms unat_plus_lt [of p "numeral k"] unfolding u by simp
  then show "unat (numeral k + p) = unat p + numeral k" by (simp add: add.commute)
  show "add_chk p (numeral k) = Ok (p + numeral k)" using assms unfolding add_chk_def u by simp
qed

section \<open>Slices\<close>

text \<open>\<open>d[a..b]\<close> panics unless \<open>a \<le> b \<le> d.len()\<close>. Offsets into byte vectors are natural numbers:
  every one the sources form is a 32-bit value plus a bounded multiple of a 32-bit counter, far
  below the 64 bits of \<open>usize\<close>.\<close>

definition slice_r :: "'a list \<Rightarrow> nat \<Rightarrow> nat \<Rightarrow> 'a list res" where
  "slice_r d a b = (if a \<le> b \<and> b \<le> length d then Ok (take (b - a) (drop a d)) else Panic)"

text \<open>\<open>d[a..a+src.len()].copy_from_slice(src)\<close>.\<close>

definition put_slice :: "'a list \<Rightarrow> nat \<Rightarrow> 'a list \<Rightarrow> 'a list res" where
  "put_slice d a src =
     (if a + length src \<le> length d then Ok (take a d @ src @ drop (a + length src) d) else Panic)"

text \<open>\<open>d[i]\<close> and \<open>d[i] = v\<close>.\<close>

definition get_r :: "'a list \<Rightarrow> nat \<Rightarrow> 'a res" where
  "get_r d i = (if i < length d then Ok (d ! i) else Panic)"

definition set_r :: "'a list \<Rightarrow> nat \<Rightarrow> 'a \<Rightarrow> 'a list res" where
  "set_r d i v = (if i < length d then Ok (d[i := v]) else Panic)"

lemma put_slice_length: "put_slice d a src = Ok d' \<Longrightarrow> length d' = length d"
  by (auto simp: put_slice_def split: if_splits)

lemma put_slice_nth:
  assumes "put_slice d a src = Ok d'" and "i < length d"
  shows "d' ! i = (if a \<le> i \<and> i < a + length src then src ! (i - a) else d ! i)"
  using assms by (auto simp: put_slice_def nth_append split: if_splits)

lemma set_r_length: "set_r d i v = Ok d' \<Longrightarrow> length d' = length d"
  by (auto simp: set_r_def split: if_splits)

lemma slice_not_Err [simp]:
  "slice_r d a b \<noteq> Err e" "put_slice d a src \<noteq> Err e" "get_r d i \<noteq> Err e" "set_r d i v \<noteq> Err e"
  by (simp_all add: slice_r_def put_slice_def get_r_def set_r_def)

section \<open>Little-endian codec\<close>

primrec to_le :: "nat \<Rightarrow> 'a::len word \<Rightarrow> u8 list" where
  "to_le 0 w = []"
| "to_le (Suc n) w = ucast w # to_le n (drop_bit 8 w)"

primrec from_le :: "u8 list \<Rightarrow> 'a::len word" where
  "from_le [] = 0"
| "from_le (b # bs) = ucast b OR push_bit 8 (from_le bs)"

abbreviation le16 :: "u16 \<Rightarrow> u8 list" where "le16 \<equiv> to_le 2"
abbreviation le32 :: "u32 \<Rightarrow> u8 list" where "le32 \<equiv> to_le 4"
abbreviation le64 :: "u64 \<Rightarrow> u8 list" where "le64 \<equiv> to_le 8"

lemma length_to_le [simp, le_simps]: "length (to_le n w) = n"
  by (induction n arbitrary: w) auto

lemma nth_to_le [le_simps]: "i < n \<Longrightarrow> to_le n w ! i = ucast (drop_bit (8 * i) w)"
  by (induction n arbitrary: w i) (auto simp: nth_Cons drop_bit_drop_bit add.commute split: nat.splits)

lemma bit_from_le_bound: "bit (from_le bs :: 'a::len word) n \<Longrightarrow> n < 8 * length bs"
proof (induction bs arbitrary: n)
  case (Cons b bs)
  then show ?case by (fastforce simp: bit_simps dest: bit_imp_le_length)
qed simp

lemma from_le_to_le: "from_le (to_le n w) = take_bit (8 * n) w"
proof (induction n arbitrary: w)
  case (Suc n)
  show ?case by (rule bit_word_eqI) (auto simp: Suc bit_simps)
qed simp

lemma to_le_from_le:
  "8 * length bs \<le> LENGTH('a) \<Longrightarrow> to_le (length bs) (from_le bs :: 'a::len word) = bs"
proof (induction bs)
  case (Cons b bs)
  have lo: "ucast (ucast b OR push_bit 8 (from_le bs :: 'a word)) = b"
    using Cons.prems by (intro bit_word_eqI) (auto simp: bit_simps)
  have hi: "drop_bit 8 (ucast b OR push_bit 8 (from_le bs) :: 'a word) = from_le bs"
    using Cons.prems
    by (intro bit_word_eqI) (auto simp: bit_simps dest: bit_from_le_bound bit_imp_le_length)
  show ?case using Cons by (simp add: lo hi del: drop_bit_or)
qed simp

lemma from_le16 [simp, le_simps]: "from_le (le16 w) = w"
  by (simp add: from_le_to_le take_bit_word_eq_self)

lemma from_le32 [simp, le_simps]: "from_le (le32 w) = w"
  by (simp add: from_le_to_le take_bit_word_eq_self)

lemma from_le64 [simp, le_simps]: "from_le (le64 w) = w"
  by (simp add: from_le_to_le take_bit_word_eq_self)

text \<open>\<open>uN::from_le_bytes(d[o..o+n].try_into().unwrap())\<close>.\<close>

definition rd_u16 :: "u8 list \<Rightarrow> nat \<Rightarrow> u16 res" where
  "rd_u16 d off = bind_r (slice_r d off (off + 2)) (\<lambda>b. Ok (from_le b))"

definition rd_u32 :: "u8 list \<Rightarrow> nat \<Rightarrow> u32 res" where
  "rd_u32 d off = bind_r (slice_r d off (off + 4)) (\<lambda>b. Ok (from_le b))"

definition rd_u64 :: "u8 list \<Rightarrow> nat \<Rightarrow> u64 res" where
  "rd_u64 d off = bind_r (slice_r d off (off + 8)) (\<lambda>b. Ok (from_le b))"

lemma rd_in_bounds:
  "rd_u16 d off = Ok v16 \<Longrightarrow> off + 2 \<le> length d"
  "rd_u32 d off = Ok v32 \<Longrightarrow> off + 4 \<le> length d"
  "rd_u64 d off = Ok v64 \<Longrightarrow> off + 8 \<le> length d"
  by (auto simp: rd_u16_def rd_u32_def rd_u64_def slice_r_def split: if_splits)

lemma rd_ok:
  "off + 2 \<le> length d \<Longrightarrow> rd_u16 d off = Ok (from_le (take 2 (drop off d)))"
  "off + 4 \<le> length d \<Longrightarrow> rd_u32 d off = Ok (from_le (take 4 (drop off d)))"
  "off + 8 \<le> length d \<Longrightarrow> rd_u64 d off = Ok (from_le (take 8 (drop off d)))"
  by (simp_all add: rd_u16_def rd_u32_def rd_u64_def slice_r_def)

lemma rd_panic:
  "length d < off + 2 \<Longrightarrow> rd_u16 d off = Panic"
  "length d < off + 4 \<Longrightarrow> rd_u32 d off = Panic"
  "length d < off + 8 \<Longrightarrow> rd_u64 d off = Panic"
  by (simp_all add: rd_u16_def rd_u32_def rd_u64_def slice_r_def)

lemma rd_not_Err [simp]: "rd_u16 d off \<noteq> Err e" "rd_u32 d off \<noteq> Err e" "rd_u64 d off \<noteq> Err e"
  by (simp_all add: rd_u16_def rd_u32_def rd_u64_def bind_r_eq_Err)

end
