(* ===== verification/RustText.thy ===== *)
theory RustText
  imports Prelude "HOL-Library.Sublist"
begin

text \<open>
  The parts of Rust's string library the sources use, on strings as lists of Unicode scalar values:
  lossy UTF-8 decoding, decimal and hexadecimal formatting, \<open>parse::<u16>\<close>, \<open>split_once\<close>,
  \<open>Path::file_stem\<close>, case conversion and UTF-16 encoding. Case conversion of strings with
  non-ASCII characters depends on the Unicode tables, which are a parameter.
\<close>

type_synonym rstring = "nat list"

definition lit :: "string \<Rightarrow> rstring" where
  "lit s = map of_char s"

section \<open>Lossy UTF-8 decoding\<close>

text \<open>\<open>String::from_utf8_lossy\<close>: each maximal invalid prefix of a sequence becomes U+FFFD.\<close>

definition is_cont :: "u8 \<Rightarrow> bool" where
  "is_cont b \<longleftrightarrow> 0x80 \<le> b \<and> b \<le> 0xBF"

definition second_of_3 :: "u8 \<Rightarrow> u8 \<Rightarrow> bool" where
  "second_of_3 b c \<longleftrightarrow>
     (if b = 0xE0 then 0xA0 \<le> c \<and> c \<le> 0xBF
      else if b = 0xED then 0x80 \<le> c \<and> c \<le> 0x9F
      else is_cont c)"

definition second_of_4 :: "u8 \<Rightarrow> u8 \<Rightarrow> bool" where
  "second_of_4 b c \<longleftrightarrow>
     (if b = 0xF0 then 0x90 \<le> c \<and> c \<le> 0xBF
      else if b = 0xF4 then 0x80 \<le> c \<and> c \<le> 0x8F
      else is_cont c)"

definition low6 :: "u8 \<Rightarrow> nat" where
  "low6 c = unat c mod 64"

fun from_utf8_lossy :: "u8 list \<Rightarrow> rstring" where
  "from_utf8_lossy [] = []"
| "from_utf8_lossy (b # bs) =
     (if b < 0x80 then unat b # from_utf8_lossy bs
      else if 0xC2 \<le> b \<and> b \<le> 0xDF then
        (case bs of
           [] \<Rightarrow> [0xFFFD]
         | c # cs \<Rightarrow>
             if is_cont c then ((unat b - 0xC0) * 64 + low6 c) # from_utf8_lossy cs
             else 0xFFFD # from_utf8_lossy bs)
      else if 0xE0 \<le> b \<and> b \<le> 0xEF then
        (case bs of
           [] \<Rightarrow> [0xFFFD]
         | c # cs \<Rightarrow>
             if second_of_3 b c then
               (case cs of
                  [] \<Rightarrow> [0xFFFD]
                | d # ds \<Rightarrow>
                    if is_cont d
                    then ((unat b - 0xE0) * 4096 + low6 c * 64 + low6 d) # from_utf8_lossy ds
                    else 0xFFFD # from_utf8_lossy cs)
             else 0xFFFD # from_utf8_lossy bs)
      else if 0xF0 \<le> b \<and> b \<le> 0xF4 then
        (case bs of
           [] \<Rightarrow> [0xFFFD]
         | c # cs \<Rightarrow>
             if second_of_4 b c then
               (case cs of
                  [] \<Rightarrow> [0xFFFD]
                | d # ds \<Rightarrow>
                    if is_cont d then
                      (case ds of
                         [] \<Rightarrow> [0xFFFD]
                       | e # es \<Rightarrow>
                           if is_cont e
                           then ((unat b - 0xF0) * 262144 + low6 c * 4096 + low6 d * 64 + low6 e)
                                # from_utf8_lossy es
                           else 0xFFFD # from_utf8_lossy ds)
                    else 0xFFFD # from_utf8_lossy cs)
             else 0xFFFD # from_utf8_lossy bs)
      else 0xFFFD # from_utf8_lossy bs)"

lemma from_utf8_lossy_ascii: "list_all (\<lambda>b. b < 0x80) bs \<Longrightarrow> from_utf8_lossy bs = map unat bs"
  by (induction bs) auto

section \<open>Numbers\<close>

fun dec :: "nat \<Rightarrow> rstring" where
  "dec n = (if n < 10 then [48 + n] else dec (n div 10) @ [48 + n mod 10])"

declare dec.simps [simp del]

text \<open>\<open>{:0wX}\<close>: upper-case hexadecimal, padded with zeros to width \<open>w\<close>.\<close>

definition hex_digit :: "nat \<Rightarrow> nat" where
  "hex_digit d = (if d < 10 then 48 + d else 55 + d)"

fun hex :: "nat \<Rightarrow> rstring" where
  "hex n = (if n < 16 then [hex_digit n] else hex (n div 16) @ [hex_digit (n mod 16)])"

declare hex.simps [simp del]

definition hex_pad :: "nat \<Rightarrow> nat \<Rightarrow> rstring" where
  "hex_pad w n = replicate (w - length (hex n)) 48 @ hex n"

text \<open>\<open>{:0wx}\<close>: the same in lower case.\<close>

definition lower_hex :: "nat \<Rightarrow> nat \<Rightarrow> rstring" where
  "lower_hex w n = map (\<lambda>c. if 65 \<le> c then c + 32 else c) (hex_pad w n)"

text \<open>\<open>str::parse::<u16>\<close>.\<close>

fun parse_digits :: "nat \<Rightarrow> rstring \<Rightarrow> nat option" where
  "parse_digits a [] = Some a"
| "parse_digits a (c # cs) =
     (if 48 \<le> c \<and> c \<le> 57 then
        (let a' = a * 10 + (c - 48) in if 65535 < a' then None else parse_digits a' cs)
      else None)"

definition parse_u16 :: "rstring \<Rightarrow> u16 option" where
  "parse_u16 s = map_option of_nat
     (case s of
        [] \<Rightarrow> None
      | c # cs \<Rightarrow>
          if cs = [] \<and> (c = 43 \<or> c = 45) then None
          else if c = 43 then parse_digits 0 cs
          else parse_digits 0 s)"

lemma parse_digits_append:
  "parse_digits a (xs @ ys) = Option.bind (parse_digits a xs) (\<lambda>a. parse_digits a ys)"
  by (induction a xs rule: parse_digits.induct) (auto simp: Let_def)

lemma parse_digits_dec: "n \<le> 65535 \<Longrightarrow> parse_digits 0 (dec n) = Some n"
proof (induction n rule: dec.induct)
  case (1 n)
  show ?case
  proof (cases "n < 10")
    case True
    then show ?thesis using "1.prems" by (simp add: dec.simps [of n])
  next
    case False
    then show ?thesis using 1 by (simp add: dec.simps [of n] parse_digits_append)
  qed
qed

lemma dec_nonempty: "dec n \<noteq> []"
  by (simp add: dec.simps [of n])

lemma dec_digits: "c \<in> set (dec n) \<Longrightarrow> 48 \<le> c \<and> c \<le> 57"
proof (induction n rule: dec.induct)
  case (1 n)
  then show ?case by (cases "n < 10") (auto simp: dec.simps [of n])
qed

lemma parse_u16_dec: "n \<le> 65535 \<Longrightarrow> parse_u16 (dec n) = Some (of_nat n)"
proof -
  assume n: "n \<le> 65535"
  obtain c cs where d: "dec n = c # cs" using dec_nonempty by (cases "dec n") auto
  then have "48 \<le> c" using dec_digits [of c n] by simp
  then show ?thesis using parse_digits_dec [OF n] d by (simp add: parse_u16_def)
qed

section \<open>Splitting and paths\<close>

fun split_once :: "nat \<Rightarrow> rstring \<Rightarrow> (rstring \<times> rstring) option" where
  "split_once c [] = None"
| "split_once c (x # xs) =
     (if x = c then Some ([], xs)
      else map_option (\<lambda>(a, b). (x # a, b)) (split_once c xs))"

lemma split_once_Some: "split_once c s = Some (a, b) \<Longrightarrow> s = a @ c # b \<and> c \<notin> set a"
  by (induction c s arbitrary: a rule: split_once.induct) (auto split: if_splits)

lemma split_once_append: "c \<notin> set a \<Longrightarrow> split_once c (a @ c # b) = Some (a, b)"
  by (induction a) auto

lemma split_once_None: "split_once c s = None \<longleftrightarrow> c \<notin> set s"
  by (induction c s rule: split_once.induct) auto

text \<open>The components of a Unix path that \<open>Path::file_name\<close> looks at: empty and \<open>.\<close> parts do not
  count, a path that ends in \<open>..\<close> has no file name.\<close>

fun split_all :: "nat \<Rightarrow> rstring \<Rightarrow> rstring list" where
  "split_all c [] = [[]]"
| "split_all c (x # xs) =
     (if x = c then [] # split_all c xs
      else case split_all c xs of [] \<Rightarrow> [[x]] | p # ps \<Rightarrow> (x # p) # ps)"

definition file_name :: "rstring \<Rightarrow> rstring option" where
  "file_name path =
     (let ps = filter (\<lambda>p. p \<noteq> [] \<and> p \<noteq> lit ''.'') (split_all 47 path)
      in if ps = [] \<or> last ps = lit ''..'' then None else Some (last ps))"

text \<open>\<open>file_stem\<close>: the part before the last dot, the whole name when there is no dot or only a
  leading one.\<close>

definition stem_of :: "rstring \<Rightarrow> rstring" where
  "stem_of f =
     (if 46 \<notin> set f then f
      else let before = rev (tl (dropWhile (\<lambda>c. c \<noteq> 46) (rev f)))
           in if before = [] then f else before)"

definition file_stem :: "rstring \<Rightarrow> rstring option" where
  "file_stem path = map_option stem_of (file_name path)"

section \<open>Case conversion\<close>

record unicode =
  upper_uni :: "rstring \<Rightarrow> rstring"
  lower_uni :: "rstring \<Rightarrow> rstring"

definition is_ascii :: "rstring \<Rightarrow> bool" where
  "is_ascii s \<longleftrightarrow> list_all (\<lambda>c. c < 128) s"

definition to_uppercase :: "unicode \<Rightarrow> rstring \<Rightarrow> rstring" where
  "to_uppercase U s =
     (if is_ascii s then map (\<lambda>c. if 97 \<le> c \<and> c \<le> 122 then c - 32 else c) s else upper_uni U s)"

definition to_lowercase :: "unicode \<Rightarrow> rstring \<Rightarrow> rstring" where
  "to_lowercase U s =
     (if is_ascii s then map (\<lambda>c. if 65 \<le> c \<and> c \<le> 90 then c + 32 else c) s else lower_uni U s)"

lemma to_uppercase_idem_ascii: "is_ascii s \<Longrightarrow> to_uppercase U (to_uppercase U s) = to_uppercase U s"
  by (auto simp: to_uppercase_def is_ascii_def list_all_iff)

section \<open>UTF-16\<close>

definition utf16_units :: "nat \<Rightarrow> u16 list" where
  "utf16_units c =
     (if c < 0x10000 then [of_nat c]
      else [of_nat (0xD800 + (c - 0x10000) div 1024), of_nat (0xDC00 + (c - 0x10000) mod 1024)])"

definition encode_utf16 :: "rstring \<Rightarrow> u16 list" where
  "encode_utf16 s = concat (map utf16_units s)"

lemma length_encode_utf16: "length s \<le> length (encode_utf16 s)"
  by (induction s) (auto simp: encode_utf16_def utf16_units_def)

end
