(* ===== verification/Pe.thy ===== *)
theory Pe
  imports RustText
begin

unbundle bit_operations_syntax

text \<open>
  The PE parser of \<open>src/pe.rs\<close>: the image data, the translation of relative virtual addresses to
  file offsets, and the export and import directories. The crate \<open>object\<close>, which recognises the
  file and hands out its sections, is a parameter: a function from the bytes to what the parser
  reads of the parsed file. The loops over the import tables have no bound in the source; they end
  because each round moves on in a finite file or a 32-bit address, which their termination proofs
  show.
\<close>

section \<open>Data\<close>

record pe_section =
  sec_name :: rstring
  virtual_address :: u64
  virtual_size :: u64
  raw_data :: "u8 list"

record export_entry =
  exp_name :: rstring
  exp_rva :: u32
  exp_ordinal :: u16
  exp_forwarder :: "rstring option"

record import_function =
  imp_name :: rstring
  iat_rva :: u32

record import_entry =
  dll_name :: rstring
  imp_functions :: "import_function list"

record pe_file =
  entry_point :: u64
  architecture :: string
  image_base :: u64
  sections :: "pe_section list"
  header_data :: "u8 list"
  pdb_name :: rstring
  pdb_guid_age :: rstring
  raw_bytes :: "u8 list"

text \<open>The \<open>Display\<close> instance.\<close>

definition fmt_pe :: "pe_file \<Rightarrow> rstring" where
  "fmt_pe pe = lit ''PE File Info (Base: 0x'' @ lower_hex 0 (unat (image_base pe)) @ lit '')'' @ [10]"

section \<open>Recognising the file\<close>

text \<open>What the parser asks of the crate \<open>object\<close>: a section's name and data may fail to decode.\<close>

record obj_section =
  os_name :: "rstring option"
  os_size :: u64
  os_address :: u64
  os_data :: "u8 list option"

record obj_view =
  ov_entry :: u64
  ov_architecture :: string
  ov_image_base :: u64
  ov_sections :: "obj_section list"

datatype obj_file = Pe32 obj_view | Pe64 obj_view | OtherFile

record pdb_info =
  pdb_path :: "u8 list"
  pdb_guid :: "u8 list"
  pdb_age :: u32

record parsed =
  parsed_file :: obj_file
  parsed_pdb :: "pdb_info option"

fun extract_sections :: "obj_section list \<Rightarrow> pe_section list res" where
  "extract_sections [] = Ok []"
| "extract_sections (s # ss) =
     (case os_name s of
        None \<Rightarrow> extract_sections ss
      | Some name \<Rightarrow>
          if 0 < os_size s then
            (case os_data s of
               None \<Rightarrow> Err ''Failed to read section data''
             | Some data \<Rightarrow>
                 bind_r (extract_sections ss) (\<lambda>rest.
                 Ok (\<lparr>sec_name = name, virtual_address = os_address s, virtual_size = os_size s,
                      raw_data = data\<rparr> # rest)))
          else extract_sections ss)"

text \<open>The identifier is formatted from the first eleven bytes of the 16-byte GUID and the age.\<close>

definition guid_str :: "u8 list \<Rightarrow> u32 \<Rightarrow> rstring" where
  "guid_str guid age =
     hex_pad 8 (unat (guid ! 0)) @ hex_pad 4 (unat (guid ! 1)) @ hex_pad 4 (unat (guid ! 2)) @
     concat (map (\<lambda>i. hex_pad 2 (unat (guid ! i))) [3..<11]) @ hex (unat age)"

definition from_bytes :: "(u8 list \<Rightarrow> parsed option) \<Rightarrow> u8 list \<Rightarrow> pe_file res" where
  "from_bytes obj bytes =
     bind_r (ok_or ''Failed to parse PE file'' (obj bytes)) (\<lambda>p.
     let (name, guid) =
       (case parsed_pdb p of
          Some info \<Rightarrow> (from_utf8_lossy (pdb_path info), guid_str (pdb_guid info) (pdb_age info))
        | None \<Rightarrow> (lit ''Unknown'', lit ''Unknown''))
     in case (case parsed_file p of Pe32 v \<Rightarrow> Some v | Pe64 v \<Rightarrow> Some v | OtherFile \<Rightarrow> None) of
          None \<Rightarrow> Err ''Not a valid PE file''
        | Some v \<Rightarrow>
            bind_r (extract_sections (ov_sections v)) (\<lambda>secs.
            Ok \<lparr>entry_point = ov_entry v, architecture = ov_architecture v,
                image_base = ov_image_base v, sections = secs, header_data = [], pdb_name = name,
                pdb_guid_age = guid, raw_bytes = bytes\<rparr>))"

definition parse :: "(u8 list \<Rightarrow> parsed option) \<Rightarrow> u8 list \<Rightarrow> pe_file res" where
  "parse obj bytes =
     bind_r (from_bytes obj bytes) (\<lambda>pe.
     let header_size = (if sections pe \<noteq> [] then min 4096 (length bytes) else min (length bytes) 4096)
     in bind_r (slice_r bytes 0 header_size) (\<lambda>h. Ok (pe\<lparr>header_data := h\<rparr>)))"

section \<open>Helpers\<close>

definition get_data_directory :: "pe_file \<Rightarrow> nat \<Rightarrow> (u32 \<times> u32) res" where
  "get_data_directory pe index =
     bind_r (rd_u32 (raw_bytes pe) 0x3C) (\<lambda>e_lfanew.
     let opt_header_offset = unat e_lfanew + 24;
         data_dir_offset = opt_header_offset + 112 + index * 8
     in if length (raw_bytes pe) < data_dir_offset + 8 then Err ''Data Directory out of bounds''
        else bind_r (rd_u32 (raw_bytes pe) data_dir_offset) (\<lambda>rva.
             bind_r (rd_u32 (raw_bytes pe) (data_dir_offset + 4)) (\<lambda>size. Ok (rva, size))))"

text \<open>The scan of the section headers in \<open>find_file_offset\<close>: the comparison \<open>rva < v_addr +
  effective_v_size\<close> is evaluated only when \<open>rva >= v_addr\<close>.\<close>

fun scan_headers :: "u8 list \<Rightarrow> u32 \<Rightarrow> nat \<Rightarrow> nat \<Rightarrow> nat option res" where
  "scan_headers raw rva 0 sect_ptr = Ok (if rva < 4096 then Some (unat rva) else None)"
| "scan_headers raw rva (Suc n) sect_ptr =
     bind_r (rd_u32 raw (sect_ptr + 12)) (\<lambda>v_addr.
     bind_r (rd_u32 raw (sect_ptr + 8)) (\<lambda>v_size.
     bind_r (rd_u32 raw (sect_ptr + 20)) (\<lambda>r_ptr.
     bind_r (rd_u32 raw (sect_ptr + 16)) (\<lambda>r_size.
     let effective_v_size = (if v_size > 0 then v_size else r_size)
     in if rva \<ge> v_addr
        then bind_r (add_chk v_addr effective_v_size) (\<lambda>v_end.
             if rva < v_end
             then bind_r (add_chk r_ptr (rva - v_addr)) (\<lambda>off. Ok (Some (unat off)))
             else scan_headers raw rva n (sect_ptr + 40))
        else scan_headers raw rva n (sect_ptr + 40)))))"

definition find_file_offset :: "pe_file \<Rightarrow> u32 \<Rightarrow> nat option res" where
  "find_file_offset pe rva =
     bind_r (rd_u32 (raw_bytes pe) 0x3C) (\<lambda>e.
     let e_lfanew = unat e
     in bind_r (rd_u16 (raw_bytes pe) (e_lfanew + 6)) (\<lambda>num_sections.
        bind_r (rd_u16 (raw_bytes pe) (e_lfanew + 20)) (\<lambda>opt_size.
        scan_headers (raw_bytes pe) rva (unat num_sections) (e_lfanew + 24 + unat opt_size))))"

fun scan_sections :: "pe_file \<Rightarrow> u32 \<Rightarrow> pe_section list \<Rightarrow> nat option res" where
  "scan_sections pe rva [] = Ok None"
| "scan_sections pe rva (s # ss) =
     bind_r (sub_chk (virtual_address s) (image_base pe)) (\<lambda>d.
     let start = (ucast d :: u32)
     in bind_r (add_chk start (ucast (virtual_size s))) (\<lambda>sec_end.
        if rva \<ge> start \<and> rva < sec_end then find_file_offset pe rva
        else scan_sections pe rva ss))"

definition rva_to_offset :: "pe_file \<Rightarrow> u32 \<Rightarrow> nat option res" where
  "rva_to_offset pe rva = scan_sections pe rva (sections pe)"

text \<open>\<open>self.rva_to_offset(rva).ok_or(msg)?\<close>.\<close>

definition offset_or :: "string \<Rightarrow> pe_file \<Rightarrow> u32 \<Rightarrow> nat res" where
  "offset_or msg pe rva = bind_r (rva_to_offset pe rva) (ok_or msg)"

function cstring_end :: "u8 list \<Rightarrow> nat \<Rightarrow> nat" where
  "cstring_end raw i = (if i < length raw \<and> raw ! i \<noteq> 0 then cstring_end raw (i + 1) else i)"
  by pat_completeness auto
termination
  by (relation "measure (\<lambda>(raw, i). length raw - i)") auto

declare cstring_end.simps [simp del]

definition read_cstring :: "pe_file \<Rightarrow> nat \<Rightarrow> rstring res" where
  "read_cstring pe offset =
     bind_r (slice_r (raw_bytes pe) offset (cstring_end (raw_bytes pe) offset)) (\<lambda>b.
     Ok (from_utf8_lossy b))"

section \<open>Exports\<close>

text \<open>One round of the loop over the name table: the name of the function with index \<open>ordinal\<close>.\<close>

definition export_name_step ::
  "pe_file \<Rightarrow> nat \<Rightarrow> nat \<Rightarrow> nat \<Rightarrow> (u16 \<rightharpoonup> rstring) \<Rightarrow> (u16 \<rightharpoonup> rstring) res" where
  "export_name_step pe name_offset ordinal_offset i name_map =
     bind_r (rd_u32 (raw_bytes pe) (name_offset + i * 4)) (\<lambda>name_ptr_rva.
     bind_r (offset_or ''Invalid Name String RVA'' pe name_ptr_rva) (\<lambda>name_str_offset.
     bind_r (read_cstring pe name_str_offset) (\<lambda>name.
     bind_r (rd_u16 (raw_bytes pe) (ordinal_offset + i * 2)) (\<lambda>ordinal.
     Ok (name_map(ordinal \<mapsto> name))))))"

text \<open>The forwarder check: a function address inside the export directory is the address of a
  string.\<close>

definition export_forwarder :: "pe_file \<Rightarrow> u32 \<Rightarrow> u32 \<Rightarrow> u32 \<Rightarrow> rstring option res" where
  "export_forwarder pe dir_rva dir_size func_rva =
     (if func_rva \<ge> dir_rva
      then bind_r (add_chk dir_rva dir_size) (\<lambda>dir_end.
           if func_rva < dir_end
           then bind_r (rva_to_offset pe func_rva) (\<lambda>fwd_offset.
                case fwd_offset of
                  None \<Rightarrow> Ok None
                | Some o' \<Rightarrow> bind_r (read_cstring pe o') (\<lambda>s. Ok (Some s)))
           else Ok None)
      else Ok None)"

text \<open>One round of the loop over the function table.\<close>

definition export_func_step ::
  "pe_file \<Rightarrow> u32 \<Rightarrow> u32 \<Rightarrow> u32 \<Rightarrow> nat \<Rightarrow> (u16 \<rightharpoonup> rstring) \<Rightarrow> nat \<Rightarrow> export_entry list \<Rightarrow> export_entry list res" where
  "export_func_step pe dir_rva dir_size base addr_offset name_map i exports =
     bind_r (rd_u32 (raw_bytes pe) (addr_offset + i * 4)) (\<lambda>func_rva.
     if func_rva = 0 then Ok exports
     else
     bind_r (add_chk (of_nat i) base) (\<lambda>n.
     let ordinal = (ucast n :: u16);
         name = (case name_map (of_nat i) of Some s \<Rightarrow> s | None \<Rightarrow> lit ''#'' @ dec (unat ordinal))
     in bind_r (export_forwarder pe dir_rva dir_size func_rva) (\<lambda>forwarder.
        Ok (exports @ [\<lparr>exp_name = name, exp_rva = func_rva, exp_ordinal = ordinal,
                         exp_forwarder = forwarder\<rparr>]))))"

definition get_exports :: "pe_file \<Rightarrow> export_entry list res" where
  "get_exports pe =
     bind_r (get_data_directory pe 0) (\<lambda>(dir_rva, dir_size).
     if dir_rva = 0 then Ok []
     else
     bind_r (offset_or ''Invalid Export RVA'' pe dir_rva) (\<lambda>dir_offset.
     bind_r (rd_u32 (raw_bytes pe) (dir_offset + 16)) (\<lambda>base.
     bind_r (rd_u32 (raw_bytes pe) (dir_offset + 20)) (\<lambda>num_funcs.
     bind_r (rd_u32 (raw_bytes pe) (dir_offset + 24)) (\<lambda>num_names.
     bind_r (rd_u32 (raw_bytes pe) (dir_offset + 28)) (\<lambda>addr_table_rva.
     bind_r (rd_u32 (raw_bytes pe) (dir_offset + 32)) (\<lambda>name_table_rva.
     bind_r (rd_u32 (raw_bytes pe) (dir_offset + 36)) (\<lambda>ordinal_table_rva.
     bind_r (offset_or ''Invalid Address Table RVA'' pe addr_table_rva) (\<lambda>addr_offset.
     bind_r (offset_or ''Invalid Name Table RVA'' pe name_table_rva) (\<lambda>name_offset.
     bind_r (offset_or ''Invalid Ordinal Table RVA'' pe ordinal_table_rva) (\<lambda>ordinal_offset.
     bind_r (for_r (export_name_step pe name_offset ordinal_offset) [0..<unat num_names] Map.empty)
       (\<lambda>name_map.
     for_r (export_func_step pe dir_rva dir_size base addr_offset name_map) [0..<unat num_funcs] []))))))))))))"

section \<open>Imports\<close>

text \<open>The name of an imported function: an ordinal when bit 63 is set, else the string after the
  two-byte hint.\<close>

definition thunk_name :: "pe_file \<Rightarrow> u64 \<Rightarrow> rstring res" where
  "thunk_name pe thunk_data =
     (if thunk_data AND push_bit 63 1 \<noteq> 0
      then Ok (lit ''#'' @ dec (unat (thunk_data AND 0xFFFF)))
      else bind_r (offset_or ''Invalid Hint/Name RVA'' pe (ucast (thunk_data AND 0x7FFFFFFF))) (\<lambda>off.
           read_cstring pe (off + 2)))"

function import_thunks :: "pe_file \<Rightarrow> u32 \<Rightarrow> u32 \<Rightarrow> import_function list res" where
  "import_thunks pe thunk_rva iat_rva_curr =
     bind_r (offset_or ''Invalid Thunk RVA'' pe thunk_rva) (\<lambda>thunk_offset.
     bind_r (rd_u64 (raw_bytes pe) thunk_offset) (\<lambda>thunk_data.
     if thunk_data = 0 then Ok []
     else
     bind_r (thunk_name pe thunk_data) (\<lambda>func_name.
     bind_r (add_chk thunk_rva 8) (\<lambda>thunk_rva'.
     bind_r (add_chk iat_rva_curr 8) (\<lambda>iat_rva'.
     bind_r (import_thunks pe thunk_rva' iat_rva') (\<lambda>fs.
     Ok (\<lparr>imp_name = func_name, iat_rva = iat_rva_curr\<rparr> # fs)))))))"
  by pat_completeness auto
termination
proof (relation "measure (\<lambda>(pe, t, i). 2 ^ 32 - unat t)")
  fix pe :: pe_file and t i t' i' :: u32 and off :: nat and d :: u64 and nm :: rstring
  assume "add_chk t 8 = Ok t'"
  then have "unat t' = unat t + 8" by (auto dest: add_chk_unat)
  then show "((pe, t', i'), (pe, t, i)) \<in> measure (\<lambda>(pe, t, i). 2 ^ 32 - unat t)"
    using unat_lt_32 [of t'] by simp
qed simp

declare import_thunks.simps [simp del]

function import_descriptors :: "pe_file \<Rightarrow> nat \<Rightarrow> import_entry list res" where
  "import_descriptors pe dir_offset =
     bind_r (rd_u32 (raw_bytes pe) dir_offset) (\<lambda>original_first_thunk.
     bind_r (rd_u32 (raw_bytes pe) (dir_offset + 4)) (\<lambda>time_date.
     bind_r (rd_u32 (raw_bytes pe) (dir_offset + 8)) (\<lambda>forwarder_chain.
     bind_r (rd_u32 (raw_bytes pe) (dir_offset + 12)) (\<lambda>name_rva.
     bind_r (rd_u32 (raw_bytes pe) (dir_offset + 16)) (\<lambda>first_thunk.
     if original_first_thunk = 0 \<and> name_rva = 0 then Ok []
     else
     bind_r (offset_or ''Invalid Import Name RVA'' pe name_rva) (\<lambda>dll_name_offset.
     bind_r (read_cstring pe dll_name_offset) (\<lambda>name.
     bind_r (import_thunks pe (if original_first_thunk \<noteq> 0 then original_first_thunk else first_thunk)
              first_thunk) (\<lambda>fs.
     bind_r (import_descriptors pe (dir_offset + 20)) (\<lambda>rest.
     Ok (\<lparr>dll_name = name, imp_functions = fs\<rparr> # rest))))))))))"
  by pat_completeness auto
termination
proof (relation "measure (\<lambda>(pe, d). length (raw_bytes pe) - d)")
  fix pe :: pe_file and d :: nat and x :: u32
  assume "rd_u32 (raw_bytes pe) d = Ok x"
  then have "d + 4 \<le> length (raw_bytes pe)" by (rule rd_in_bounds)
  then show "((pe, d + 20), (pe, d)) \<in> measure (\<lambda>(pe, d). length (raw_bytes pe) - d)" by simp
qed simp

declare import_descriptors.simps [simp del]

definition get_imports :: "pe_file \<Rightarrow> import_entry list res" where
  "get_imports pe =
     bind_r (get_data_directory pe 1) (\<lambda>(dir_rva, dir_size).
     if dir_rva = 0 then Ok []
     else bind_r (offset_or ''Invalid Import RVA'' pe dir_rva) (import_descriptors pe))"

section \<open>Strings and offsets\<close>

lemma cstring_end_takeWhile:
  "cstring_end raw i = i + length (takeWhile (\<lambda>b. b \<noteq> 0) (drop i raw))"
proof (induction raw i rule: cstring_end.induct)
  case (1 raw i)
  show ?case
  proof (cases "i < length raw \<and> raw ! i \<noteq> 0")
    case True
    then have "drop i raw = raw ! i # drop (i + 1) raw" by (simp add: Cons_nth_drop_Suc)
    then show ?thesis using 1 True by (simp add: cstring_end.simps [of raw i])
  next
    case False
    then have "takeWhile (\<lambda>b. b \<noteq> 0) (drop i raw) = []"
      by (cases "i < length raw") (auto simp: Cons_nth_drop_Suc [symmetric])
    moreover have "cstring_end raw i = i" using False by (subst cstring_end.simps) (rule if_not_P)
    ultimately show ?thesis by simp
  qed
qed

lemma read_cstring_eq:
  "read_cstring pe off =
     (if off \<le> length (raw_bytes pe)
      then Ok (from_utf8_lossy (takeWhile (\<lambda>b. b \<noteq> 0) (drop off (raw_bytes pe)))) else Panic)"
proof (cases "off \<le> length (raw_bytes pe)")
  case True
  have "length (takeWhile (\<lambda>b. b \<noteq> 0) (drop off (raw_bytes pe))) \<le> length (raw_bytes pe) - off"
    using length_takeWhile_le [of "\<lambda>b. b \<noteq> 0" "drop off (raw_bytes pe)"] by simp
  then show ?thesis
    using True by (auto simp: read_cstring_def slice_r_def cstring_end_takeWhile simp flip: takeWhile_eq_take)
next
  case False
  then show ?thesis by (simp add: read_cstring_def slice_r_def cstring_end_takeWhile)
qed

text \<open>A section header at \<open>p\<close> holds the address \<open>rva\<close>, at distance \<open>d\<close> from its start, and puts it
  at the file offset \<open>off\<close>.\<close>

definition header_maps :: "u8 list \<Rightarrow> u32 \<Rightarrow> nat \<Rightarrow> nat \<Rightarrow> bool" where
  "header_maps raw rva p off \<longleftrightarrow>
     (\<exists>v_addr v_size r_ptr r_size.
        rd_u32 raw (p + 12) = Ok v_addr \<and> rd_u32 raw (p + 8) = Ok v_size \<and>
        rd_u32 raw (p + 20) = Ok r_ptr \<and> rd_u32 raw (p + 16) = Ok r_size \<and>
        unat v_addr \<le> unat rva \<and> unat rva < unat v_addr + unat (if v_size > 0 then v_size else r_size) \<and>
        off = unat r_ptr + (unat rva - unat v_addr))"

lemma scan_headers_sound:
  "scan_headers raw rva n p = Ok (Some off) \<Longrightarrow>
   (\<exists>k<n. header_maps raw rva (p + 40 * k) off \<and> (\<forall>j<k. \<forall>o'. \<not> header_maps raw rva (p + 40 * j) o')) \<or>
   ((\<forall>j<n. \<forall>o'. \<not> header_maps raw rva (p + 40 * j) o') \<and> rva < 4096 \<and> off = unat rva)"
proof (induction raw rva n p rule: scan_headers.induct)
  case (1 raw rva p)
  then show ?case by (simp split: if_splits)
next
  case (2 raw rva n p)
  from "2.prems" obtain v_addr v_size r_ptr r_size where
    rd: "rd_u32 raw (p + 12) = Ok v_addr" "rd_u32 raw (p + 8) = Ok v_size"
      "rd_u32 raw (p + 20) = Ok r_ptr" "rd_u32 raw (p + 16) = Ok r_size"
    by (auto simp: Let_def)
  let ?sz = "if v_size > 0 then v_size else r_size"
  show ?case
  proof (cases "v_addr \<le> rva \<and> unat rva < unat v_addr + unat ?sz")
    case True
    then have "header_maps raw rva p off"
      using "2.prems" rd
      by (auto simp: header_maps_def Let_def add_chk_Ok_iff word_less_nat_alt word_le_nat_alt
          unat_plus_lt unat_sub split: if_splits dest!: add_chk_unat)
    then show ?thesis by (intro disjI1 exI [of _ 0]) simp
  next
    case False
    have no: "\<not> header_maps raw rva p o'" for o'
      using False rd by (auto simp: header_maps_def word_le_nat_alt)
    have rest: "scan_headers raw rva n (p + 40) = Ok (Some off)"
      using "2.prems" rd False
      by (auto simp: Let_def add_chk_Ok_iff word_less_nat_alt word_le_nat_alt unat_plus_lt split: if_splits)
    have IH: "(\<exists>k<n. header_maps raw rva (p + 40 + 40 * k) off \<and> (\<forall>j<k. \<forall>o'. \<not> header_maps raw rva (p + 40 + 40 * j) o')) \<or>
       ((\<forall>j<n. \<forall>o'. \<not> header_maps raw rva (p + 40 + 40 * j) o') \<and> rva < 4096 \<and> off = unat rva)"
    proof (cases "v_addr \<le> rva")
      case True
      then obtain e where "add_chk v_addr ?sz = Ok e" "\<not> rva < e"
        using "2.prems" rd False
        by (auto simp: Let_def add_chk_Ok_iff word_less_nat_alt word_le_nat_alt unat_plus_lt split: if_splits)
      then show ?thesis using "2.IH"(1) [OF rd refl True _ _ rest] by blast
    next
      case False
      then show ?thesis using "2.IH"(2) [OF rd refl False rest] by blast
    qed
    have shift: "(\<forall>j<Suc m. \<forall>o'. \<not> header_maps raw rva (p + 40 * j) o') \<longleftrightarrow>
        (\<forall>j<m. \<forall>o'. \<not> header_maps raw rva (p + 40 + 40 * j) o')" for m
      using no by (auto simp: less_Suc_eq_0_disj add.assoc)
    from IH show ?thesis
    proof (elim disjE exE conjE)
      fix k assume "k < n" "header_maps raw rva (p + 40 + 40 * k) off"
        "\<forall>j<k. \<forall>o'. \<not> header_maps raw rva (p + 40 + 40 * j) o'"
      then show ?thesis using shift [of k] by (intro disjI1 exI [of _ "Suc k"]) (simp add: add.assoc)
    qed (use shift [of n] in simp)
  qed
qed


section \<open>Addresses\<close>

text \<open>The section of the parsed file that holds an address.\<close>

definition in_section :: "pe_file \<Rightarrow> u32 \<Rightarrow> pe_section \<Rightarrow> bool" where
  "in_section pe rva s \<longleftrightarrow>
     image_base pe \<le> virtual_address s \<and>
     (let start = unat (ucast (virtual_address s - image_base pe) :: u32)
      in start \<le> unat rva \<and> unat rva < start + unat (ucast (virtual_size s) :: u32))"

lemma scan_sections_sound:
  "scan_sections pe rva ss = Ok (Some off) \<Longrightarrow>
   (\<exists>s\<in>set ss. in_section pe rva s) \<and> find_file_offset pe rva = Ok (Some off)"
proof (induction pe rva ss rule: scan_sections.induct)
  case (2 pe rva s ss)
  then show ?case
    by (auto simp: in_section_def Let_def sub_chk_Ok_iff add_chk_Ok_iff word_le_nat_alt
        word_less_nat_alt unat_plus_lt split: if_splits)
qed simp

text \<open>The address of the first section header in the file.\<close>

definition section_table :: "pe_file \<Rightarrow> nat \<Rightarrow> nat \<Rightarrow> bool" where
  "section_table pe n p \<longleftrightarrow>
     (\<exists>e num_sections opt_size.
        rd_u32 (raw_bytes pe) 0x3C = Ok e \<and> rd_u16 (raw_bytes pe) (unat e + 6) = Ok num_sections \<and>
        rd_u16 (raw_bytes pe) (unat e + 20) = Ok opt_size \<and>
        n = unat num_sections \<and> p = unat e + 24 + unat opt_size)"

lemma find_file_offset_scan:
  "find_file_offset pe rva = Ok r \<longleftrightarrow>
   (\<exists>n p. section_table pe n p \<and> scan_headers (raw_bytes pe) rva n p = Ok r)"
  by (auto simp: find_file_offset_def section_table_def Let_def)

lemma offset_or_Ok [simp]: "offset_or msg pe rva = Ok off \<longleftrightarrow> rva_to_offset pe rva = Ok (Some off)"
  by (auto simp: offset_or_def)

section \<open>The import tables\<close>

text \<open>The thunk at an address: the file holds the 64-bit word \<open>d\<close> there.\<close>

definition thunk_at :: "pe_file \<Rightarrow> u32 \<Rightarrow> u64 \<Rightarrow> bool" where
  "thunk_at pe rva d \<longleftrightarrow> (\<exists>off. rva_to_offset pe rva = Ok (Some off) \<and> rd_u64 (raw_bytes pe) off = Ok d)"

lemma import_thunks_table:
  "import_thunks pe t i = Ok fs \<Longrightarrow>
   (\<forall>k<length fs. \<exists>d. thunk_at pe (t + 8 * of_nat k) d \<and> d \<noteq> 0 \<and>
      thunk_name pe d = Ok (imp_name (fs ! k)) \<and> iat_rva (fs ! k) = i + 8 * of_nat k) \<and>
   thunk_at pe (t + 8 * of_nat (length fs)) 0"
proof (induction pe t i arbitrary: fs rule: import_thunks.induct)
  case (1 pe t i)
  from "1.prems" obtain off d where od: "rva_to_offset pe t = Ok (Some off)"
      "rd_u64 (raw_bytes pe) off = Ok d"
    by (subst (asm) import_thunks.simps) auto
  show ?case
  proof (cases "d = 0")
    case True
    then have "fs = []" using "1.prems" od by (subst (asm) import_thunks.simps) (auto simp: offset_or_def)
    then show ?thesis using od True by (auto simp: thunk_at_def)
  next
    case False
    with "1.prems" od obtain nm t' i' gs where nm: "thunk_name pe d = Ok nm"
      and t': "add_chk t 8 = Ok t'" and i': "add_chk i 8 = Ok i'"
      and gs: "import_thunks pe t' i' = Ok gs" and fs: "fs = \<lparr>imp_name = nm, iat_rva = i\<rparr> # gs"
      by (subst (asm) import_thunks.simps) (auto simp: offset_or_def)
    have "offset_or ''Invalid Thunk RVA'' pe t = Ok off" using od by simp
    from "1.IH" [OF this od(2) False nm t' i' gs] have IH:
      "\<forall>k<length gs. \<exists>d. thunk_at pe (t' + 8 * of_nat k) d \<and> d \<noteq> 0 \<and>
         thunk_name pe d = Ok (imp_name (gs ! k)) \<and> iat_rva (gs ! k) = i' + 8 * of_nat k"
      "thunk_at pe (t' + 8 * of_nat (length gs)) 0" by blast+
    have ti: "t' = t + 8" "i' = i + 8" using t' i' by (auto simp: add_chk_Ok_iff)
    have first: "thunk_at pe t d" using od by (auto simp: thunk_at_def)
    have "\<exists>d. thunk_at pe (t + 8 * of_nat k) d \<and> d \<noteq> 0 \<and>
         thunk_name pe d = Ok (imp_name (fs ! k)) \<and> iat_rva (fs ! k) = i + 8 * of_nat k"
      if "k < length fs" for k
      using that IH(1) ti fs first False nm by (cases k) (auto simp: algebra_simps)
    then show ?thesis using IH(2) ti fs by (simp add: algebra_simps)
  qed
qed

text \<open>The descriptor in the file at offset \<open>p\<close> describes the entry \<open>e\<close>.\<close>

definition describes :: "pe_file \<Rightarrow> nat \<Rightarrow> import_entry \<Rightarrow> bool" where
  "describes pe p e \<longleftrightarrow>
     (\<exists>oft name_rva ft name_off.
        rd_u32 (raw_bytes pe) p = Ok oft \<and> rd_u32 (raw_bytes pe) (p + 12) = Ok name_rva \<and>
        rd_u32 (raw_bytes pe) (p + 16) = Ok ft \<and> (oft \<noteq> 0 \<or> name_rva \<noteq> 0) \<and>
        rva_to_offset pe name_rva = Ok (Some name_off) \<and> read_cstring pe name_off = Ok (dll_name e) \<and>
        (let t = (if oft \<noteq> 0 then oft else ft)
         in (\<forall>k<length (imp_functions e). \<exists>d. thunk_at pe (t + 8 * of_nat k) d \<and> d \<noteq> 0 \<and>
               thunk_name pe d = Ok (imp_name (imp_functions e ! k)) \<and>
               iat_rva (imp_functions e ! k) = ft + 8 * of_nat k) \<and>
            thunk_at pe (t + 8 * of_nat (length (imp_functions e))) 0))"

definition last_descriptor :: "pe_file \<Rightarrow> nat \<Rightarrow> bool" where
  "last_descriptor pe p \<longleftrightarrow> rd_u32 (raw_bytes pe) p = Ok 0 \<and> rd_u32 (raw_bytes pe) (p + 12) = Ok 0"

lemma import_descriptors_table:
  "import_descriptors pe p = Ok es \<Longrightarrow>
   (\<forall>j<length es. describes pe (p + 20 * j) (es ! j)) \<and> last_descriptor pe (p + 20 * length es)"
proof (induction pe p arbitrary: es rule: import_descriptors.induct)
  case (1 pe p)
  from "1.prems" obtain oft td fc nr ft where
    rd: "rd_u32 (raw_bytes pe) p = Ok oft" "rd_u32 (raw_bytes pe) (p + 4) = Ok td"
      "rd_u32 (raw_bytes pe) (p + 8) = Ok fc" "rd_u32 (raw_bytes pe) (p + 12) = Ok nr"
      "rd_u32 (raw_bytes pe) (p + 16) = Ok ft"
    by (subst (asm) import_descriptors.simps) auto
  show ?case
  proof (cases "oft = 0 \<and> nr = 0")
    case True
    then have "es = []" using "1.prems" rd by (subst (asm) import_descriptors.simps) auto
    then show ?thesis using rd True by (auto simp: last_descriptor_def)
  next
    case False
    from "1.prems" rd False obtain no nm fs rest where
      no: "rva_to_offset pe nr = Ok (Some no)" and nm: "read_cstring pe no = Ok nm"
      and fs: "import_thunks pe (if oft \<noteq> 0 then oft else ft) ft = Ok fs"
      and rest: "import_descriptors pe (p + 20) = Ok rest"
      and es: "es = \<lparr>dll_name = nm, imp_functions = fs\<rparr> # rest"
      by (subst (asm) import_descriptors.simps) auto
    have "offset_or ''Invalid Import Name RVA'' pe nr = Ok no" using no by simp
    from "1.IH" [OF rd False this nm fs rest]
    have IH: "\<forall>j<length rest. describes pe (p + 20 + 20 * j) (rest ! j)"
      "last_descriptor pe (p + 20 + 20 * length rest)" by blast+
    have "describes pe p (es ! 0)"
      unfolding describes_def using rd no nm False import_thunks_table [OF fs] es
      by (intro exI [of _ oft] exI [of _ nr] exI [of _ ft] exI [of _ no]) (simp add: Let_def)
    then have "describes pe (p + 20 * j) (es ! j)" if "j < length es" for j
      using that IH(1) es by (cases j) (auto simp: algebra_simps)
    then show ?thesis using IH(2) es by (simp add: algebra_simps)
  qed
qed

section \<open>The export tables\<close>

text \<open>Row \<open>i\<close> of the name table gives the function with index \<open>ord\<close> the name \<open>s\<close>.\<close>

definition names_row :: "pe_file \<Rightarrow> nat \<Rightarrow> nat \<Rightarrow> nat \<Rightarrow> u16 \<Rightarrow> rstring \<Rightarrow> bool" where
  "names_row pe name_offset ordinal_offset i ord s \<longleftrightarrow>
     (\<exists>rva off. rd_u32 (raw_bytes pe) (name_offset + i * 4) = Ok rva \<and>
        rva_to_offset pe rva = Ok (Some off) \<and> read_cstring pe off = Ok s \<and>
        rd_u16 (raw_bytes pe) (ordinal_offset + i * 2) = Ok ord)"

lemma export_name_step_Ok:
  "export_name_step pe no oo i m = Ok m' \<longleftrightarrow> (\<exists>ord s. names_row pe no oo i ord s \<and> m' = m(ord \<mapsto> s))"
  by (auto simp: export_name_step_def names_row_def)

lemma names_row_unique:
  "names_row pe no oo i ord s \<Longrightarrow> names_row pe no oo i ord' s' \<Longrightarrow> ord' = ord \<and> s' = s"
  by (auto simp: names_row_def)

text \<open>The map of names: the last row that names an index decides.\<close>

lemma export_names_map:
  "for_r (export_name_step pe no oo) [0..<n] Map.empty = Ok m \<Longrightarrow>
   (m ord = Some s \<longleftrightarrow> (\<exists>i<n. names_row pe no oo i ord s \<and> (\<forall>j s'. i < j \<and> j < n \<longrightarrow> \<not> names_row pe no oo j ord s')))"
proof (induction n arbitrary: m)
  case (Suc n)
  from Suc.prems obtain m0 o1 s1 where m0: "for_r (export_name_step pe no oo) [0..<n] Map.empty = Ok m0"
    and row: "names_row pe no oo n o1 s1" and m: "m = m0(o1 \<mapsto> s1)"
    by (auto simp: for_r_append export_name_step_Ok)
  show ?case
  proof (cases "ord = o1")
    case True
    then show ?thesis using row m by (auto simp: less_Suc_eq dest: names_row_unique)
  next
    case False
    then have "\<not> names_row pe no oo n ord s'" for s' using row names_row_unique by blast
    then show ?thesis using False m Suc.IH [OF m0] by (auto simp: less_Suc_eq)
  qed
qed simp

text \<open>Index \<open>i\<close> of the function table is the export \<open>e\<close>.\<close>

definition export_row ::
  "pe_file \<Rightarrow> u32 \<Rightarrow> u32 \<Rightarrow> u32 \<Rightarrow> nat \<Rightarrow> (u16 \<rightharpoonup> rstring) \<Rightarrow> nat \<Rightarrow> export_entry \<Rightarrow> bool" where
  "export_row pe dir_rva dir_size base addr_offset m i e \<longleftrightarrow>
     rd_u32 (raw_bytes pe) (addr_offset + i * 4) = Ok (exp_rva e) \<and> exp_rva e \<noteq> 0 \<and>
     exp_ordinal e = ucast (of_nat i + base) \<and>
     exp_name e = (case m (of_nat i) of Some s \<Rightarrow> s | None \<Rightarrow> lit ''#'' @ dec (unat (exp_ordinal e))) \<and>
     export_forwarder pe dir_rva dir_size (exp_rva e) = Ok (exp_forwarder e)"

lemma export_func_step_Ok:
  "export_func_step pe dr ds base ao m i es = Ok es' \<Longrightarrow>
   (rd_u32 (raw_bytes pe) (ao + i * 4) = Ok 0 \<and> es' = es) \<or>
   (\<exists>e. export_row pe dr ds base ao m i e \<and> es' = es @ [e])"
  by (cases "m (of_nat i)")
    (auto simp: export_func_step_def export_row_def Let_def add_chk_Ok_iff split: if_splits)

text \<open>The indices whose function address is not zero.\<close>

definition used_rows :: "pe_file \<Rightarrow> nat \<Rightarrow> nat \<Rightarrow> nat list" where
  "used_rows pe addr_offset n =
     filter (\<lambda>i. rd_u32 (raw_bytes pe) (addr_offset + i * 4) \<noteq> Ok 0) [0..<n]"

lemma export_funcs_table:
  "for_r (export_func_step pe dr ds base ao m) [0..<n] [] = Ok es \<Longrightarrow>
   list_all2 (export_row pe dr ds base ao m) (used_rows pe ao n) es"
proof (induction n arbitrary: es)
  case (Suc n)
  from Suc.prems obtain es0 where es0: "for_r (export_func_step pe dr ds base ao m) [0..<n] [] = Ok es0"
    and step: "export_func_step pe dr ds base ao m n es0 = Ok es"
    by (auto simp: for_r_append)
  from export_func_step_Ok [OF step] Suc.IH [OF es0] show ?case
    by (auto simp: used_rows_def export_row_def intro: list_all2_appendI)
qed (simp add: used_rows_def)

text \<open>An address is forwarded exactly when it lies in the export directory.\<close>

lemma export_forwarder_Ok:
  "export_forwarder pe dr ds f = Ok fw \<Longrightarrow>
   (if dr \<le> f \<and> unat f < unat dr + unat ds
    then (case fw of None \<Rightarrow> rva_to_offset pe f = Ok None
          | Some s \<Rightarrow> \<exists>off. rva_to_offset pe f = Ok (Some off) \<and> read_cstring pe off = Ok s)
    else fw = None)"
  by (auto simp: export_forwarder_def add_chk_Ok_iff word_less_nat_alt unat_plus_lt split: if_splits option.splits)

section \<open>A small image\<close>

text \<open>A file with one section at address \<open>0x1000\<close>, holding an export directory with two functions
  (\<open>KeA\<close> at \<open>0x1090\<close>, and ordinal 2, forwarded to the string \<open>fwd\<close> of eight bytes) and an import
  directory with one descriptor, for ordinal 1 of \<open>NT\<close>. It is the concrete input of the witnesses
  here and in the components that use the parser.\<close>

definition sample_image :: "u8 list \<Rightarrow> u8 list" where
  "sample_image fwd =
     replicate 60 0 @ le32 64 @ replicate 6 0 @ le16 1 @ replicate 12 0 @ le16 128 @ replicate 114 0 @
     le32 0x1000 @ le32 68 @ le32 0x1048 @ le32 0 @ replicate 8 0 @
     le32 160 @ le32 0x1000 @ le32 160 @ le32 256 @ replicate 32 0 @
     le32 1 @ le32 2 @ le32 1 @ le32 0x1028 @ le32 0x1030 @ le32 0x1034 @
     le32 0x1090 @ le32 0x103C @ le32 0x1038 @ le16 0 @ le16 0 @ [75, 101, 65, 0] @ fwd @ le32 0 @
     le32 0x1070 @ le32 0 @ le32 0 @ le32 0x1088 @ le32 0x1080 @
     le32 0 @ le32 0 @ le32 0 @ le32 0 @ le32 0 @
     le64 0x8000000000000001 @ le64 0 @ le64 0 @ [78, 84, 0, 0, 0, 0, 0, 0] @ replicate 16 0"

definition fwd_KeA :: "u8 list" where
  "fwd_KeA = [78, 84, 46, 75, 101, 65, 0, 0]"

definition fwd_loop :: "u8 list" where
  "fwd_loop = [78, 84, 46, 35, 50, 0, 0, 0]"

definition sample_pe :: "u8 list \<Rightarrow> pe_file" where
  "sample_pe fwd =
     \<lparr>entry_point = 0x1090, architecture = ''X86_64'', image_base = 0,
      sections = [\<lparr>sec_name = lit ''.text'', virtual_address = 0x1000, virtual_size = 160,
                   raw_data = drop 256 (sample_image fwd)\<rparr>],
      header_data = take 256 (sample_image fwd), pdb_name = lit ''Unknown'', pdb_guid_age = lit ''Unknown'',
      raw_bytes = sample_image fwd\<rparr>"

lemma sample_length: "length fwd = 8 \<Longrightarrow> length (sample_image fwd) = 416"
  by (simp add: sample_image_def)

lemma sample_reads:
  assumes "length fwd = 8"
  shows "rd_u32 (sample_image fwd) 60 = Ok 64" "rd_u16 (sample_image fwd) 70 = Ok 1"
    "rd_u16 (sample_image fwd) 84 = Ok 128" 
    "rd_u32 (sample_image fwd) 200 = Ok 0x1000" "rd_u32 (sample_image fwd) 204 = Ok 68"
    "rd_u32 (sample_image fwd) 208 = Ok 0x1048" "rd_u32 (sample_image fwd) 212 = Ok 0"
    "rd_u32 (sample_image fwd) 224 = Ok 160" "rd_u32 (sample_image fwd) 228 = Ok 0x1000"
    "rd_u32 (sample_image fwd) 232 = Ok 160" "rd_u32 (sample_image fwd) 236 = Ok 256"
    "rd_u32 (sample_image fwd) 272 = Ok 1" "rd_u32 (sample_image fwd) 276 = Ok 2"
    "rd_u32 (sample_image fwd) 280 = Ok 1" "rd_u32 (sample_image fwd) 284 = Ok 0x1028"
    "rd_u32 (sample_image fwd) 288 = Ok 0x1030" "rd_u32 (sample_image fwd) 292 = Ok 0x1034"
    "rd_u32 (sample_image fwd) 296 = Ok 0x1090" "rd_u32 (sample_image fwd) 300 = Ok 0x103C"
    "rd_u32 (sample_image fwd) 304 = Ok 0x1038" "rd_u16 (sample_image fwd) 308 = Ok 0"
    "rd_u32 (sample_image fwd) 328 = Ok 0x1070" "rd_u32 (sample_image fwd) 332 = Ok 0"
    "rd_u32 (sample_image fwd) 336 = Ok 0" "rd_u32 (sample_image fwd) 340 = Ok 0x1088"
    "rd_u32 (sample_image fwd) 344 = Ok 0x1080" "rd_u32 (sample_image fwd) 348 = Ok 0"
    "rd_u32 (sample_image fwd) 352 = Ok 0" "rd_u32 (sample_image fwd) 356 = Ok 0"
    "rd_u32 (sample_image fwd) 360 = Ok 0" "rd_u32 (sample_image fwd) 364 = Ok 0"
    "rd_u64 (sample_image fwd) 368 = Ok 0x8000000000000001" "rd_u64 (sample_image fwd) 376 = Ok 0"
  by (simp add: rd_ok sample_length [OF assms], simp add: sample_image_def assms)+

lemma sample_fwd_length [simp]: "length fwd_KeA = 8" "length fwd_loop = 8"
  by (simp_all add: fwd_KeA_def fwd_loop_def)

lemma sample_rva:
  assumes "length fwd = 8" and "0x1000 \<le> unat rva" and "unat rva < 0x10A0"
  shows "rva_to_offset (sample_pe fwd) rva = Ok (Some (unat rva - 0xF00))"
proof -
  have "add_chk (256 :: u32) (rva - 0x1000) = Ok (256 + (rva - 0x1000))"
    "unat (256 + (rva - 0x1000)) = unat rva - 0xF00"
    using assms by (simp_all add: add_chk_def unat_sub_if' word_le_nat_alt unat_word_ariths)
  moreover have "add_chk (0x1000 :: u32) 160 = Ok 0x10A0" by (simp add: add_chk_def)
  ultimately show ?thesis
    using assms
    by (simp add: rva_to_offset_def sample_pe_def sub_chk_def find_file_offset_def sample_reads
        word_le_nat_alt word_less_nat_alt One_nat_def del: scan_headers.simps)
      (simp add: numeral_1_eq_Suc_0 sample_reads word_le_nat_alt word_less_nat_alt)
qed

lemma sample_string:
  assumes "length fwd = 8"
  shows "read_cstring (sample_pe fwd) 312 = Ok (lit ''KeA'')"
    "read_cstring (sample_pe fwd) 392 = Ok (lit ''NT'')"
  by (simp add: read_cstring_eq sample_pe_def sample_length assms,
    simp add: sample_image_def assms from_utf8_lossy_ascii lit_def)+

lemma sample_string_fwd:
  assumes "length fwd = 8" and "0 \<in> set fwd"
  shows "read_cstring (sample_pe fwd) 316 = Ok (from_utf8_lossy (takeWhile (\<lambda>b. b \<noteq> 0) fwd))"
  using assms takeWhile_append1 [of 0 fwd "\<lambda>b. b \<noteq> 0"]
  by (simp add: read_cstring_eq sample_pe_def sample_length) (simp add: sample_image_def)

lemma sample_raw [simp]: "raw_bytes (sample_pe fwd) = sample_image fwd"
  by (simp add: sample_pe_def)

lemma sample_directories:
  assumes "length fwd = 8"
  shows "get_data_directory (sample_pe fwd) 0 = Ok (0x1000, 68)"
    "get_data_directory (sample_pe fwd) (Suc 0) = Ok (0x1048, 0)"
  by (simp_all add: get_data_directory_def sample_reads assms sample_length)

lemma sample_exports:
  assumes "length fwd = 8" and "0 \<in> set fwd"
  shows "get_exports (sample_pe fwd) = Ok
    [\<lparr>exp_name = lit ''KeA'', exp_rva = 0x1090, exp_ordinal = 1, exp_forwarder = None\<rparr>,
     \<lparr>exp_name = lit ''#2'', exp_rva = 0x103C, exp_ordinal = 2,
      exp_forwarder = Some (from_utf8_lossy (takeWhile (\<lambda>b. b \<noteq> 0) fwd))\<rparr>]"
  using assms
  by (simp add: get_exports_def sample_directories offset_or_def sample_rva sample_reads
      export_name_step_def export_func_step_def export_forwarder_def sample_string sample_string_fwd
      add_chk_def upt_conv_Cons dec.simps lit_def word_le_nat_alt word_less_nat_alt)

lemma sample_imports:
  assumes "length fwd = 8"
  shows "get_imports (sample_pe fwd) = Ok
    [\<lparr>dll_name = lit ''NT'', imp_functions = [\<lparr>imp_name = lit ''#1'', iat_rva = 0x1080\<rparr>]\<rparr>]"
proof -
  note eval = offset_or_def sample_rva sample_reads sample_string assms add_chk_def lit_def
  have "import_thunks (sample_pe fwd) 0x1078 0x1088 = Ok []"
    by (subst import_thunks.simps) (simp add: eval)
  then have "import_thunks (sample_pe fwd) 0x1070 0x1080 = Ok [\<lparr>imp_name = lit ''#1'', iat_rva = 0x1080\<rparr>]"
    by (subst import_thunks.simps) (simp add: eval thunk_name_def dec.simps)
  moreover have "import_descriptors (sample_pe fwd) 348 = Ok []"
    by (subst import_descriptors.simps) (simp add: eval)
  ultimately have "import_descriptors (sample_pe fwd) 328 = Ok
    [\<lparr>dll_name = lit ''NT'', imp_functions = [\<lparr>imp_name = lit ''#1'', iat_rva = 0x1080\<rparr>]\<rparr>]"
    by (subst import_descriptors.simps) (simp add: eval)
  then show ?thesis by (simp add: get_imports_def eval sample_directories)
qed

section \<open>Properties\<close>

text \<open>Property C30: a file offset returned for a relative address is right. The address lies in a
  section of the parsed file; the offset is the raw position of the first section header that holds
  the address plus the distance from the section's start, or, when no header holds it, the address
  itself, which is then in the first page.\<close>

theorem rva_to_offset_correct:
  assumes "rva_to_offset pe rva = Ok (Some off)"
  shows "(\<exists>s\<in>set (sections pe). in_section pe rva s) \<and>
    (\<exists>n p. section_table pe n p \<and>
       ((\<exists>k<n. header_maps (raw_bytes pe) rva (p + 40 * k) off \<and>
           (\<forall>j<k. \<forall>o'. \<not> header_maps (raw_bytes pe) rva (p + 40 * j) o')) \<or>
        ((\<forall>j<n. \<forall>o'. \<not> header_maps (raw_bytes pe) rva (p + 40 * j) o') \<and> rva < 4096 \<and> off = unat rva)))"
proof -
  from scan_sections_sound [OF assms [unfolded rva_to_offset_def]] obtain n p where
    sec: "\<exists>s\<in>set (sections pe). in_section pe rva s" and tab: "section_table pe n p"
    and scan: "scan_headers (raw_bytes pe) rva n p = Ok (Some off)"
    by (auto simp: find_file_offset_scan)
  show ?thesis using sec tab scan_headers_sound [OF scan] by blast
qed

theorem rva_to_offset_correct_witness:
  "rva_to_offset (sample_pe fwd_KeA) 0x1090 = Ok (Some 400) \<and>
   (\<exists>s\<in>set (sections (sample_pe fwd_KeA)). in_section (sample_pe fwd_KeA) 0x1090 s)"
proof -
  have "rva_to_offset (sample_pe fwd_KeA) 0x1090 = Ok (Some 400)" by (simp add: sample_rva)
  with rva_to_offset_correct [OF this] show ?thesis by blast
qed

text \<open>Property C29: the exports of a file are the non-empty rows of its function table, in order. The
  tables are those of the export directory: at the directory's file offset, \<open>+16\<close> holds the ordinal
  base, \<open>+20\<close> the number of functions, \<open>+24\<close> the number of names, and \<open>+28\<close>, \<open>+32\<close> and \<open>+36\<close> the addresses of
  the function, the name and the ordinal table, which are read at the file offsets of these addresses.
  Each export has its row's address, the row number plus the ordinal base as ordinal, the name of
  the last row of the name table that points to it (\<open>#ordinal\<close> when there is none), and is a
  forwarder exactly when its address lies in the export directory, its forwarder string being the
  C string found there.\<close>

theorem get_exports_correct:
  assumes "get_exports pe = Ok es" and "get_data_directory pe 0 = Ok (dir_rva, dir_size)"
    and "dir_rva \<noteq> 0"
  shows "\<exists>d base n k a_rva n_rva o_rva addr_offset name_offset ordinal_offset m.
    rva_to_offset pe dir_rva = Ok (Some d) \<and>
    rd_u32 (raw_bytes pe) (d + 16) = Ok base \<and> rd_u32 (raw_bytes pe) (d + 20) = Ok n \<and> rd_u32 (raw_bytes pe) (d + 24) = Ok k \<and>
    rd_u32 (raw_bytes pe) (d + 28) = Ok a_rva \<and> rva_to_offset pe a_rva = Ok (Some addr_offset) \<and>
    rd_u32 (raw_bytes pe) (d + 32) = Ok n_rva \<and> rva_to_offset pe n_rva = Ok (Some name_offset) \<and>
    rd_u32 (raw_bytes pe) (d + 36) = Ok o_rva \<and> rva_to_offset pe o_rva = Ok (Some ordinal_offset) \<and>
    list_all2 (export_row pe dir_rva dir_size base addr_offset m) (used_rows pe addr_offset (unat n)) es \<and>
    (\<forall>ord s. m ord = Some s \<longleftrightarrow>
       (\<exists>i<unat k. names_row pe name_offset ordinal_offset i ord s \<and>
          (\<forall>j s'. i < j \<and> j < unat k \<longrightarrow> \<not> names_row pe name_offset ordinal_offset j ord s'))) \<and>
    (\<forall>e\<in>set es. case exp_forwarder e of
       Some s \<Rightarrow> dir_rva \<le> exp_rva e \<and> unat (exp_rva e) < unat dir_rva + unat dir_size \<and>
         (\<exists>off. rva_to_offset pe (exp_rva e) = Ok (Some off) \<and> read_cstring pe off = Ok s)
     | None \<Rightarrow> dir_rva \<le> exp_rva e \<and> unat (exp_rva e) < unat dir_rva + unat dir_size \<longrightarrow>
         rva_to_offset pe (exp_rva e) = Ok None)"
proof -
  from assms obtain d base n k a_rva n_rva o_rva ao no oo m where
    dir: "rva_to_offset pe dir_rva = Ok (Some d)" "rd_u32 (raw_bytes pe) (d + 16) = Ok base"
      "rd_u32 (raw_bytes pe) (d + 20) = Ok n" "rd_u32 (raw_bytes pe) (d + 24) = Ok k"
      "rd_u32 (raw_bytes pe) (d + 28) = Ok a_rva" "rva_to_offset pe a_rva = Ok (Some ao)"
      "rd_u32 (raw_bytes pe) (d + 32) = Ok n_rva" "rva_to_offset pe n_rva = Ok (Some no)"
      "rd_u32 (raw_bytes pe) (d + 36) = Ok o_rva" "rva_to_offset pe o_rva = Ok (Some oo)"
    and names: "for_r (export_name_step pe no oo) [0..<unat k] Map.empty = Ok m"
    and funcs: "for_r (export_func_step pe dir_rva dir_size base ao m) [0..<unat n] [] = Ok es"
    by (auto simp: get_exports_def offset_or_def)
  have rows: "list_all2 (export_row pe dir_rva dir_size base ao m) (used_rows pe ao (unat n)) es"
    by (rule export_funcs_table [OF funcs])
  have "export_forwarder pe dir_rva dir_size (exp_rva e) = Ok (exp_forwarder e)" if "e \<in> set es" for e
    using rows that by (auto simp: export_row_def list_all2_conv_all_nth in_set_conv_nth)
  then have "\<forall>e\<in>set es. case exp_forwarder e of
       Some s \<Rightarrow> dir_rva \<le> exp_rva e \<and> unat (exp_rva e) < unat dir_rva + unat dir_size \<and>
         (\<exists>off. rva_to_offset pe (exp_rva e) = Ok (Some off) \<and> read_cstring pe off = Ok s)
     | None \<Rightarrow> dir_rva \<le> exp_rva e \<and> unat (exp_rva e) < unat dir_rva + unat dir_size \<longrightarrow>
         rva_to_offset pe (exp_rva e) = Ok None"
    by (fastforce dest: export_forwarder_Ok split: option.splits if_splits)
  with dir rows export_names_map [OF names] show ?thesis by (intro exI conjI allI)
qed

theorem get_exports_correct_witness:
  "\<exists>es. get_exports (sample_pe fwd_KeA) = Ok es \<and> map exp_rva es = [0x1090, 0x103C] \<and>
     (\<exists>m. list_all2 (export_row (sample_pe fwd_KeA) 0x1000 68 1 296 m) (used_rows (sample_pe fwd_KeA) 296 2) es)"
proof -
  have ex: "get_exports (sample_pe fwd_KeA) = Ok
    [\<lparr>exp_name = lit ''KeA'', exp_rva = 0x1090, exp_ordinal = 1, exp_forwarder = None\<rparr>,
     \<lparr>exp_name = lit ''#2'', exp_rva = 0x103C, exp_ordinal = 2,
      exp_forwarder = Some (from_utf8_lossy (takeWhile (\<lambda>b. b \<noteq> 0) fwd_KeA))\<rparr>]"
    by (rule sample_exports) (simp_all add: fwd_KeA_def)
  from get_exports_correct [OF ex sample_directories(1)] show ?thesis
    by (auto simp: ex sample_rva sample_reads)
qed

text \<open>Property C28: the imports of a file are what its import directory lists. Entry \<open>j\<close> is the
  descriptor 20 bytes further on for each entry before it; the name of its function \<open>k\<close> comes from
  slot \<open>k\<close> of the lookup table (of the address table when there is none), its address slot is slot
  \<open>k\<close> of the address table; the slot after the last function is zero and the descriptor after the
  last entry is the terminator.\<close>

theorem get_imports_correct:
  assumes "get_imports pe = Ok es" and "get_data_directory pe 1 = Ok (dir_rva, dir_size)"
    and "dir_rva \<noteq> 0"
  shows "\<exists>p. rva_to_offset pe dir_rva = Ok (Some p) \<and>
    (\<forall>j<length es. describes pe (p + 20 * j) (es ! j)) \<and> last_descriptor pe (p + 20 * length es)"
  using assms import_descriptors_table by (fastforce simp: get_imports_def)

theorem get_imports_correct_witness:
  "\<exists>e. get_imports (sample_pe fwd_KeA) = Ok [e] \<and> describes (sample_pe fwd_KeA) 328 e \<and>
     last_descriptor (sample_pe fwd_KeA) 348"
proof -
  let ?e = "\<lparr>dll_name = lit ''NT'', imp_functions = [\<lparr>imp_name = lit ''#1'', iat_rva = 0x1080\<rparr>]\<rparr>"
  have i: "get_imports (sample_pe fwd_KeA) = Ok [?e]" by (rule sample_imports) simp
  have "get_data_directory (sample_pe fwd_KeA) 1 = Ok (0x1048, 0)" by (simp add: sample_directories)
  from get_imports_correct [OF i this] show ?thesis by (auto simp: i sample_rva)
qed

text \<open>The debug identifier does not identify the image. Only the first eleven of the
  sixteen bytes of the GUID reach it: images whose GUIDs differ in the last five bytes get the same
  identifier.\<close>

theorem guid_str_ignores_tail:
  assumes "take 11 g = take 11 g'" and "length g = 16" and "length g' = 16"
  shows "guid_str g age = guid_str g' age"
proof -
  have "g ! i = g' ! i" if "i < 11" for i using assms(1) that by (metis nth_take)
  then show ?thesis by (auto simp: guid_str_def intro!: arg_cong [where f = concat])
qed

theorem guid_str_ignores_tail_witness:
  "guid_str (replicate 15 7 @ [1]) 1 = guid_str (replicate 15 7 @ [2]) 1 \<and>
   replicate 15 7 @ [1] \<noteq> replicate 15 7 @ [2 :: u8]"
  using guid_str_ignores_tail [of "replicate 15 7 @ [1]" "replicate 15 7 @ [2]" 1] by simp

end
