(* ===== verification/Forwarder.thy ===== *)
theory Forwarder
  imports Pe
begin

text \<open>
  The symbol resolver of \<open>src/forwarder.rs\<close>: it finds a module by the stem of its file name, an
  export by name or ordinal, and follows forwarder strings to other modules, at most ten times. The
  locale \<open>bounded_chain\<close> states what such a bounded search does over any one-step lookup: it returns
  what a chain of few enough steps reaches, and nothing on a cycle.
\<close>

section \<open>Loaded modules\<close>

record loaded_module =
  mod_name :: rstring
  v_base :: u64
  p_base :: u64
  mod_entry :: u64
  mod_size :: u32
  mod_pe :: pe_file

section \<open>The resolver\<close>

text \<open>The search over the modules: the stem of every module's name is unwrapped until one matches.\<close>

fun find_module :: "unicode \<Rightarrow> rstring \<Rightarrow> loaded_module list \<Rightarrow> loaded_module option res" where
  "find_module U target_stem [] = Ok None"
| "find_module U target_stem (m # ms) =
     (case file_stem (mod_name m) of
        None \<Rightarrow> Panic
      | Some m_stem \<Rightarrow>
          if to_uppercase U m_stem = target_stem then Ok (Some m) else find_module U target_stem ms)"

definition find_export :: "export_entry list \<Rightarrow> rstring \<Rightarrow> export_entry option" where
  "find_export exports func_name =
     (if func_name \<noteq> [] \<and> hd func_name = 35
      then (case parse_u16 (tl func_name) of
              Some ord \<Rightarrow> find (\<lambda>e. exp_ordinal e = ord) exports
            | None \<Rightarrow> None)
      else find (\<lambda>e. exp_name e = func_name) exports)"

function resolve_recursive ::
  "unicode \<Rightarrow> loaded_module list \<Rightarrow> rstring \<Rightarrow> rstring \<Rightarrow> nat \<Rightarrow> u64 option res" where
  "resolve_recursive U ms dll func depth =
     (if depth > 10 then Ok None
      else
      case file_stem dll of
        None \<Rightarrow> Ok None
      | Some stem \<Rightarrow>
          bind_r (find_module U (to_uppercase U stem) ms) (\<lambda>found.
          case found of
            None \<Rightarrow> Ok None
          | Some m \<Rightarrow>
              (case get_exports (mod_pe m) of
                 Panic \<Rightarrow> Panic
               | Err e \<Rightarrow> Ok None
               | Ok exports \<Rightarrow>
                   (case find_export exports func of
                      None \<Rightarrow> Ok None
                    | Some e \<Rightarrow>
                        (case exp_forwarder e of
                           Some fwd_str \<Rightarrow>
                             (case split_once 46 fwd_str of
                                Some (fwd_dll, fwd_func) \<Rightarrow>
                                  resolve_recursive U ms fwd_dll fwd_func (depth + 1)
                              | None \<Rightarrow> Ok None)
                         | None \<Rightarrow>
                             bind_r (add_chk (v_base m) (ucast (exp_rva e))) (\<lambda>a. Ok (Some a)))))))"
  by pat_completeness auto
termination
  by (relation "measure (\<lambda>(U, ms, d, f, depth). 11 - depth)") auto

declare resolve_recursive.simps [simp del]

definition resolve :: "unicode \<Rightarrow> loaded_module list \<Rightarrow> rstring \<Rightarrow> rstring \<Rightarrow> u64 option res" where
  "resolve U ms dll func = resolve_recursive U ms dll func 0"

section \<open>One step of resolution\<close>

text \<open>What one module says of a symbol: nothing, an address, or another symbol.\<close>

datatype 's outcome = Undefined | Address u64 | Forward 's

type_synonym symbol = "rstring \<times> rstring"

definition symbol_step :: "unicode \<Rightarrow> loaded_module list \<Rightarrow> symbol \<Rightarrow> symbol outcome res" where
  "symbol_step U ms s =
     (case file_stem (fst s) of
        None \<Rightarrow> Ok Undefined
      | Some stem \<Rightarrow>
          bind_r (find_module U (to_uppercase U stem) ms) (\<lambda>found.
          case found of
            None \<Rightarrow> Ok Undefined
          | Some m \<Rightarrow>
              (case get_exports (mod_pe m) of
                 Panic \<Rightarrow> Panic
               | Err e \<Rightarrow> Ok Undefined
               | Ok exports \<Rightarrow>
                   (case find_export exports (snd s) of
                      None \<Rightarrow> Ok Undefined
                    | Some e \<Rightarrow>
                        (case exp_forwarder e of
                           Some fwd \<Rightarrow>
                             (case split_once 46 fwd of None \<Rightarrow> Ok Undefined | Some t \<Rightarrow> Ok (Forward t))
                         | None \<Rightarrow>
                             bind_r (add_chk (v_base m) (ucast (exp_rva e))) (\<lambda>a. Ok (Address a)))))))"

text \<open>The chain a symbol starts: \<open>n\<close> forwards, then an address.\<close>

inductive chain :: "('s \<Rightarrow> 's outcome res) \<Rightarrow> nat \<Rightarrow> 's \<Rightarrow> u64 \<Rightarrow> bool" for step where
  here: "step s = Ok (Address a) \<Longrightarrow> chain step 0 s a"
| hop: "step s = Ok (Forward t) \<Longrightarrow> chain step n t a \<Longrightarrow> chain step (Suc n) s a"

inductive_cases chain_0 [elim!]: "chain step 0 s a"
inductive_cases chain_Suc [elim!]: "chain step (Suc n) s a"

text \<open>The symbol reached after \<open>n\<close> forwards.\<close>

inductive hops :: "('s \<Rightarrow> 's outcome res) \<Rightarrow> nat \<Rightarrow> 's \<Rightarrow> 's \<Rightarrow> bool" for step where
  none: "hops step 0 s s"
| more: "step s = Ok (Forward t) \<Longrightarrow> hops step n t u \<Longrightarrow> hops step (Suc n) s u"

inductive_simps hops_0 [simp]: "hops step 0 s u"
inductive_simps hops_Suc [simp]: "hops step (Suc n) s u"

lemma hops_add: "hops step (n + k) s u \<longleftrightarrow> (\<exists>t. hops step n s t \<and> hops step k t u)"
  by (induction n arbitrary: s) auto

lemma hops_cycle: "hops step k s s \<Longrightarrow> hops step (j * k) s s"
  by (induction j) (auto simp: hops_add)

section \<open>Bounded chains\<close>

locale bounded_chain =
  fixes step :: "'s \<Rightarrow> 's outcome res"
    and run :: "nat \<Rightarrow> 's \<Rightarrow> u64 option res"
    and limit :: nat
  assumes run_0: "run 0 s = Ok None"
    and run_Suc: "n < limit \<Longrightarrow> run (Suc n) s =
      bind_r (step s) (\<lambda>o'. case o' of Undefined \<Rightarrow> Ok None | Address a \<Rightarrow> Ok (Some a) | Forward t \<Rightarrow> run n t)"
begin

lemma run_Suc_Some:
  assumes "n < limit"
  shows "run (Suc n) s = Ok (Some a) \<longleftrightarrow>
      step s = Ok (Address a) \<or> (\<exists>t. step s = Ok (Forward t) \<and> run n t = Ok (Some a))"
proof (cases "step s")
  case (Ok x)
  then show ?thesis using assms by (cases x) (simp_all add: run_Suc)
qed (use assms in \<open>simp_all add: run_Suc\<close>)

lemma run_chain: "n \<le> limit \<Longrightarrow> run n s = Ok (Some a) \<longleftrightarrow> (\<exists>k<n. chain step k s a)"
proof (induction n arbitrary: s)
  case (Suc n)
  have "chain step 0 s a \<longleftrightarrow> step s = Ok (Address a)" by (auto intro: chain.here)
  moreover have "chain step (Suc k) s a \<longleftrightarrow> (\<exists>t. step s = Ok (Forward t) \<and> chain step k t a)" for k
    by (auto intro: chain.hop)
  ultimately have "(\<exists>k<Suc n. chain step k s a) \<longleftrightarrow>
      step s = Ok (Address a) \<or> (\<exists>t. step s = Ok (Forward t) \<and> (\<exists>k<n. chain step k t a))"
    unfolding less_Suc_eq_0_disj by metis
  then show ?case using Suc by (simp add: run_Suc_Some)
qed (simp add: run_0)

lemma run_hops: "n \<le> limit \<Longrightarrow> hops step n s t \<Longrightarrow> run n s = Ok None"
  by (induction n arbitrary: s) (auto simp: run_0 run_Suc)

lemma run_cycle:
  assumes "hops step k s s" and "0 < k" and "n \<le> limit"
  shows "run n s = Ok None"
proof -
  have "n \<le> n * k" using assms(2) by simp
  moreover have "hops step (n * k) s s" by (rule hops_cycle [OF assms(1)])
  ultimately obtain t where "hops step n s t" by (metis hops_add le_Suc_ex)
  with assms(3) show ?thesis by (rule run_hops)
qed

lemma run_not_Err: "(\<And>s e. step s \<noteq> Err e) \<Longrightarrow> n \<le> limit \<Longrightarrow> run n s \<noteq> Err e"
  by (induction n arbitrary: s) (auto simp: run_0 run_Suc bind_r_eq_Err split: outcome.splits)

end

text \<open>The resolver is a bounded chain of eleven lookups over the modules.\<close>

definition resolver_run :: "unicode \<Rightarrow> loaded_module list \<Rightarrow> nat \<Rightarrow> symbol \<Rightarrow> u64 option res" where
  "resolver_run U ms n s = resolve_recursive U ms (fst s) (snd s) (11 - n)"

lemma resolve_step:
  assumes "depth \<le> 10"
  shows "resolve_recursive U ms dll func depth =
    bind_r (symbol_step U ms (dll, func)) (\<lambda>o'. case o' of Undefined \<Rightarrow> Ok None
      | Address a \<Rightarrow> Ok (Some a) | Forward t \<Rightarrow> resolve_recursive U ms (fst t) (snd t) (depth + 1))"
  using assms
  by (subst resolve_recursive.simps)
    (auto simp: symbol_step_def bind_r_assoc intro!: bind_r_cong split: option.splits res.splits)

interpretation resolver: bounded_chain "symbol_step U ms" "resolver_run U ms" 11
proof unfold_locales
  fix s :: symbol and n :: nat
  show "resolver_run U ms 0 s = Ok None"
    by (simp add: resolver_run_def resolve_recursive.simps)
  assume "n < 11"
  then have "11 - n = Suc (11 - Suc n)" "11 - Suc n \<le> 10" by simp_all
  then show "resolver_run U ms (Suc n) s = bind_r (symbol_step U ms s) (\<lambda>o'. case o' of
      Undefined \<Rightarrow> Ok None | Address a \<Rightarrow> Ok (Some a) | Forward t \<Rightarrow> resolver_run U ms n t)"
    by (simp add: resolver_run_def resolve_step del: diff_Suc_eq_diff_pred cong: outcome.case_cong)
qed

lemma resolve_run: "resolve U ms dll func = resolver_run U ms 11 (dll, func)"
  by (simp add: resolve_def resolver_run_def)

lemma find_module_not_Err: "find_module U st ms \<noteq> Err e"
  by (induction U st ms rule: find_module.induct) (auto split: option.splits)

lemma symbol_step_not_Err: "symbol_step U ms s \<noteq> Err e"
  by (auto simp: symbol_step_def bind_r_eq_Err find_module_not_Err split: option.splits res.splits)

section \<open>Concrete modules\<close>

definition no_unicode :: unicode where
  "no_unicode = \<lparr>upper_uni = id, lower_uni = id\<rparr>"

definition nt_module :: "u8 list \<Rightarrow> loaded_module" where
  "nt_module fwd = \<lparr>mod_name = lit ''nt.exe'', v_base = 0xFFFFF80000000000, p_base = 0x200000,
     mod_entry = 0xFFFFF80000001090, mod_size = 0x10A0, mod_pe = sample_pe fwd\<rparr>"

lemma nt_stem: "find_module no_unicode (lit ''NT'') [nt_module fwd] = Ok (Some (nt_module fwd))"
  by (simp add: nt_module_def lit_def file_stem_def file_name_def stem_of_def to_uppercase_def is_ascii_def)

lemma lit_stem: "file_stem (lit ''NT'') = Some (lit ''NT'')" "to_uppercase no_unicode (lit ''NT'') = lit ''NT''"
  by (simp_all add: lit_def file_stem_def file_name_def stem_of_def to_uppercase_def is_ascii_def)

section \<open>Properties\<close>

text \<open>Property C4: the resolver returns an address exactly when following the symbol from module to
  module, at most ten forwards long, ends at a function that is not forwarded, and the address is
  that function's: the base of its module plus its relative address. It never returns an error.\<close>

theorem resolve_follows_chain:
  "(\<forall>a. resolve U ms dll func = Ok (Some a) \<longleftrightarrow> (\<exists>n. n \<le> 10 \<and> chain (symbol_step U ms) n (dll, func) a)) \<and>
   (\<forall>e. resolve U ms dll func \<noteq> Err e)"
  using resolver.run_chain [of 11 U ms "(dll, func)"]
    resolver.run_not_Err [of U ms 11 "(dll, func)", OF symbol_step_not_Err]
  by (auto simp: resolve_run less_Suc_eq_le numeral_eq_Suc)

text \<open>Forwarders that lead back to where they started do not hang the resolver: it
  reports the symbol as not found.\<close>

theorem resolve_cycle:
  assumes "hops (symbol_step U ms) k (dll, func) (dll, func)" and "0 < k"
  shows "resolve U ms dll func = Ok None"
  using resolver.run_cycle [OF assms, of 11] by (simp add: resolve_run)

theorem resolve_cycle_witness:
  "resolve no_unicode [nt_module fwd_loop] (lit ''NT'') (lit ''#2'') = Ok None"
proof (rule resolve_cycle)
  have ex: "get_exports (mod_pe (nt_module fwd_loop)) = Ok
    [\<lparr>exp_name = lit ''KeA'', exp_rva = 0x1090, exp_ordinal = 1, exp_forwarder = None\<rparr>,
     \<lparr>exp_name = lit ''#2'', exp_rva = 0x103C, exp_ordinal = 2,
      exp_forwarder = Some (from_utf8_lossy (takeWhile (\<lambda>b. b \<noteq> 0) fwd_loop))\<rparr>]"
    using sample_exports [of fwd_loop] by (simp add: nt_module_def fwd_loop_def)
  have fw: "from_utf8_lossy (takeWhile (\<lambda>b. b \<noteq> 0) fwd_loop) = lit ''NT.#2''"
    by (simp add: fwd_loop_def from_utf8_lossy_ascii lit_def)
  have "find_export [\<lparr>exp_name = lit ''KeA'', exp_rva = 0x1090, exp_ordinal = 1, exp_forwarder = None\<rparr>,
     \<lparr>exp_name = lit ''#2'', exp_rva = 0x103C, exp_ordinal = 2, exp_forwarder = Some (lit ''NT.#2'')\<rparr>]
     (lit ''#2'') = Some \<lparr>exp_name = lit ''#2'', exp_rva = 0x103C, exp_ordinal = 2,
       exp_forwarder = Some (lit ''NT.#2'')\<rparr>"
    by (simp add: find_export_def lit_def parse_u16_def)
  moreover have "split_once 46 (lit ''NT.#2'') = Some (lit ''NT'', lit ''#2'')" by (simp add: lit_def)
  ultimately show "hops (symbol_step no_unicode [nt_module fwd_loop]) 1 (lit ''NT'', lit ''#2'') (lit ''NT'', lit ''#2'')"
    by (simp add: symbol_step_def lit_stem nt_stem ex fw del: find_module.simps)
qed simp

end
