(* ===== verification/Vm.thy ===== *)
theory Vm
  imports Prelude
begin

unbundle bit_operations_syntax

text \<open>
  The virtual machine of \<open>src/vm.rs\<close>: the guest memory behind \<open>mem_ptr\<close>, the construction of the
  machine by a fixed sequence of KVM requests, and \<open>write_memory\<close> / \<open>read_memory\<close>, through which
  every other component reaches the guest. KVM itself is a parameter: an \<open>ioctl\<close> function on the
  state of the KVM handles. The locale \<open>byte_store\<close> states the contract of the two memory
  operations; its lemmas on 64-bit cells and on rings of list entries serve the components that
  build tables and lists in guest memory.
\<close>

section \<open>Constants and state\<close>

definition MEM_SIZE :: nat where
  "MEM_SIZE = 8 * 1024 * 1024 * 1024"

definition MMIO_HOLE_START :: u64 where
  "MMIO_HOLE_START = 0xC0000000"

definition MMIO_HOLE_SIZE :: u64 where
  "MMIO_HOLE_SIZE = 0x40000000"

lemma MEM_SIZE_eq: "MEM_SIZE = 8589934592"
  by (simp add: MEM_SIZE_def)

text \<open>The state of the handles \<open>kvm\<close>, \<open>vm_fd\<close> and \<open>vcpu_fd\<close> is of a type of its own; \<open>mem_ptr\<close> stands
  for the bytes the pointer gives access to.\<close>

record 'k vm =
  kvm_fd :: 'k
  mem_ptr :: "nat \<Rightarrow> u8"
  mem_size :: nat

section \<open>Requests to KVM\<close>

record kvm_userspace_memory_region =
  slot :: u32
  guest_phys_addr :: u64
  memory_size :: u64
  userspace_addr :: u64
  region_flags :: u32

record kvm_irq_routing_entry =
  gsi :: u32
  irqchip :: u32
  pin :: u32

datatype kvm_request =
    CreateVm
  | SetUserMemoryRegion kvm_userspace_memory_region
  | SetTssAddress u64
  | SetIdentityMapAddress u64
  | CreateIrqChip
  | CreatePit2
  | SetGsiRouting "kvm_irq_routing_entry list"
  | CreateVcpu nat
  | SetTscKhz u32
  | SetGuestDebug u32

text \<open>The two memory slots: the low 3 GB, and the rest of the block from 4 GB on, at the host address
  \<open>high\<close>, the sum \<open>mem_ptr as u64 + MMIO_HOLE_START\<close>.\<close>

definition mem_region_low :: "u64 \<Rightarrow> kvm_userspace_memory_region" where
  "mem_region_low mem =
     \<lparr>slot = 0, guest_phys_addr = 0, memory_size = MMIO_HOLE_START, userspace_addr = mem, region_flags = 0\<rparr>"

definition mem_region_high :: "u64 \<Rightarrow> kvm_userspace_memory_region" where
  "mem_region_high high =
     \<lparr>slot = 1, guest_phys_addr = 0x100000000, memory_size = of_nat MEM_SIZE - MMIO_HOLE_START,
      userspace_addr = high, region_flags = 0\<rparr>"

text \<open>The interrupt routing built in the loop over the 24 global interrupts.\<close>

definition io_entry :: "nat \<Rightarrow> kvm_irq_routing_entry" where
  "io_entry i = \<lparr>gsi = of_nat i, irqchip = 2, pin = (if i = 0 then 2 else of_nat i)\<rparr>"

definition pic_entry :: "nat \<Rightarrow> kvm_irq_routing_entry" where
  "pic_entry i = \<lparr>gsi = of_nat i, irqchip = (if i < 8 then 0 else 1), pin = of_nat (i mod 8)\<rparr>"

definition gsi_routing :: "kvm_irq_routing_entry list" where
  "gsi_routing = concat (map (\<lambda>i. io_entry i # (if i < 16 then [pic_entry i] else [])) [0..<24])"

text \<open>\<open>Vm::new\<close>. The parameter \<open>ioctl\<close> is KVM, \<open>k\<close> the handle of an opened \<open>/dev/kvm\<close> (or the error
  of opening it), \<open>addr\<close> the address \<open>mmap\<close> returned; an anonymous mapping reads as zero. The
  debug flags \<open>KVM_GUESTDBG_ENABLE\<close> and \<open>KVM_GUESTDBG_USE_SW_BP\<close> come in as \<open>dbg\<close>. Errors of
  \<open>set_tsc_khz\<close> are dropped.\<close>

definition Vm_new :: "(kvm_request \<Rightarrow> 'k \<Rightarrow> 'k res) \<Rightarrow> u32 \<Rightarrow> 'k res \<Rightarrow> u64 \<Rightarrow> 'k vm res" where
  "Vm_new ioctl dbg opened addr =
     bind_r opened (\<lambda>k.
     bind_r (ioctl CreateVm k) (\<lambda>k.
     if addr = 0 then Err ''Failed to mmap memory''
     else
     bind_r (add_chk addr MMIO_HOLE_START) (\<lambda>high.
     bind_r (ioctl (SetUserMemoryRegion (mem_region_low addr)) k) (\<lambda>k.
     bind_r (ioctl (SetUserMemoryRegion (mem_region_high high)) k) (\<lambda>k.
     bind_r (ioctl (SetTssAddress 0xfffbd000) k) (\<lambda>k.
     bind_r (ioctl (SetIdentityMapAddress 0xfffbc000) k) (\<lambda>k.
     bind_r (ioctl CreateIrqChip k) (\<lambda>k.
     bind_r (ioctl CreatePit2 k) (\<lambda>k.
     bind_r (ioctl (SetGsiRouting gsi_routing) k) (\<lambda>k.
     bind_r (ioctl (CreateVcpu 0) k) (\<lambda>k.
     bind_r (ok_or_keep k (ioctl (SetTscKhz 3600000) k)) (\<lambda>k.
     bind_r (ioctl (SetGuestDebug dbg) k) (\<lambda>k.
     Ok \<lparr>kvm_fd = k, mem_ptr = (\<lambda>_. 0), mem_size = MEM_SIZE\<rparr>)))))))))))))"

section \<open>Memory access\<close>

text \<open>\<open>ptr::copy_nonoverlapping\<close> into and out of the block.\<close>

definition store :: "(nat \<Rightarrow> u8) \<Rightarrow> nat \<Rightarrow> u8 list \<Rightarrow> nat \<Rightarrow> u8" where
  "store m off data a = (if off \<le> a \<and> a < off + length data then data ! (a - off) else m a)"

definition load :: "(nat \<Rightarrow> u8) \<Rightarrow> nat \<Rightarrow> nat \<Rightarrow> u8 list" where
  "load m off n = map m [off..<off + n]"

definition write_memory :: "'k vm \<Rightarrow> u64 \<Rightarrow> u8 list \<Rightarrow> 'k vm res" where
  "write_memory vm offset data =
     (if unat offset + length data \<ge> 2 ^ 64 then Panic
      else if unat offset + length data > MEM_SIZE then Err ''Memory write out of bounds''
      else Ok (vm\<lparr>mem_ptr := store (mem_ptr vm) (unat offset) data\<rparr>))"

definition read_memory :: "'k vm \<Rightarrow> u64 \<Rightarrow> nat \<Rightarrow> u8 list res" where
  "read_memory vm offset n =
     (if unat offset + n \<ge> 2 ^ 64 then Panic
      else if unat offset + n > MEM_SIZE then Err ''Memory read out of bounds''
      else Ok (load (mem_ptr vm) (unat offset) n))"

subsection \<open>Loads over stores\<close>

named_theorems mem_simps \<open>loads over stores\<close>

lemma length_load [simp]: "length (load m off n) = n"
  by (simp add: load_def)

lemma nth_load: "i < n \<Longrightarrow> load m off n ! i = m (off + i)"
  by (simp add: load_def)

lemma load_cong: "(\<And>a. off \<le> a \<Longrightarrow> a < off + n \<Longrightarrow> m a = m' a) \<Longrightarrow> load m off n = load m' off n"
  by (simp add: load_def)

lemma load_store_same [simp, mem_simps]: "load (store m off d) off (length d) = d"
  by (rule nth_equalityI) (auto simp: nth_load store_def)

lemma load_store_same_n: "length d = n \<Longrightarrow> load (store m off d) off n = d"
  by auto

lemma load_store_other [mem_simps]:
  "b + n \<le> off \<or> off + length d \<le> b \<Longrightarrow> load (store m off d) b n = load m b n"
  by (rule load_cong) (auto simp: store_def)

lemma load_store_inside:
  assumes "off \<le> b" and "b + n \<le> off + length d"
  shows "load (store m off d) b n = take n (drop (b - off) d)"
  using assms by (intro nth_equalityI) (auto simp: nth_load store_def)

lemma load_append: "load m off (n + k) = load m off n @ load m (off + n) k"
  by (rule nth_equalityI) (auto simp: nth_load nth_append)

lemma store_append: "store m off (d @ e) = store (store m off d) (off + length d) e"
  by (auto simp: store_def nth_append fun_eq_iff)

lemma store_load_id: "store m off (load m off n) = m"
  by (auto simp: store_def nth_load fun_eq_iff)

lemma store_commute:
  "off + length d \<le> off' \<or> off' + length d' \<le> off \<Longrightarrow>
   store (store m off d) off' d' = store (store m off' d') off d"
  by (auto simp: store_def fun_eq_iff)

lemma store_store_same: "length d = length d' \<Longrightarrow> store (store m off d) off d' = store m off d'"
  by (auto simp: store_def fun_eq_iff)

text \<open>The 64-bit cell at an address.\<close>

definition q64 :: "(nat \<Rightarrow> u8) \<Rightarrow> nat \<Rightarrow> u64" where
  "q64 m a = from_le (load m a 8)"

lemma q64_store_same [mem_simps]: "q64 (store m a (le64 v)) a = v"
  using load_store_same [of m a "le64 v"] by (simp add: q64_def)

lemma q64_store_other [mem_simps]:
  "b + 8 \<le> off \<or> off + length d \<le> b \<Longrightarrow> q64 (store m off d) b = q64 m b"
  by (simp add: q64_def load_store_other)

subsection \<open>The two operations on every branch\<close>

lemma write_memory_ok:
  "unat off + length d \<le> MEM_SIZE \<Longrightarrow>
   write_memory vm off d = Ok (vm\<lparr>mem_ptr := store (mem_ptr vm) (unat off) d\<rparr>)"
  by (simp add: write_memory_def MEM_SIZE_def)

lemma write_memory_Ok_iff:
  "write_memory vm off d = Ok vm' \<longleftrightarrow>
   unat off + length d \<le> MEM_SIZE \<and> vm' = vm\<lparr>mem_ptr := store (mem_ptr vm) (unat off) d\<rparr>"
  by (auto simp: write_memory_def MEM_SIZE_def)

lemma read_memory_ok:
  "unat off + n \<le> MEM_SIZE \<Longrightarrow> read_memory vm off n = Ok (load (mem_ptr vm) (unat off) n)"
  by (simp add: read_memory_def MEM_SIZE_def)

lemma read_memory_Ok_iff:
  "read_memory vm off n = Ok d \<longleftrightarrow> unat off + n \<le> MEM_SIZE \<and> d = load (mem_ptr vm) (unat off) n"
  by (auto simp: read_memory_def MEM_SIZE_def)

lemma q64_read: "read_memory vm a 8 = Ok (le64 v) \<Longrightarrow> q64 (mem_ptr vm) (unat a) = v"
proof -
  assume "read_memory vm a 8 = Ok (le64 v)"
  then have "load (mem_ptr vm) (unat a) 8 = le64 v" by (simp add: read_memory_Ok_iff)
  then show ?thesis by (simp add: q64_def)
qed

lemma write_memory_err:
  "MEM_SIZE < unat off + length d \<Longrightarrow> unat off + length d < 2 ^ 64 \<Longrightarrow>
   write_memory vm off d = Err ''Memory write out of bounds''"
  by (simp add: write_memory_def)

lemma write_memory_no_panic: "unat off + length d < 2 ^ 64 \<Longrightarrow> write_memory vm off d \<noteq> Panic"
  by (simp add: write_memory_def)

lemma read_memory_no_panic: "unat off + n < 2 ^ 64 \<Longrightarrow> read_memory vm off n \<noteq> Panic"
  by (simp add: read_memory_def)

lemma write_memory_frame:
  "write_memory vm off d = Ok vm' \<Longrightarrow> kvm_fd vm' = kvm_fd vm \<and> mem_size vm' = mem_size vm"
  by (auto simp: write_memory_Ok_iff)

section \<open>The contract of a byte store\<close>

text \<open>Two writes are separate when their byte ranges do not meet.\<close>

fun separate :: "u64 \<times> u8 list \<Rightarrow> u64 \<times> u8 list \<Rightarrow> bool" where
  "separate (a, d) (b, e) \<longleftrightarrow> unat a + length d \<le> unat b \<or> unat b + length e \<le> unat a"

lemma separate_sym: "separate x y \<Longrightarrow> separate y x"
  by (cases x; cases y) auto

locale byte_store =
  fixes rd :: "'s \<Rightarrow> u64 \<Rightarrow> nat \<Rightarrow> u8 list res"
    and wr :: "'s \<Rightarrow> u64 \<Rightarrow> u8 list \<Rightarrow> 's res"
    and limit :: nat
  assumes wr_in_bounds: "unat a + length d \<le> limit \<Longrightarrow> \<exists>s'. wr s a d = Ok s'"
    and wr_bound: "wr s a d = Ok s' \<Longrightarrow> unat a + length d \<le> limit"
    and rd_wr_same: "wr s a d = Ok s' \<Longrightarrow> rd s' a (length d) = Ok d"
    and rd_wr_other: "\<lbrakk>wr s a d = Ok s'; unat b + n \<le> unat a \<or> unat a + length d \<le> unat b\<rbrakk> \<Longrightarrow>
          rd s' b n = rd s b n"
begin

text \<open>A batch of writes, in order, the first error leaving the batch.\<close>

lemma batch_other:
  "\<lbrakk>for_r (\<lambda>(a, d) s. wr s a d) ws s = Ok s';
    \<And>a d. (a, d) \<in> set ws \<Longrightarrow> unat b + n \<le> unat a \<or> unat a + length d \<le> unat b\<rbrakk> \<Longrightarrow>
   rd s' b n = rd s b n"
proof (induction ws arbitrary: s)
  case (Cons w ws)
  obtain a d where w: "w = (a, d)" by force
  with Cons.prems(1) obtain t where t: "wr s a d = Ok t" "for_r (\<lambda>(a, d) s. wr s a d) ws t = Ok s'"
    by auto
  have "rd s' b n = rd t b n" using Cons.IH [OF t(2)] Cons.prems(2) by simp
  also have "\<dots> = rd s b n" using rd_wr_other [OF t(1)] Cons.prems(2) w by simp
  finally show ?case .
qed simp

lemma batch_reads_back:
  "\<lbrakk>for_r (\<lambda>(a, d) s. wr s a d) ws s = Ok s'; sorted_wrt separate ws; (a, d) \<in> set ws\<rbrakk> \<Longrightarrow>
   rd s' a (length d) = Ok d"
proof (induction ws arbitrary: s)
  case (Cons w ws)
  obtain b e where w: "w = (b, e)" by force
  with Cons.prems(1) obtain t where t: "wr s b e = Ok t" "for_r (\<lambda>(a, d) s. wr s a d) ws t = Ok s'"
    by auto
  show ?case
  proof (cases "(a, d) \<in> set ws")
    case True
    then show ?thesis using Cons.IH [OF t(2)] Cons.prems(2) by simp
  next
    case False
    then have ad: "a = b" "d = e" using Cons.prems(3) w by auto
    have "rd s' b (length e) = rd t b (length e)"
      using Cons.prems(2) w by (intro batch_other [OF t(2)]) auto
    then show ?thesis using rd_wr_same [OF t(1)] ad by simp
  qed
qed simp

lemma batch_in_bounds:
  "(\<And>a d. (a, d) \<in> set ws \<Longrightarrow> unat a + length d \<le> limit) \<Longrightarrow>
   \<exists>s'. for_r (\<lambda>(a, d) s. wr s a d) ws s = Ok s'"
proof (induction ws arbitrary: s)
  case (Cons w ws)
  obtain a d where w: "w = (a, d)" by force
  with Cons.prems obtain t where "wr s a d = Ok t" using wr_in_bounds [of a d s] by auto
  moreover obtain s' where "for_r (\<lambda>(a, d) s. wr s a d) ws t = Ok s'"
    using Cons.IH [of t] Cons.prems by auto
  ultimately show ?case using w by auto
qed simp

lemma overwrite: "\<lbrakk>wr s a d = Ok t; wr t a e = Ok u\<rbrakk> \<Longrightarrow> rd u a (length e) = Ok e"
  by (rule rd_wr_same)

end

text \<open>The guest memory of the machine meets the contract.\<close>

interpretation guest: byte_store read_memory write_memory MEM_SIZE
proof unfold_locales
  fix vm vm' :: "'k vm" and a b :: u64 and d :: "u8 list" and n :: nat
  show "\<exists>vm'. write_memory vm a d = Ok vm'" if "unat a + length d \<le> MEM_SIZE"
    using that by (simp add: write_memory_ok)
  assume w: "write_memory vm a d = Ok vm'"
  then show "unat a + length d \<le> MEM_SIZE" by (simp add: write_memory_Ok_iff)
  show "read_memory vm' a (length d) = Ok d"
    using w by (auto simp: write_memory_Ok_iff read_memory_ok)
  show "read_memory vm' b n = read_memory vm b n"
    if "unat b + n \<le> unat a \<or> unat a + length d \<le> unat b"
    using w that by (auto simp: write_memory_Ok_iff read_memory_def load_store_other)
qed

section \<open>Guest-physical addresses\<close>

text \<open>KVM serves a guest-physical address out of the slot whose range holds it: the host address is
  the slot's \<open>userspace_addr\<close> plus the distance from the slot's start.\<close>

definition slot_host :: "kvm_userspace_memory_region \<Rightarrow> u64 \<Rightarrow> u64 option" where
  "slot_host r gpa =
     (if guest_phys_addr r \<le> gpa \<and> unat gpa < unat (guest_phys_addr r) + unat (memory_size r)
      then Some (userspace_addr r + (gpa - guest_phys_addr r)) else None)"

text \<open>The offset into the block at \<open>mem_ptr\<close> that the guest reaches at \<open>gpa\<close>.\<close>

definition guest_offset :: "u64 \<Rightarrow> u64 option" where
  "guest_offset gpa =
     (case slot_host (mem_region_low 0) gpa of
        Some h \<Rightarrow> Some h
      | None \<Rightarrow> slot_host (mem_region_high MMIO_HOLE_START) gpa)"

lemmas slot_defs = slot_host_def mem_region_low_def mem_region_high_def MMIO_HOLE_START_def MEM_SIZE_def

lemma guest_offset_eq:
  "guest_offset gpa =
     (if unat gpa < 0xC0000000 then Some gpa
      else if 0x100000000 \<le> unat gpa \<and> unat gpa < 0x240000000 then Some (gpa - 0x40000000) else None)"
  by (auto simp: guest_offset_def slot_defs word_le_nat_alt)

lemma lt24: "g < (24::nat) \<longleftrightarrow> g \<in> set [0..<24]" and lt16: "g < (16::nat) \<longleftrightarrow> g \<in> set [0..<16]"
  by simp_all

lemma upt_24: "[0..<24] = [0,1,2,3,4,5,6,7,8,9,10,11,12,13,14,15,16,17,18,19,20,21,22,23::nat]"
  and upt_16: "[0..<16] = [0,1,2,3,4,5,6,7,8,9,10,11,12,13,14,15::nat]"
  by (simp_all add: upt_conv_Cons)

lemma guest_offset_low:
  assumes "unat off < 0xC0000000"
  shows "\<exists>!gpa. guest_offset gpa = Some off"
proof (rule ex1I [of _ off])
  show "guest_offset off = Some off" using assms by (simp add: guest_offset_eq)
  fix gpa assume "guest_offset gpa = Some off"
  then show "gpa = off"
    using assms by (auto simp: guest_offset_eq unat_sub_if_size word_size split: if_splits)
qed

lemma guest_offset_high:
  assumes "0xC0000000 \<le> unat off" and "unat off < 0x200000000"
  shows "\<exists>!gpa. guest_offset gpa = Some off"
proof (rule ex1I [of _ "off + 0x40000000"])
  have "unat (off + 0x40000000) = unat off + 0x40000000" using assms by (simp add: unat_word_ariths)
  then show "guest_offset (off + 0x40000000) = Some off" using assms by (simp add: guest_offset_eq)
  fix gpa assume "guest_offset gpa = Some off"
  then show "gpa = off + 0x40000000" using assms by (auto simp: guest_offset_eq split: if_splits)
qed

section \<open>Properties\<close>

text \<open>Property C21: a write that succeeds is read back byte for byte, leaves every byte outside its
  range as it was, and does not touch the KVM handles.\<close>

theorem write_memory_correct:
  assumes "write_memory vm off d = Ok vm'"
  shows "read_memory vm' off (length d) = Ok d \<and>
    (\<forall>b n. unat b + n \<le> unat off \<or> unat off + length d \<le> unat b \<longrightarrow>
       read_memory vm' b n = read_memory vm b n) \<and>
    kvm_fd vm' = kvm_fd vm"
  using guest.rd_wr_same [OF assms] guest.rd_wr_other [OF assms] write_memory_frame [OF assms] by auto

theorem write_memory_correct_witness:
  "\<exists>vm'. write_memory \<lparr>kvm_fd = (), mem_ptr = (\<lambda>_. 0), mem_size = MEM_SIZE\<rparr> 0x9000000 [1, 2] = Ok vm' \<and>
     read_memory vm' 0x9000000 2 = Ok [1, 2] \<and> read_memory vm' 0x9000002 2 = Ok [0, 0]"
proof -
  let ?vm = "\<lparr>kvm_fd = (), mem_ptr = (\<lambda>_. 0), mem_size = MEM_SIZE\<rparr>"
  obtain vm' where w: "write_memory ?vm 0x9000000 [1, 2] = Ok vm'"
    by (simp add: write_memory_def MEM_SIZE_def)
  have "read_memory ?vm 0x9000002 2 = Ok [0, 0]"
    by (simp add: read_memory_def MEM_SIZE_def load_def upt_conv_Cons)
  moreover have "read_memory vm' 0x9000002 2 = read_memory ?vm 0x9000002 2"
    by (rule write_memory_correct [OF w, THEN conjunct2, THEN conjunct1, rule_format]) simp
  moreover have "read_memory vm' 0x9000000 (length [1, 2 :: u8]) = Ok [1, 2]"
    by (rule write_memory_correct [OF w, THEN conjunct1])
  ultimately show ?thesis using w by (simp add: numeral_2_eq_2)
qed

text \<open>The two memory slots cover the block exactly once (every byte offset below
  \<open>MEM_SIZE\<close> is the image of one guest-physical address), leave the MMIO hole between 3 GB and 4 GB
  unbacked, and below 3 GB the guest-physical address is the offset that \<open>write_memory\<close> uses.\<close>

theorem memory_slots_partition:
  "(\<forall>off. unat off < MEM_SIZE \<longrightarrow> (\<exists>!gpa. guest_offset gpa = Some off)) \<and>
   (\<forall>gpa. unat gpa < unat MMIO_HOLE_START \<longrightarrow> guest_offset gpa = Some gpa) \<and>
   (\<forall>gpa. MMIO_HOLE_START \<le> gpa \<and> unat gpa < unat MMIO_HOLE_START + unat MMIO_HOLE_SIZE \<longrightarrow>
      guest_offset gpa = None)"
proof (intro conjI)
  show "\<forall>off. unat off < MEM_SIZE \<longrightarrow> (\<exists>!gpa. guest_offset gpa = Some off)"
  proof (intro allI impI)
    fix off :: u64 assume "unat off < MEM_SIZE"
    then show "\<exists>!gpa. guest_offset gpa = Some off"
      by (cases "unat off < 0xC0000000") (simp_all add: guest_offset_low guest_offset_high MEM_SIZE_eq)
  qed
qed (auto simp: guest_offset_eq MMIO_HOLE_START_def MMIO_HOLE_SIZE_def word_le_nat_alt)

theorem memory_slots_partition_witness:
  "(\<exists>!gpa. guest_offset gpa = Some 0x100000000) \<and> guest_offset 0x8000000 = Some 0x8000000 \<and>
   guest_offset 0xFEE00000 = None"
  using memory_slots_partition
  by (auto simp: MEM_SIZE_def MMIO_HOLE_START_def MMIO_HOLE_SIZE_def word_le_nat_alt)

text \<open>The interrupt routing table gives each of the 24 global interrupts exactly one
  I/O-APIC pin, the timer interrupt 0 the pin 2 that the ACPI override announces, and each of the
  first 16 also exactly one PIC input.\<close>

theorem gsi_routing_correct:
  "length gsi_routing = 40 \<and>
   (\<forall>g. g < 24 \<longrightarrow> filter (\<lambda>e. gsi e = of_nat g \<and> irqchip e = 2) gsi_routing = [io_entry g]) \<and>
   (\<forall>g. g < 16 \<longrightarrow> filter (\<lambda>e. gsi e = of_nat g \<and> irqchip e \<noteq> 2) gsi_routing = [pic_entry g]) \<and>
   pin (io_entry 0) = 2"
  unfolding lt24 lt16 upt_24 upt_16 by (simp add: gsi_routing_def upt_24 io_entry_def pic_entry_def)

theorem gsi_routing_correct_witness:
  "filter (\<lambda>e. gsi e = 0 \<and> irqchip e = 2) gsi_routing = [\<lparr>gsi = 0, irqchip = 2, pin = 2\<rparr>] \<and>
   filter (\<lambda>e. gsi e = 9 \<and> irqchip e \<noteq> 2) gsi_routing = [\<lparr>gsi = 9, irqchip = 1, pin = 1\<rparr>]"
  using gsi_routing_correct [THEN conjunct2, THEN conjunct1, THEN spec, of 0]
    gsi_routing_correct [THEN conjunct2, THEN conjunct2, THEN conjunct1, THEN spec, of 9]
  by (simp add: io_entry_def pic_entry_def)

end
