(* ===== verification/Reloc.thy ===== *)
theory Reloc
  imports Pe Vm
begin

unbundle bit_operations_syntax

text \<open>
  \<open>PeFile::apply_relocation\<close> of \<open>src/pe.rs\<close>: the base relocations of a loaded image. The loops
  over blocks and entries are modelled with their early exits; \<open>reloc_targets\<close> lists the addresses
  a relocation section names, and the effect on memory is proved to be one addition per target.
\<close>

section \<open>The loops\<close>

text \<open>One entry: a \<open>DIR64\<close> entry adds \<open>delta\<close> to the pointer at its target, unless that reaches past
  the end of memory.\<close>

definition reloc_entry :: "u64 \<Rightarrow> u64 \<Rightarrow> u32 \<Rightarrow> u16 \<Rightarrow> 'k vm \<Rightarrow> 'k vm res" where
  "reloc_entry p_base delta page_rva entry vm =
     (let reloc_type = drop_bit 12 entry;
          reloc_offset = entry AND 0x0FFF
      in if reloc_type = 10 then
           (let target_rva = ucast page_rva + ucast reloc_offset
            in bind_r (add_chk p_base target_rva) (\<lambda>target_paddr.
               bind_r (add_chk target_paddr 8) (\<lambda>target_end.
               if unat target_end \<le> MEM_SIZE
               then Ok (vm\<lparr>mem_ptr := store (mem_ptr vm) (unat target_paddr)
                              (le64 (q64 (mem_ptr vm) (unat target_paddr) + delta))\<rparr>)
               else Ok vm)))
         else Ok vm)"

fun reloc_entries :: "u8 list \<Rightarrow> u64 \<Rightarrow> u64 \<Rightarrow> u32 \<Rightarrow> nat \<Rightarrow> nat \<Rightarrow> 'k vm \<Rightarrow> 'k vm res" where
  "reloc_entries data p_base delta page_rva entry_pos 0 vm = Ok vm"
| "reloc_entries data p_base delta page_rva entry_pos (Suc n) vm =
     (if length data < entry_pos + 2 then Ok vm
      else bind_r (rd_u16 data entry_pos) (\<lambda>entry.
           bind_r (reloc_entry p_base delta page_rva entry vm)
             (reloc_entries data p_base delta page_rva (entry_pos + 2) n)))"

function reloc_blocks :: "u8 list \<Rightarrow> u64 \<Rightarrow> u64 \<Rightarrow> nat \<Rightarrow> 'k vm \<Rightarrow> 'k vm res" where
  "reloc_blocks data p_base delta offset vm =
     (if offset + 8 \<le> length data then
        bind_r (rd_u32 data offset) (\<lambda>page_rva.
        bind_r (rd_u32 data (offset + 4)) (\<lambda>block_size.
        if block_size = 0 then Ok vm
        else bind_r (sub_chk block_size 8) (\<lambda>body.
             bind_r (reloc_entries data p_base delta page_rva (offset + 8) (unat (body div 2)) vm)
               (reloc_blocks data p_base delta (offset + unat block_size)))))
      else Ok vm)"
  by pat_completeness auto
termination
proof (relation "measure (\<lambda>(data, p_base, delta, offset, vm). length data - offset)")
  fix data :: "u8 list" and p d :: u64 and offset :: nat and vm vm' :: "'k vm" and sz body pg :: u32
  assume "offset + 8 \<le> length data" and "sub_chk sz 8 = Ok body"
  then show "((data, p, d, offset + unat sz, vm'), (data, p, d, offset, vm))
    \<in> measure (\<lambda>(data, p_base, delta, offset, vm). length data - offset)"
    by (auto simp: sub_chk_Ok_iff word_le_nat_alt)
qed simp

declare reloc_blocks.simps [simp del]

definition apply_relocation :: "pe_file \<Rightarrow> 'k vm \<Rightarrow> u64 \<Rightarrow> u64 \<Rightarrow> 'k vm res" where
  "apply_relocation pe vm p_base v_new =
     (let delta = v_new - image_base pe
      in if delta = 0 then Ok vm
         else bind_r (ok_or ''Relocation failed: No .reloc section''
                (find (\<lambda>s. sec_name s = lit ''.reloc'') (sections pe))) (\<lambda>reloc_section.
              reloc_blocks (raw_data reloc_section) p_base delta 0 vm))"

section \<open>The targets of a relocation section\<close>

fun entry_targets :: "u8 list \<Rightarrow> u32 \<Rightarrow> nat \<Rightarrow> nat \<Rightarrow> nat list" where
  "entry_targets data page_rva entry_pos 0 = []"
| "entry_targets data page_rva entry_pos (Suc n) =
     (if length data < entry_pos + 2 then []
      else let entry = (from_le (take 2 (drop entry_pos data)) :: u16)
           in (if drop_bit 12 entry = 10 then [unat page_rva + unat (entry AND 0x0FFF)] else []) @
              entry_targets data page_rva (entry_pos + 2) n)"

function block_targets :: "u8 list \<Rightarrow> nat \<Rightarrow> nat list" where
  "block_targets data offset =
     (if offset + 8 \<le> length data then
        (let page_rva = from_le (take 4 (drop offset data)) :: u32;
             block_size = from_le (take 4 (drop (offset + 4) data)) :: u32
         in if block_size < 8 then []
            else entry_targets data page_rva (offset + 8) (unat ((block_size - 8) div 2)) @
                 block_targets data (offset + unat block_size))
      else [])"
  by pat_completeness auto
termination
  by (relation "measure (\<lambda>(data, offset). length data - offset)") (auto simp: word_less_nat_alt)

declare block_targets.simps [simp del]

text \<open>No block announces a size from 1 to 7 bytes, less than its own header.\<close>

function blocks_ok :: "u8 list \<Rightarrow> nat \<Rightarrow> bool" where
  "blocks_ok data offset \<longleftrightarrow>
     (if offset + 8 \<le> length data then
        (let block_size = from_le (take 4 (drop (offset + 4) data)) :: u32
         in if block_size = 0 then True
            else if block_size < 8 then False
            else blocks_ok data (offset + unat block_size))
      else True)"
  by pat_completeness auto
termination
  by (relation "measure (\<lambda>(data, offset). length data - offset)") (auto simp: word_less_nat_alt)

declare blocks_ok.simps [simp del]

definition reloc_targets :: "pe_file \<Rightarrow> nat list" where
  "reloc_targets pe =
     (case find (\<lambda>s. sec_name s = lit ''.reloc'') (sections pe) of
        None \<Rightarrow> []
      | Some s \<Rightarrow> block_targets (raw_data s) 0)"

text \<open>The addition at one target.\<close>

definition patch :: "u64 \<Rightarrow> nat \<Rightarrow> (nat \<Rightarrow> u8) \<Rightarrow> nat \<Rightarrow> u8" where
  "patch delta a m = (if a + 8 \<le> MEM_SIZE then store m a (le64 (q64 m a + delta)) else m)"

lemma reloc_target_unat:
  "unat (ucast (page_rva :: u32) + ucast (off :: u16) :: u64) = unat page_rva + unat off"
proof -
  have "unat page_rva < 4294967296" "unat off < 65536" by simp_all
  then have "unat page_rva + unat off < 18446744073709551616" by linarith
  then show ?thesis by (subst unat_plus_lt) (simp_all add: unat_ucast_up)
qed

lemma reloc_entry_patch:
  assumes "reloc_entry p_base delta page_rva entry vm = Ok vm'"
  shows "vm' = vm\<lparr>mem_ptr := (if drop_bit 12 entry = 10
    then patch delta (unat p_base + (unat page_rva + unat (entry AND 0x0FFF))) (mem_ptr vm) else mem_ptr vm)\<rparr>"
proof (cases "drop_bit 12 entry = 10")
  case True
  show ?thesis
    using assms True
    by (auto simp: reloc_entry_def Let_def patch_def reloc_target_unat dest!: add_chk_unat split: if_splits)
next
  case False
  then show ?thesis using assms by (simp add: reloc_entry_def)
qed

lemma reloc_entries_patch:
  "reloc_entries data p_base delta page_rva pos n vm = Ok vm' \<Longrightarrow>
   vm' = vm\<lparr>mem_ptr := fold (\<lambda>t. patch delta (unat p_base + t)) (entry_targets data page_rva pos n) (mem_ptr vm)\<rparr>"
proof (induction data p_base delta page_rva pos n vm rule: reloc_entries.induct)
  case (2 data p_base delta page_rva pos n vm)
  show ?case
  proof (cases "length data < pos + 2")
    case True
    then show ?thesis using "2.prems" by simp
  next
    case False
    let ?e = "from_le (take 2 (drop pos data)) :: u16"
    have rd: "rd_u16 data pos = Ok ?e" using False by (simp add: rd_ok)
    with "2.prems" False obtain vm1 where
      one: "reloc_entry p_base delta page_rva ?e vm = Ok vm1" and
      rest: "reloc_entries data p_base delta page_rva (pos + 2) n vm1 = Ok vm'" by auto
    show ?thesis
      using "2.IH" [OF False rd one rest] reloc_entry_patch [OF one] False by (simp add: Let_def)
  qed
qed simp

lemma reloc_blocks_patch:
  "reloc_blocks data p_base delta offset vm = Ok vm' \<Longrightarrow>
   vm' = vm\<lparr>mem_ptr := fold (\<lambda>t. patch delta (unat p_base + t)) (block_targets data offset) (mem_ptr vm)\<rparr>"
proof (induction data p_base delta offset vm rule: reloc_blocks.induct)
  case (1 data p_base delta offset vm)
  show ?case
  proof (cases "offset + 8 \<le> length data")
    case False
    then show ?thesis using "1.prems" by (simp add: reloc_blocks.simps block_targets.simps)
  next
    case True
    let ?pg = "from_le (take 4 (drop offset data)) :: u32"
    let ?sz = "from_le (take 4 (drop (offset + 4) data)) :: u32"
    have rd: "rd_u32 data offset = Ok ?pg" "rd_u32 data (offset + 4) = Ok ?sz"
      using True by (simp_all add: rd_ok)
    show ?thesis
    proof (cases "?sz = 0")
      case True
      then show ?thesis
        using "1.prems" rd \<open>offset + 8 \<le> length data\<close>
        by (simp add: reloc_blocks.simps [of data] block_targets.simps [of data])
    next
      case False
      with "1.prems" rd True obtain vm1 where
        sz: "sub_chk ?sz 8 = Ok (?sz - 8)" and
        one: "reloc_entries data p_base delta ?pg (offset + 8) (unat ((?sz - 8) div 2)) vm = Ok vm1" and
        rest: "reloc_blocks data p_base delta (offset + unat ?sz) vm1 = Ok vm'"
        by (auto simp: reloc_blocks.simps [of data p_base delta offset vm] sub_chk_Ok_iff)
      have "\<not> ?sz < 8" using sz by (simp add: sub_chk_Ok_iff)
      then show ?thesis
        using "1.IH" [OF True rd False sz one rest] reloc_entries_patch [OF one] True
        by (simp add: block_targets.simps [of data offset] Let_def)
    qed
  qed
qed

section \<open>Separated targets\<close>

definition separated :: "nat list \<Rightarrow> bool" where
  "separated ts \<longleftrightarrow> sorted_wrt (\<lambda>a b. a + 8 \<le> b \<or> b + 8 \<le> a) ts"

lemma patch_other: "a < t \<or> t + 8 \<le> a \<Longrightarrow> patch d t m a = m a"
  by (auto simp: patch_def store_def)

lemma q64_patch_other: "a + 8 \<le> t \<or> t + 8 \<le> a \<Longrightarrow> q64 (patch d t m) a = q64 m a"
  by (auto simp: patch_def q64_store_other)

lemma q64_patch_same: "t + 8 \<le> MEM_SIZE \<Longrightarrow> q64 (patch d t m) t = q64 m t + d"
  by (simp add: patch_def q64_store_same)

lemma fold_patch_other:
  "(\<And>t. t \<in> set ts \<Longrightarrow> a < p + t \<or> p + t + 8 \<le> a) \<Longrightarrow> fold (\<lambda>t. patch d (p + t)) ts m a = m a"
  by (induction ts arbitrary: m) (auto simp: patch_other)

lemma q64_fold_patch_other:
  "(\<And>t. t \<in> set ts \<Longrightarrow> a + 8 \<le> p + t \<or> p + t + 8 \<le> a) \<Longrightarrow> q64 (fold (\<lambda>t. patch d (p + t)) ts m) a = q64 m a"
  by (induction ts arbitrary: m) (auto simp: q64_patch_other)

lemma q64_fold_patch:
  "separated ts \<Longrightarrow> t \<in> set ts \<Longrightarrow> p + t + 8 \<le> MEM_SIZE \<Longrightarrow>
   q64 (fold (\<lambda>t. patch d (p + t)) ts m) (p + t) = q64 m (p + t) + d"
proof (induction ts arbitrary: m)
  case (Cons u ts)
  have s: "separated ts" "\<And>w. w \<in> set ts \<Longrightarrow> u + 8 \<le> w \<or> w + 8 \<le> u"
    using Cons.prems(1) by (auto simp: separated_def)
  show ?case
  proof (cases "t \<in> set ts")
    case True
    then show ?thesis
      using Cons.IH [OF s(1) True Cons.prems(3)] s(2) [OF True] by (auto simp: q64_patch_other)
  next
    case False
    then have "t = u" using Cons.prems(2) by simp
    then show ?thesis using s(2) Cons.prems(3) by (auto simp: q64_fold_patch_other q64_patch_same)
  qed
qed simp

lemma apply_relocation_patch:
  assumes "apply_relocation pe vm p_base v_new = Ok vm'"
  shows "vm' = vm\<lparr>mem_ptr := if v_new = image_base pe then mem_ptr vm else
    fold (\<lambda>t. patch (v_new - image_base pe) (unat p_base + t)) (reloc_targets pe) (mem_ptr vm)\<rparr>"
  using assms
  by (auto simp: apply_relocation_def reloc_targets_def Let_def dest: reloc_blocks_patch split: if_splits option.splits)

lemma q64_eq_bytes:
  assumes "q64 m a = q64 m' a" and "a \<le> b" and "b < a + 8"
  shows "m b = m' b"
proof -
  have le: "le64 (from_le (load f a 8)) = load f a 8" for f
    using to_le_from_le [of "load f a 8", where ?'a = 64] by simp
  have "load m a 8 = load m' a 8" using assms(1) le unfolding q64_def by metis
  then have "load m a 8 ! (b - a) = load m' a 8 ! (b - a)" by simp
  then show ?thesis using assms(2,3) by (simp add: nth_load)
qed

lemma fold_patch_undo:
  assumes "separated ts" and "\<And>t. t \<in> set ts \<Longrightarrow> p + t + 8 \<le> MEM_SIZE"
  shows "fold (\<lambda>t. patch (- d) (p + t)) ts (fold (\<lambda>t. patch d (p + t)) ts m) = m"
    (is "?undo = m")
proof
  fix a
  show "?undo a = m a"
  proof (cases "\<exists>t\<in>set ts. p + t \<le> a \<and> a < p + t + 8")
    case False
    then have out: "t \<in> set ts \<Longrightarrow> a < p + t \<or> p + t + 8 \<le> a" for t by force
    show ?thesis by (simp add: fold_patch_other [OF out])
  next
    case True
    then obtain t where t: "t \<in> set ts" "p + t \<le> a" "a < p + t + 8" by auto
    have "q64 ?undo (p + t) = q64 m (p + t)"
      using q64_fold_patch [OF assms(1) t(1) assms(2) [OF t(1)]] by simp
    then show ?thesis using t(2,3) by (rule q64_eq_bytes)
  qed
qed

section \<open>Outcomes of the loops\<close>

lemma reloc_entry_Ok_iff:
  "(\<exists>vm'. reloc_entry p_base delta page_rva entry vm = Ok vm') \<longleftrightarrow>
     (drop_bit 12 entry = 10 \<longrightarrow> unat p_base + (unat page_rva + unat (entry AND 0x0FFF)) + 8 < 2 ^ 64)"
proof -
  let ?t = "ucast page_rva + ucast (entry AND 0x0FFF) :: u64"
  have "(\<exists>b. add_chk p_base ?t = Ok b \<and> (\<exists>c. add_chk b 8 = Ok c)) \<longleftrightarrow> unat p_base + unat ?t + 8 < 2 ^ 64"
    by (auto simp: add_chk_Ok_iff unat_plus_lt)
  moreover have "(\<exists>vm'. (if c then Ok x else Ok y) = Ok vm')" for c and x y :: "'a vm" by simp
  ultimately show ?thesis
    unfolding reloc_target_unat by (fastforce simp: reloc_entry_def Let_def)
qed

lemma reloc_entries_Ok_iff:
  "(\<exists>vm'. reloc_entries data p_base delta page_rva pos n vm = Ok vm') \<longleftrightarrow>
     (\<forall>t\<in>set (entry_targets data page_rva pos n). unat p_base + t + 8 < 2 ^ 64)"
proof (induction n arbitrary: pos vm)
  case (Suc n)
  let ?e = "from_le (take 2 (drop pos data)) :: u16"
  show ?case
  proof (cases "length data < pos + 2")
    case False
    then have "(\<exists>vm'. reloc_entries data p_base delta page_rva pos (Suc n) vm = Ok vm') \<longleftrightarrow>
      (\<exists>vm1. reloc_entry p_base delta page_rva ?e vm = Ok vm1) \<and>
      (\<forall>t\<in>set (entry_targets data page_rva (pos + 2) n). unat p_base + t + 8 < 2 ^ 64)"
      using Suc.IH by (auto simp: rd_ok)
    then show ?thesis using False unfolding reloc_entry_Ok_iff by (auto simp: Let_def)
  qed simp
qed simp

lemma reloc_blocks_Ok_iff:
  "(\<exists>vm'. reloc_blocks data p_base delta offset vm = Ok vm') \<longleftrightarrow>
     blocks_ok data offset \<and> (\<forall>t\<in>set (block_targets data offset). unat p_base + t + 8 < 2 ^ 64)"
proof (induction data offset arbitrary: vm rule: blocks_ok.induct)
  case (1 data offset)
  let ?pg = "from_le (take 4 (drop offset data)) :: u32"
  let ?sz = "from_le (take 4 (drop (offset + 4) data)) :: u32"
  show ?case
  proof (cases "offset + 8 \<le> length data \<and> 8 \<le> ?sz")
    case True
    then have sz: "offset + 8 \<le> length data" "8 \<le> ?sz" "?sz \<noteq> 0" "\<not> ?sz < 8" by auto
    note IH = "1.IH" [OF sz(1) refl sz(3,4)]
    have "(\<exists>vm'. reloc_blocks data p_base delta offset vm = Ok vm') \<longleftrightarrow>
      (\<exists>vm1. reloc_entries data p_base delta ?pg (offset + 8) (unat ((?sz - 8) div 2)) vm = Ok vm1 \<and>
        (\<exists>vm'. reloc_blocks data p_base delta (offset + unat ?sz) vm1 = Ok vm'))"
      using sz by (subst reloc_blocks.simps) (auto simp: rd_ok sub_chk_Ok_iff)
    also have "\<dots> \<longleftrightarrow>
      (\<exists>vm1. reloc_entries data p_base delta ?pg (offset + 8) (unat ((?sz - 8) div 2)) vm = Ok vm1) \<and>
      blocks_ok data (offset + unat ?sz) \<and>
      (\<forall>t\<in>set (block_targets data (offset + unat ?sz)). unat p_base + t + 8 < 2 ^ 64)"
      unfolding IH by blast
    finally show ?thesis
      unfolding reloc_entries_Ok_iff blocks_ok.simps [of data offset] block_targets.simps [of data offset]
      using sz by (auto simp: Let_def)
  next
    case False
    then show ?thesis
      by (auto simp: reloc_blocks.simps [of data _ _ offset] blocks_ok.simps [of data offset]
          block_targets.simps [of data offset] rd_ok sub_chk_Ok_iff Let_def)
  qed
qed

lemma reloc_entry_no_Err [simp]: "reloc_entry p_base delta page_rva entry vm \<noteq> Err e"
  by (simp add: reloc_entry_def Let_def bind_r_eq_Err)

lemma reloc_entries_no_Err [simp]: "reloc_entries data p_base delta page_rva pos n vm \<noteq> Err e"
  by (induction data p_base delta page_rva pos n vm rule: reloc_entries.induct) (simp_all add: bind_r_eq_Err)

lemma reloc_blocks_no_Err [simp]: "reloc_blocks data p_base delta offset vm \<noteq> Err e"
proof (induction data p_base delta offset vm rule: reloc_blocks.induct)
  case (1 data p_base delta offset vm)
  then show ?case by (subst reloc_blocks.simps) (simp add: bind_r_eq_Err)
qed

section \<open>An image with one relocation\<close>

definition pe_reloc1 :: pe_file where
  "pe_reloc1 = \<lparr>entry_point = 0x140001000, architecture = ''X86_64'', image_base = 0x140000000,
     sections = [\<lparr>sec_name = lit ''.reloc'', virtual_address = 0x140002000, virtual_size = 12,
       raw_data = [0, 0x10, 0, 0, 12, 0, 0, 0, 0x08, 0xA0, 0, 0]\<rparr>],
     header_data = [], pdb_name = [], pdb_guid_age = [], raw_bytes = []\<rparr>"

definition vm_zero :: "unit vm" where
  "vm_zero = \<lparr>kvm_fd = (), mem_ptr = (\<lambda>_. 0), mem_size = MEM_SIZE\<rparr>"

text \<open>The same image with a second block that announces 4 bytes.\<close>

definition pe_late_block :: pe_file where
  "pe_late_block = pe_reloc1\<lparr>sections := [(hd (sections pe_reloc1))\<lparr>raw_data :=
     [0, 0x10, 0, 0, 12, 0, 0, 0, 0x08, 0xA0, 0, 0, 0, 0x20, 0, 0, 4, 0, 0, 0]\<rparr>]\<rparr>"

lemma pe_reloc1_simps [simp]:
  "image_base pe_reloc1 = 0x140000000"
  "find (\<lambda>s. sec_name s = lit ''.reloc'') (sections pe_reloc1) =
     Some \<lparr>sec_name = lit ''.reloc'', virtual_address = 0x140002000, virtual_size = 12,
       raw_data = [0, 0x10, 0, 0, 12, 0, 0, 0, 0x08, 0xA0, 0, 0]\<rparr>"
  by (simp_all add: pe_reloc1_def)

lemma blocks1:
  "blocks_ok [0, 0x10, 0, 0, 12, 0, 0, 0, 0x08, 0xA0, 0, 0] 0"
  "block_targets [0, 0x10, 0, 0, 12, 0, 0, 0, 0x08, 0xA0, 0, 0] 0 = [0x1008]"
  "\<not> blocks_ok [0, 0x10, 0, 0, 12, 0, 0, 0, 0x08, 0xA0, 0, 0, 0, 0x20, 0, 0, 4, 0, 0, 0] 0"
  by code_simp+

lemma reloc_targets1: "reloc_targets pe_reloc1 = [0x1008]"
  by code_simp

section \<open>Properties\<close>

text \<open>Property C6: a relocation that succeeds adds the load delta to the 64-bit pointer at every
  target its relocation section names (those within memory), and changes no byte outside the
  targets, when no two targets overlap.\<close>

theorem relocation_correct:
  assumes "apply_relocation pe vm p_base v_new = Ok vm'" and "separated (reloc_targets pe)"
  shows "(\<forall>t. t \<in> set (reloc_targets pe) \<and> unat p_base + t + 8 \<le> MEM_SIZE \<longrightarrow>
      q64 (mem_ptr vm') (unat p_base + t) = q64 (mem_ptr vm) (unat p_base + t) + (v_new - image_base pe)) \<and>
    (\<forall>a. (\<forall>t. t \<in> set (reloc_targets pe) \<longrightarrow> a < unat p_base + t \<or> unat p_base + t + 8 \<le> a) \<longrightarrow>
      mem_ptr vm' a = mem_ptr vm a)"
  using apply_relocation_patch [OF assms(1)] q64_fold_patch [OF assms(2)] by (auto simp: fold_patch_other)

lemmas reloc_entries_num =
  reloc_entries.simps(2) [where n = "pred_numeral k" for k, folded numeral_eq_Suc]

lemma apply_relocation1:
  "\<exists>vm'. apply_relocation pe_reloc1 vm_zero 0x200000 0xFFFFF80000200000 = Ok vm'"
  by (simp add: apply_relocation_def Let_def reloc_blocks.simps reloc_entries_num rd_u16_def rd_u32_def
      slice_r_def sub_chk_def reloc_entry_def add_chk_def MEM_SIZE_def)

theorem relocation_correct_witness:
  "\<exists>vm'. apply_relocation pe_reloc1 vm_zero 0x200000 0xFFFFF80000200000 = Ok vm' \<and>
     q64 (mem_ptr vm') 0x201008 = 0xFFFFF7FEC0200000 \<and> mem_ptr vm' 0x201010 = 0"
proof -
  obtain vm' where a: "apply_relocation pe_reloc1 vm_zero 0x200000 0xFFFFF80000200000 = Ok vm'"
    using apply_relocation1 by blast
  have "separated (reloc_targets pe_reloc1)" by (simp add: reloc_targets1 separated_def)
  note r = relocation_correct [OF a this]
  have "q64 (mem_ptr vm_zero) 0x201008 = 0" by (simp add: vm_zero_def q64_def load_def upt_conv_Cons)
  then show ?thesis
    using a r [THEN conjunct1, rule_format, of "0x1008"] r [THEN conjunct2, rule_format, of "0x201010"]
    by (auto simp: reloc_targets1 MEM_SIZE_def vm_zero_def)
qed

text \<open>Property C32: relocating an image to a new base and then back to the base it was linked for
  restores the machine exactly.\<close>

theorem relocation_roundtrip:
  assumes "apply_relocation pe vm p_base v_new = Ok vm1"
    and "apply_relocation (pe\<lparr>image_base := v_new\<rparr>) vm1 p_base (image_base pe) = Ok vm2"
    and "separated (reloc_targets pe)"
    and "\<And>t. t \<in> set (reloc_targets pe) \<Longrightarrow> unat p_base + t + 8 \<le> MEM_SIZE"
  shows "vm2 = vm"
proof -
  have t: "reloc_targets (pe\<lparr>image_base := v_new\<rparr>) = reloc_targets pe" by (simp add: reloc_targets_def)
  have "mem_ptr vm2 = mem_ptr vm" if "v_new \<noteq> image_base pe"
    using that apply_relocation_patch [OF assms(1)] apply_relocation_patch [OF assms(2)]
      fold_patch_undo [OF assms(3,4), of "v_new - image_base pe" "mem_ptr vm"] by (simp add: t)
  moreover have "vm2 = vm\<lparr>mem_ptr := mem_ptr vm2\<rparr>"
    using apply_relocation_patch [OF assms(1)] apply_relocation_patch [OF assms(2)] by simp
  moreover have "mem_ptr vm2 = mem_ptr vm" if "v_new = image_base pe"
    using that apply_relocation_patch [OF assms(1)] apply_relocation_patch [OF assms(2)] by simp
  ultimately show ?thesis by (cases "v_new = image_base pe") simp_all
qed

theorem relocation_roundtrip_witness:
  "\<exists>vm1 vm2. apply_relocation pe_reloc1 vm_zero 0x200000 0xFFFFF80000200000 = Ok vm1 \<and>
     apply_relocation (pe_reloc1\<lparr>image_base := 0xFFFFF80000200000\<rparr>) vm1 0x200000 0x140000000 = Ok vm2 \<and>
     vm2 = vm_zero"
proof -
  obtain vm1 where a: "apply_relocation pe_reloc1 vm_zero 0x200000 0xFFFFF80000200000 = Ok vm1"
    using apply_relocation1 by blast
  obtain vm2 where b:
    "apply_relocation (pe_reloc1\<lparr>image_base := 0xFFFFF80000200000\<rparr>) vm1 0x200000 (image_base pe_reloc1) = Ok vm2"
    using reloc_blocks_Ok_iff [of "[0, 0x10, 0, 0, 12, 0, 0, 0, 0x08, 0xA0, 0, 0]" "0x200000" _ 0 vm1] blocks1
    by (auto simp: apply_relocation_def Let_def)
  have "vm2 = vm_zero"
    using relocation_roundtrip [OF a b] by (simp add: reloc_targets1 separated_def MEM_SIZE_def)
  then show ?thesis using a b by auto
qed

text \<open>Property C31: every outcome of a relocation, for every image, base and machine. It succeeds
  exactly when the base is the one the image was linked for, or there is a relocation section, no
  block the walk reaches announces 1 to 7 bytes, and no target reaches past the end of the 64-bit
  address space; it is an error exactly when the base differs and there is no relocation section;
  and it panics exactly when the base differs, the section exists, and a block anywhere in the walk
  announces 1 to 7 bytes (\<open>block_size - 8\<close> underflows) or the address of a target overflows.\<close>

theorem relocation_outcomes:
  "((\<exists>vm'. apply_relocation pe vm p_base v_new = Ok vm') \<longleftrightarrow>
     v_new = image_base pe \<or>
     (\<exists>s. find (\<lambda>s. sec_name s = lit ''.reloc'') (sections pe) = Some s \<and> blocks_ok (raw_data s) 0 \<and>
        (\<forall>t\<in>set (block_targets (raw_data s) 0). unat p_base + t + 8 < 2 ^ 64))) \<and>
   (\<forall>e. apply_relocation pe vm p_base v_new = Err e \<longleftrightarrow>
     v_new \<noteq> image_base pe \<and> (\<forall>s\<in>set (sections pe). sec_name s \<noteq> lit ''.reloc'') \<and>
     e = ''Relocation failed: No .reloc section'') \<and>
   (apply_relocation pe vm p_base v_new = Panic \<longleftrightarrow>
     v_new \<noteq> image_base pe \<and>
     (\<exists>s. find (\<lambda>s. sec_name s = lit ''.reloc'') (sections pe) = Some s \<and>
        (\<not> blocks_ok (raw_data s) 0 \<or>
         (\<exists>t\<in>set (block_targets (raw_data s) 0). 2 ^ 64 \<le> unat p_base + t + 8))))"
proof (cases "find (\<lambda>s. sec_name s = lit ''.reloc'') (sections pe)")
  case None
  moreover from this have "\<forall>s\<in>set (sections pe). sec_name s \<noteq> lit ''.reloc''" by (auto simp: find_None_iff)
  ultimately show ?thesis by (auto simp: apply_relocation_def Let_def)
next
  case (Some s)
  let ?r = "reloc_blocks (raw_data s) p_base (v_new - image_base pe) 0 vm"
  have e: "apply_relocation pe vm p_base v_new = (if v_new = image_base pe then Ok vm else ?r)"
    using Some by (simp add: apply_relocation_def Let_def)
  have p: "?r = Panic \<longleftrightarrow> \<not> (\<exists>vm'. ?r = Ok vm')" by (cases ?r) auto
  have s: "s \<in> set (sections pe)" "sec_name s = lit ''.reloc''" using Some by (auto simp: find_Some_iff)
  have q: "(\<exists>vm'. apply_relocation pe vm p_base v_new = Ok vm') \<longleftrightarrow> v_new = image_base pe \<or> (\<exists>vm'. ?r = Ok vm')"
    "apply_relocation pe vm p_base v_new = Panic \<longleftrightarrow> v_new \<noteq> image_base pe \<and> \<not> (\<exists>vm'. ?r = Ok vm')"
    "apply_relocation pe vm p_base v_new \<noteq> Err e" for e
    using p by (simp_all add: e)
  show ?thesis unfolding q reloc_blocks_Ok_iff using Some s q(3) by (auto simp: not_less)
qed

theorem relocation_outcomes_witness:
  "apply_relocation (pe_reloc1\<lparr>sections := []\<rparr>) vm_zero 0x200000 0 = Err ''Relocation failed: No .reloc section'' \<and>
   apply_relocation pe_late_block vm_zero 0x200000 0 = Panic \<and>
   apply_relocation pe_reloc1 vm_zero 0xFFFFFFFFFFFFF000 0 = Panic \<and>
   (\<exists>vm'. apply_relocation pe_reloc1 vm_zero 0x200000 0 = Ok vm')"
proof -
  have "apply_relocation (pe_reloc1\<lparr>sections := []\<rparr>) vm_zero 0x200000 0 = Err ''Relocation failed: No .reloc section''"
    using relocation_outcomes [of "pe_reloc1\<lparr>sections := []\<rparr>" vm_zero "0x200000" 0] by simp
  moreover have "apply_relocation pe_late_block vm_zero 0x200000 0 = Panic"
    using relocation_outcomes [of pe_late_block vm_zero "0x200000" 0] blocks1(3)
    by (simp add: pe_late_block_def pe_reloc1_def)
  moreover have "apply_relocation pe_reloc1 vm_zero 0xFFFFFFFFFFFFF000 0 = Panic"
    using relocation_outcomes [of pe_reloc1 vm_zero "0xFFFFFFFFFFFFF000" 0] blocks1(1,2) by simp
  moreover have "\<exists>vm'. apply_relocation pe_reloc1 vm_zero 0x200000 0 = Ok vm'"
    using relocation_outcomes [of pe_reloc1 vm_zero "0x200000" 0] blocks1(1,2) by simp
  ultimately show ?thesis by blast
qed

end
