(* ===== verification/Loader.thy ===== *)
theory Loader
  imports Forwarder Reloc "HOL-Library.List_Lexorder"
begin

unbundle bit_operations_syntax

text \<open>
  The module loader of \<open>src/loader.rs\<close>: it places the kernel, the HAL and the two debugger modules at
  fixed addresses, every other driver of the directory at the next free ones, copies the sections to
  guest memory, relocates them, and binds the import address tables. The file system is a parameter:
  what a read of a path returns and what a directory lists. The Rust code holds the modules in
  \<open>KernelLoader\<close>; here they are passed along with the machine and the two address cursors.
\<close>

section \<open>The file system\<close>

record dir_entry =
  de_name :: "u8 list"
  de_is_file :: bool

record filesystem =
  fs_read :: "rstring \<Rightarrow> u8 list res"
  fs_read_dir :: "rstring \<Rightarrow> dir_entry res list res"

text \<open>\<open>OsStr::to_str\<close>: the name, when its bytes are UTF-8.\<close>

definition utf8_bytes :: "nat \<Rightarrow> u8 list" where
  "utf8_bytes c =
     (if c < 0x80 then [of_nat c]
      else if c < 0x800 then [of_nat (0xC0 + c div 64), of_nat (0x80 + c mod 64)]
      else if c < 0x10000
           then [of_nat (0xE0 + c div 4096), of_nat (0x80 + c div 64 mod 64), of_nat (0x80 + c mod 64)]
      else [of_nat (0xF0 + c div 262144), of_nat (0x80 + c div 4096 mod 64),
            of_nat (0x80 + c div 64 mod 64), of_nat (0x80 + c mod 64)])"

definition to_str :: "u8 list \<Rightarrow> rstring option" where
  "to_str bs = (let s = from_utf8_lossy bs in if concat (map utf8_bytes s) = bs then Some s else None)"

section \<open>Copying an image\<close>

definition section_rva :: "pe_file \<Rightarrow> pe_section \<Rightarrow> u64" where
  "section_rva pe s = virtual_address s - image_base pe"

definition load_sections :: "'k vm \<Rightarrow> pe_file \<Rightarrow> u64 \<Rightarrow> u64 \<Rightarrow> (u64 \<times> 'k vm) res" where
  "load_sections vm pe load_pbase load_vbase =
     bind_r (if header_data pe \<noteq> [] then write_memory vm load_pbase (header_data pe) else Ok vm) (\<lambda>vm.
     bind_r (for_r (\<lambda>s vm. bind_r (add_chk load_pbase (section_rva pe s)) (\<lambda>phys_dest.
               write_memory vm phys_dest (raw_data s))) (sections pe) vm) (\<lambda>vm.
     bind_r (ok_or_keep vm (apply_relocation pe vm load_pbase load_vbase)) (\<lambda>vm.
     let entry_rva = entry_point pe - image_base pe
     in bind_r (add_chk load_vbase entry_rva) (\<lambda>entry. Ok (entry, vm)))))"

section \<open>Placing a module\<close>

text \<open>The end of a section relative to the image base, and the size of an image: the largest end as
  32 bits, \<open>0x10000\<close> for an image with no sections.\<close>

definition section_end :: "pe_file \<Rightarrow> pe_section \<Rightarrow> u64 res" where
  "section_end pe s = bind_r (add_chk (virtual_address s) (virtual_size s)) (\<lambda>e. sub_chk e (image_base pe))"

fun section_ends :: "pe_file \<Rightarrow> pe_section list \<Rightarrow> u64 list res" where
  "section_ends pe [] = Ok []"
| "section_ends pe (s # ss) =
     bind_r (section_end pe s) (\<lambda>e. bind_r (section_ends pe ss) (\<lambda>es. Ok (e # es)))"

definition image_size :: "pe_file \<Rightarrow> u32 res" where
  "image_size pe =
     bind_r (section_ends pe (sections pe)) (\<lambda>es.
     Ok (ucast (if es = [] then 0x10000 else fold max es (hd es))))"

definition align_2mb :: "u32 \<Rightarrow> u64" where
  "align_2mb sz = (ucast sz + 0x1FFFFF) AND NOT 0x1FFFFF"

definition full_path :: "rstring \<Rightarrow> rstring \<Rightarrow> rstring" where
  "full_path dir name = dir @ [47] @ name"

record 'k loading =
  ld_vm :: "'k vm"
  ld_modules :: "loaded_module list"
  p_cursor :: u64
  v_cursor :: u64

definition load_file_fixed ::
  "(u8 list \<Rightarrow> parsed option) \<Rightarrow> filesystem \<Rightarrow> rstring \<Rightarrow> rstring \<Rightarrow> u64 \<Rightarrow> 'k loading \<Rightarrow> 'k loading res" where
  "load_file_fixed obj fs dir name vb st =
     bind_r (fs_read fs (full_path dir name)) (\<lambda>buf.
     bind_r (parse obj buf) (\<lambda>pe.
     bind_r (image_size pe) (\<lambda>sz.
     let pb = p_cursor st
     in bind_r (add_chk pb (align_2mb sz)) (\<lambda>next.
     let next = (if name = lit ''ntoskrnl.exe'' then 0x2000000 else next)
     in bind_r (load_sections (ld_vm st) pe pb vb) (\<lambda>(entry, vm).
     Ok (st\<lparr>ld_vm := vm, p_cursor := next,
            ld_modules := ld_modules st @
              [\<lparr>mod_name = name, v_base = vb, p_base = pb, mod_entry = entry, mod_size = sz, mod_pe = pe\<rparr>]\<rparr>))))))"

definition load_file_dynamic ::
  "(u8 list \<Rightarrow> parsed option) \<Rightarrow> filesystem \<Rightarrow> rstring \<Rightarrow> rstring \<Rightarrow> 'k loading \<Rightarrow> 'k loading res" where
  "load_file_dynamic obj fs dir name st =
     bind_r (fs_read fs (full_path dir name)) (\<lambda>buf.
     bind_r (parse obj buf) (\<lambda>pe.
     bind_r (image_size pe) (\<lambda>sz.
     let pb = p_cursor st; vb = v_cursor st
     in bind_r (add_chk pb (align_2mb sz)) (\<lambda>p_next.
        bind_r (add_chk vb (align_2mb sz)) (\<lambda>v_next.
        bind_r (load_sections (ld_vm st) pe pb vb) (\<lambda>(entry, vm).
        Ok (st\<lparr>ld_vm := vm, p_cursor := p_next, v_cursor := v_next,
               ld_modules := ld_modules st @
                 [\<lparr>mod_name = name, v_base = vb, p_base = pb, mod_entry = entry, mod_size = sz, mod_pe = pe\<rparr>]\<rparr>)))))))"

section \<open>Loading a directory\<close>

definition essentials :: "u64 \<Rightarrow> (rstring \<times> u64) list" where
  "essentials k_vbase =
     [(lit ''ntoskrnl.exe'', k_vbase), (lit ''hal.dll'', 0xFFFFF80002000000),
      (lit ''kd.dll'', 0xFFFFF80000600000), (lit ''kdcom.dll'', 0xFFFFF80000800000)]"

definition skip_name :: "unicode \<Rightarrow> rstring \<Rightarrow> bool" where
  "skip_name U fname =
     (let lname = to_lowercase U fname
      in lname \<in> set (map fst (essentials 0)) \<or> lname = lit ''config'' \<or>
         (\<not> suffix (lit ''.dll'') lname \<and> \<not> suffix (lit ''.sys'') lname \<and> \<not> suffix (lit ''.exe'') lname))"

text \<open>The entries of a directory are unwrapped, then sorted by path; the paths share the directory, so
  the bytes of the file names decide.\<close>

fun unwrap_all :: "'a res list \<Rightarrow> 'a list res" where
  "unwrap_all [] = Ok []"
| "unwrap_all (r # rs) = bind_r (expect_r r) (\<lambda>x. bind_r (unwrap_all rs) (\<lambda>xs. Ok (x # xs)))"

definition load_driver ::
  "unicode \<Rightarrow> (u8 list \<Rightarrow> parsed option) \<Rightarrow> filesystem \<Rightarrow> rstring \<Rightarrow> dir_entry \<Rightarrow> 'k loading \<Rightarrow> 'k loading res" where
  "load_driver U obj fs dir path st =
     (if de_is_file path then
        (case to_str (de_name path) of
           None \<Rightarrow> Ok st
         | Some fname \<Rightarrow> if skip_name U fname then Ok st else load_file_dynamic obj fs dir fname st)
      else Ok st)"

definition load_directory ::
  "unicode \<Rightarrow> (u8 list \<Rightarrow> parsed option) \<Rightarrow> filesystem \<Rightarrow> 'k vm \<Rightarrow> rstring \<Rightarrow> u64 \<Rightarrow> u64 \<Rightarrow> loaded_module list \<Rightarrow>
   (loaded_module list \<times> 'k vm) res" where
  "load_directory U obj fs vm dir k_pbase k_vbase ms =
     bind_r (for_r (\<lambda>(name, fixed_v). load_file_fixed obj fs dir name fixed_v) (essentials k_vbase)
               \<lparr>ld_vm = vm, ld_modules = ms, p_cursor = k_pbase, v_cursor = 0xFFFFF80040000000\<rparr>) (\<lambda>st.
     bind_r (fs_read_dir fs dir) (\<lambda>entries.
     bind_r (unwrap_all entries) (\<lambda>paths.
     bind_r (for_r (load_driver U obj fs dir) (sort_key (\<lambda>e. map unat (de_name e)) paths) st) (\<lambda>st.
     Ok (ld_modules st, ld_vm st)))))"

section \<open>Binding the imports\<close>

definition bind_function ::
  "unicode \<Rightarrow> loaded_module list \<Rightarrow> loaded_module \<Rightarrow> rstring \<Rightarrow> import_function \<Rightarrow> 'k vm \<Rightarrow> 'k vm res" where
  "bind_function U ms m dll func vm =
     bind_r (resolve U ms dll (imp_name func)) (\<lambda>r.
     case r of
       None \<Rightarrow> Ok vm
     | Some addr \<Rightarrow>
         bind_r (add_chk (p_base m) (ucast (iat_rva func))) (\<lambda>iat_paddr.
         write_memory vm iat_paddr (le64 addr)))"

definition bind_module :: "unicode \<Rightarrow> loaded_module list \<Rightarrow> loaded_module \<Rightarrow> 'k vm \<Rightarrow> 'k vm res" where
  "bind_module U ms m vm =
     bind_r (get_imports (mod_pe m)) (\<lambda>imports.
     for_r (\<lambda>imp. for_r (bind_function U ms m (dll_name imp)) (imp_functions imp)) imports vm)"

definition bind_all :: "unicode \<Rightarrow> loaded_module list \<Rightarrow> 'k vm \<Rightarrow> 'k vm res" where
  "bind_all U ms vm = for_r (bind_module U ms) ms vm"

section \<open>What a load writes\<close>

text \<open>The writes of an image: its headers, then its sections.\<close>

definition image_writes :: "pe_file \<Rightarrow> u64 \<Rightarrow> (u64 \<times> u8 list) list" where
  "image_writes pe pb =
     (if header_data pe \<noteq> [] then [(pb, header_data pe)] else []) @
     map (\<lambda>s. (pb + section_rva pe s, raw_data s)) (sections pe)"

lemma for_sections_writes:
  "for_r (\<lambda>s vm. bind_r (add_chk pb (section_rva pe s)) (\<lambda>d. write_memory vm d (raw_data s))) ss vm = Ok vm' \<Longrightarrow>
   for_r (\<lambda>(a, d) vm. write_memory vm a d) (map (\<lambda>s. (pb + section_rva pe s, raw_data s)) ss) vm = Ok vm'"
  by (induction ss arbitrary: vm) (auto simp: add_chk_Ok_iff)

text \<open>The bytes a relocation may change.\<close>

definition reloc_hits :: "pe_file \<Rightarrow> u64 \<Rightarrow> u64 \<Rightarrow> nat \<Rightarrow> bool" where
  "reloc_hits pe pb vb a \<longleftrightarrow>
     vb \<noteq> image_base pe \<and> (\<exists>t\<in>set (reloc_targets pe). unat pb + t \<le> a \<and> a < unat pb + t + 8)"

lemma load_sections_steps:
  assumes "load_sections vm pe pb vb = Ok (entry, vm')"
  obtains vm1 where "for_r (\<lambda>(a, d) vm. write_memory vm a d) (image_writes pe pb) vm = Ok vm1"
    and "\<And>a. \<not> reloc_hits pe pb vb a \<Longrightarrow> mem_ptr vm' a = mem_ptr vm1 a"
    and "entry = vb + (entry_point pe - image_base pe)"
proof -
  from assms obtain vm0 vm1 where
    h: "(if header_data pe \<noteq> [] then write_memory vm pb (header_data pe) else Ok vm) = Ok vm0"
    and s: "for_r (\<lambda>s vm. bind_r (add_chk pb (section_rva pe s)) (\<lambda>d. write_memory vm d (raw_data s)))
      (sections pe) vm0 = Ok vm1"
    and r: "ok_or_keep vm1 (apply_relocation pe vm1 pb vb) = Ok vm'"
    and e: "entry = vb + (entry_point pe - image_base pe)"
    by (auto simp: load_sections_def Let_def add_chk_Ok_iff)
  have "for_r (\<lambda>(a, d) vm. write_memory vm a d) (image_writes pe pb) vm = Ok vm1"
    using h for_sections_writes [OF s] by (auto simp: image_writes_def for_r_append)
  moreover have "mem_ptr vm' a = mem_ptr vm1 a" if "\<not> reloc_hits pe pb vb a" for a
  proof (cases "apply_relocation pe vm1 pb vb")
    case (Ok v)
    then have "v = vm'" using r by simp
    moreover have "fold (\<lambda>t. patch (vb - image_base pe) (unat pb + t)) (reloc_targets pe) (mem_ptr vm1) a = mem_ptr vm1 a"
      if "vb \<noteq> image_base pe"
      using \<open>\<not> reloc_hits pe pb vb a\<close> that unfolding reloc_hits_def by (intro fold_patch_other) (meson not_less)
    ultimately show ?thesis
      using apply_relocation_patch [OF Ok] by (cases "vb = image_base pe") auto
  qed (use r in auto)
  ultimately show ?thesis using e that by blast
qed

lemma batch_frame:
  "for_r (\<lambda>(a, d) vm. write_memory vm a d) ws vm = Ok vm' \<Longrightarrow>
   (\<And>a d. (a, d) \<in> set ws \<Longrightarrow> b < unat a \<or> unat a + length d \<le> b) \<Longrightarrow> mem_ptr vm' b = mem_ptr vm b"
proof (induction ws arbitrary: vm)
  case (Cons w ws)
  obtain a d where w: "w = (a, d)" by force
  with Cons.prems(1) obtain t where t: "write_memory vm a d = Ok t"
    "for_r (\<lambda>(a, d) vm. write_memory vm a d) ws t = Ok vm'" by auto
  have "mem_ptr vm' b = mem_ptr t b" using Cons.IH [OF t(2)] Cons.prems(2) by simp
  also have "\<dots> = mem_ptr vm b" using t(1) Cons.prems(2) [of a d] w by (auto simp: write_memory_Ok_iff store_def)
  finally show ?case .
qed simp

section \<open>Sizes and cursors\<close>

lemma unat_align_2mb: "unat (align_2mb sz) = (unat sz + 0x1FFFFF) div 0x200000 * 0x200000"
proof -
  let ?w = "ucast sz + 0x1FFFFF :: u64"
  have "unat sz < 4294967296" by simp
  then have "unat sz + 0x1FFFFF < 18446744073709551616" by linarith
  then have w: "unat ?w = unat sz + 0x1FFFFF" by (subst unat_plus_lt) (simp_all add: unat_ucast_up)
  have "align_2mb sz = ?w AND NOT (mask 21)" by (simp add: align_2mb_def mask_eq_exp_minus_1)
  then show ?thesis using w by (simp add: unat_and_not_mask)
qed

lemma align_2mb_bounds: "unat sz \<le> unat (align_2mb sz)" "0x200000 dvd unat (align_2mb sz)"
proof -
  have "n \<le> (n + 0x1FFFFF) div 0x200000 * 0x200000" for n :: nat
    using div_mult_mod_eq [of "n + 0x1FFFFF" "0x200000"] mod_less_divisor [of "0x200000" "n + 0x1FFFFF"]
    by linarith
  then show "unat sz \<le> unat (align_2mb sz)" by (simp add: unat_align_2mb)
qed (simp add: unat_align_2mb)

text \<open>The images that the layout is stated for: as the object library documents of a PE file, the sections lie above
  the image base and the data of a section is no longer than its virtual size; and they end within 32 bits of it,
  the width to which \<open>image_size\<close> truncates.\<close>

definition image_fits :: "pe_file \<Rightarrow> bool" where
  "image_fits pe \<longleftrightarrow> (\<forall>s\<in>set (sections pe).
     image_base pe \<le> virtual_address s \<and>
     unat (virtual_address s) - unat (image_base pe) + unat (virtual_size s) < 2 ^ 32 \<and>
     length (raw_data s) \<le> unat (virtual_size s))"

lemma fold_max_ge: "x \<le> fold max es (x :: 'a::linorder) \<and> (\<forall>e\<in>set es. e \<le> fold max es x)"
proof (induction es arbitrary: x)
  case (Cons e es)
  show ?case using Cons.IH [of "max e x"] by simp
qed simp

lemma fold_max_mem: "fold max es (x :: 'a::linorder) \<in> insert x (set es)"
  by (induction es arbitrary: x) (auto simp: max_def split: if_splits)

lemma section_ends_set:
  "section_ends pe ss = Ok es \<Longrightarrow> map (section_end pe) ss = map Ok es"
  by (induction ss arbitrary: es) auto

text \<open>The size of an image reaches the end of each of its sections.\<close>

lemma image_size_covers:
  assumes "image_size pe = Ok sz" and "image_fits pe" and "s \<in> set (sections pe)"
  shows "unat (section_rva pe s) + unat (virtual_size s) \<le> unat sz"
proof -
  from assms(1) obtain es where es: "section_ends pe (sections pe) = Ok es"
    and sz: "sz = ucast (if es = [] then 0x10000 else fold max es (hd es))" by (auto simp: image_size_def)
  note m = section_ends_set [OF es]
  have fit: "e \<in> set es \<Longrightarrow> unat e < 2 ^ 32" for e
  proof -
    assume "e \<in> set es"
    then have "Ok e \<in> set (map (section_end pe) (sections pe))" unfolding m by simp
    then obtain t where "t \<in> set (sections pe)" "section_end pe t = Ok e" by auto
    then show ?thesis using assms(2)
      by (auto simp: section_end_def image_fits_def word_le_nat_alt dest!: add_chk_unat sub_chk_unat)
  qed
  have "section_end pe s \<in> set (map Ok es)" using assms(3) unfolding m [symmetric] by simp
  then obtain e where e: "e \<in> set es" "section_end pe s = Ok e" by auto
  have le: "image_base pe \<le> virtual_address s" using assms(2,3) by (simp add: image_fits_def)
  then have "unat (section_rva pe s) + unat (virtual_size s) = unat e"
    using e(2) by (auto simp: section_end_def section_rva_def unat_sub word_le_nat_alt dest!: add_chk_unat sub_chk_unat)
  moreover have "e \<le> fold max es (hd es)" using fold_max_ge [of "hd es" es] e(1) by blast
  moreover have "unat (fold max es (hd es)) < 2 ^ 32"
    using fold_max_mem [of es "hd es"] e(1) fit by (cases es) auto
  moreover from this have "unat (ucast (fold max es (hd es)) :: u32) = unat (fold max es (hd es))"
    by (simp add: unsigned_ucast_eq take_bit_nat_eq_self)
  ultimately show ?thesis using e(1) sz by (auto simp: word_le_nat_alt)
qed

lemma extract_sections_size: "extract_sections ss = Ok ps \<Longrightarrow> s \<in> set ps \<Longrightarrow> 0 < virtual_size s"
  by (induction ss arbitrary: ps) (auto split: option.splits if_splits)

lemma parse_shape:
  assumes "parse obj buf = Ok pe"
  shows "length (header_data pe) \<le> 4096" "s \<in> set (sections pe) \<Longrightarrow> 0 < virtual_size s"
proof -
  from assms obtain p where p: "from_bytes obj buf = Ok p" "sections pe = sections p" "length (header_data pe) \<le> 4096"
    by (auto simp: parse_def Let_def slice_r_def split: if_splits)
  show "length (header_data pe) \<le> 4096" by (rule p(3))
  show "s \<in> set (sections pe) \<Longrightarrow> 0 < virtual_size s"
    using p(1,2) extract_sections_size by (auto simp: from_bytes_def Let_def split: option.splits prod.splits)
qed

lemma align_2mb_pos: "0 < sz \<Longrightarrow> 0x200000 \<le> unat (align_2mb sz)"
  using align_2mb_bounds [of sz] by (auto simp: word_less_nat_alt intro: dvd_imp_le)

text \<open>An image lies between its base and the end of the room the loader makes for it.\<close>

lemma image_in_room:
  assumes "parse obj buf = Ok pe" and "image_size pe = Ok sz" and "image_fits pe"
    and "unat pb + unat (align_2mb sz) < 2 ^ 64" and "(a, d) \<in> set (image_writes pe pb)"
  shows "unat pb \<le> unat a \<and> unat a + length d \<le> unat pb + unat (align_2mb sz)"
proof -
  have "0 < sz"
  proof (cases "sections pe")
    case (Cons s ss)
    then have "0 < unat (virtual_size s)" using parse_shape(2) [OF assms(1), of s] by (simp add: word_less_nat_alt)
    then show ?thesis using image_size_covers [OF assms(2,3), of s] Cons by (simp add: word_less_nat_alt)
  qed (use assms(2) in \<open>simp add: image_size_def\<close>)
  note room = align_2mb_pos [OF this] align_2mb_bounds(1) [of sz]
  from assms(5) consider "a = pb" "d = header_data pe"
    | s where "s \<in> set (sections pe)" "a = pb + section_rva pe s" "d = raw_data s"
    by (auto simp: image_writes_def split: if_splits)
  then show ?thesis
  proof cases
    case 1
    then show ?thesis using parse_shape(1) [OF assms(1)] room by simp
  next
    case 2
    note c = image_size_covers [OF assms(2,3) 2(1)]
    have "length d \<le> unat (virtual_size s)" using assms(3) 2 by (simp add: image_fits_def)
    moreover have "unat a = unat pb + unat (section_rva pe s)"
      unfolding 2(2) using c room assms(4) by (intro unat_plus_lt) simp
    ultimately show ?thesis using c room by simp
  qed
qed
text \<open>Modules laid one after the other from \<open>c\<close> to \<open>e\<close>, \<open>f\<close> being one of their two bases.\<close>

fun stacked :: "(loaded_module \<Rightarrow> u64) \<Rightarrow> nat \<Rightarrow> loaded_module list \<Rightarrow> nat \<Rightarrow> bool" where
  "stacked f c [] e \<longleftrightarrow> e = c"
| "stacked f c (m # ms) e \<longleftrightarrow> unat (f m) = c \<and> stacked f (c + unat (align_2mb (mod_size m))) ms e"

lemma stacked_append: "stacked f c (ms @ ns) e \<longleftrightarrow> (\<exists>d. stacked f c ms d \<and> stacked f d ns e)"
  by (induction ms arbitrary: c) auto

lemma stacked_le: "stacked f c ms e \<Longrightarrow> c \<le> e \<and> (\<forall>m\<in>set ms. c \<le> unat (f m))"
  by (induction ms arbitrary: c) fastforce+

lemma stacked_room:
  "stacked f c ms e \<Longrightarrow> sorted_wrt (\<lambda>a b. unat (f a) + unat (align_2mb (mod_size a)) \<le> unat (f b)) ms"
  by (induction ms arbitrary: c) (auto dest: stacked_le)

lemma stacked_disjoint:
  "stacked f c ms e \<Longrightarrow> sorted_wrt (\<lambda>a b. unat (f a) + unat (mod_size a) \<le> unat (f b)) ms"
proof (erule sorted_wrt_mono_rel [rotated, OF stacked_room])
  fix a b assume "unat (f a) + unat (align_2mb (mod_size a)) \<le> unat (f b)"
  then show "unat (f a) + unat (mod_size a) \<le> unat (f b)" using align_2mb_bounds(1) [of "mod_size a"] by linarith
qed

lemma stacked_aligned:
  "stacked f c ms e \<Longrightarrow> 0x200000 dvd c \<Longrightarrow> \<forall>m\<in>set ms. 0x200000 dvd unat (f m)"
  by (induction ms arbitrary: c) (auto simp: align_2mb_bounds)

text \<open>What placing one module does to the loader's state.\<close>

definition places ::
  "(u8 list \<Rightarrow> parsed option) \<Rightarrow> filesystem \<Rightarrow> rstring \<Rightarrow> 'k loading \<Rightarrow> loaded_module \<Rightarrow> 'k loading \<Rightarrow> bool" where
  "places obj fs dir st m st' \<longleftrightarrow>
     ld_modules st' = ld_modules st @ [m] \<and> p_base m = p_cursor st \<and>
     (\<exists>buf. fs_read fs (full_path dir (mod_name m)) = Ok buf \<and> parse obj buf = Ok (mod_pe m)) \<and>
     image_size (mod_pe m) = Ok (mod_size m) \<and>
     load_sections (ld_vm st) (mod_pe m) (p_base m) (v_base m) = Ok (mod_entry m, ld_vm st')"

text \<open>A module that holds a parsed file and its size.\<close>

definition from_file :: "(u8 list \<Rightarrow> parsed option) \<Rightarrow> loaded_module \<Rightarrow> bool" where
  "from_file obj m \<longleftrightarrow> (\<exists>buf. parse obj buf = Ok (mod_pe m)) \<and> image_size (mod_pe m) = Ok (mod_size m)"

lemma load_file_fixed_places:
  assumes "load_file_fixed obj fs dir name vb st = Ok st'"
  shows "\<exists>m. places obj fs dir st m st' \<and> mod_name m = name \<and> v_base m = vb \<and> v_cursor st' = v_cursor st \<and>
    unat (p_cursor st') = (if name = lit ''ntoskrnl.exe'' then 0x2000000
      else unat (p_cursor st) + unat (align_2mb (mod_size m)))"
proof -
  from assms obtain buf pe sz nxt entry vm where
    rd: "fs_read fs (full_path dir name) = Ok buf" "parse obj buf = Ok pe" "image_size pe = Ok sz"
    and nxt: "add_chk (p_cursor st) (align_2mb sz) = Ok nxt"
    and ld: "load_sections (ld_vm st) pe (p_cursor st) vb = Ok (entry, vm)"
    and st': "st' = st\<lparr>ld_vm := vm, p_cursor := (if name = lit ''ntoskrnl.exe'' then 0x2000000 else nxt),
      ld_modules := ld_modules st @ [\<lparr>mod_name = name, v_base = vb, p_base = p_cursor st,
        mod_entry = entry, mod_size = sz, mod_pe = pe\<rparr>]\<rparr>"
    by (auto simp: load_file_fixed_def Let_def)
  show ?thesis
    using rd ld st' add_chk_unat [OF nxt]
    by (intro exI [of _ "last (ld_modules st')"]) (auto simp: places_def)
qed

lemma load_file_dynamic_places:
  assumes "load_file_dynamic obj fs dir name st = Ok st'"
  shows "\<exists>m. places obj fs dir st m st' \<and> mod_name m = name \<and> v_base m = v_cursor st \<and>
    unat (v_cursor st') = unat (v_cursor st) + unat (align_2mb (mod_size m)) \<and>
    unat (p_cursor st') = unat (p_cursor st) + unat (align_2mb (mod_size m))"
proof -
  from assms obtain buf pe sz pn vn entry vm where
    rd: "fs_read fs (full_path dir name) = Ok buf" "parse obj buf = Ok pe" "image_size pe = Ok sz"
    and pn: "add_chk (p_cursor st) (align_2mb sz) = Ok pn" and vn: "add_chk (v_cursor st) (align_2mb sz) = Ok vn"
    and ld: "load_sections (ld_vm st) pe (p_cursor st) (v_cursor st) = Ok (entry, vm)"
    and st': "st' = st\<lparr>ld_vm := vm, p_cursor := pn, v_cursor := vn,
      ld_modules := ld_modules st @ [\<lparr>mod_name = name, v_base = v_cursor st, p_base = p_cursor st,
        mod_entry = entry, mod_size = sz, mod_pe = pe\<rparr>]\<rparr>"
    by (auto simp: load_file_dynamic_def Let_def)
  show ?thesis
    using rd ld st' add_chk_unat [OF pn] add_chk_unat [OF vn]
    by (intro exI [of _ "last (ld_modules st')"]) (auto simp: places_def)
qed

lemma load_driver_places:
  assumes "load_driver U obj fs dir e st = Ok st'"
  shows "st' = st \<or> (\<exists>m. places obj fs dir st m st' \<and> v_base m = v_cursor st \<and>
    unat (v_cursor st') = unat (v_cursor st) + unat (align_2mb (mod_size m)) \<and>
    unat (p_cursor st') = unat (p_cursor st) + unat (align_2mb (mod_size m)))"
  using assms load_file_dynamic_places [of obj fs dir _ st st']
  by (auto simp: load_driver_def split: if_splits option.splits)

lemma load_drivers_stacked:
  "for_r (load_driver U obj fs dir) es st = Ok st' \<Longrightarrow>
   \<exists>ds. ld_modules st' = ld_modules st @ ds \<and>
     stacked p_base (unat (p_cursor st)) ds (unat (p_cursor st')) \<and>
     stacked v_base (unat (v_cursor st)) ds (unat (v_cursor st')) \<and>
     (\<forall>m\<in>set ds. from_file obj m)"
proof (induction es arbitrary: st)
  case (Cons e es)
  from Cons.prems obtain u where u: "load_driver U obj fs dir e st = Ok u"
    "for_r (load_driver U obj fs dir) es u = Ok st'" by auto
  from Cons.IH [OF u(2)] obtain ds where ds: "ld_modules st' = ld_modules u @ ds"
    "stacked p_base (unat (p_cursor u)) ds (unat (p_cursor st'))"
    "stacked v_base (unat (v_cursor u)) ds (unat (v_cursor st'))"
    "\<forall>m\<in>set ds. from_file obj m" by blast
  from load_driver_places [OF u(1)] show ?case
  proof (elim disjE exE conjE)
    fix m assume "places obj fs dir st m u" "v_base m = v_cursor st"
      "unat (v_cursor u) = unat (v_cursor st) + unat (align_2mb (mod_size m))"
      "unat (p_cursor u) = unat (p_cursor st) + unat (align_2mb (mod_size m))"
    then show ?thesis using ds by (intro exI [of _ "m # ds"]) (auto simp: places_def from_file_def)
  qed (use ds in blast)
qed auto


section \<open>The bound slots\<close>

text \<open>The import slots the binding fills, with the address each receives.\<close>

definition function_slots :: "unicode \<Rightarrow> loaded_module list \<Rightarrow> loaded_module \<Rightarrow> rstring \<Rightarrow> import_function \<Rightarrow> (u64 \<times> u8 list) list" where
  "function_slots U ms m dll f =
     (case resolve U ms dll (imp_name f) of
        Ok (Some a) \<Rightarrow> [(p_base m + ucast (iat_rva f), le64 a)]
      | _ \<Rightarrow> [])"

definition module_slots :: "unicode \<Rightarrow> loaded_module list \<Rightarrow> loaded_module \<Rightarrow> (u64 \<times> u8 list) list" where
  "module_slots U ms m =
     (case get_imports (mod_pe m) of
        Ok is \<Rightarrow> concat (map (\<lambda>i. concat (map (function_slots U ms m (dll_name i)) (imp_functions i))) is)
      | _ \<Rightarrow> [])"

definition iat_slots :: "unicode \<Rightarrow> loaded_module list \<Rightarrow> (u64 \<times> u8 list) list" where
  "iat_slots U ms = concat (map (module_slots U ms) ms)"

lemma bind_function_slots:
  "bind_function U ms m dll f vm = Ok vm' \<Longrightarrow>
   for_r (\<lambda>(a, d) vm. write_memory vm a d) (function_slots U ms m dll f) vm = Ok vm'"
  by (auto simp: bind_function_def function_slots_def add_chk_Ok_iff split: option.splits)

lemma bind_module_slots:
  "bind_module U ms m vm = Ok vm' \<Longrightarrow>
   for_r (\<lambda>(a, d) vm. write_memory vm a d) (module_slots U ms m) vm = Ok vm'"
  by (auto simp: bind_module_def module_slots_def intro!: bind_function_slots elim!: for_r_flatten)

lemma bind_all_slots:
  "bind_all U ms vm = Ok vm' \<Longrightarrow>
   for_r (\<lambda>(a, d) vm. write_memory vm a d) (iat_slots U ms) vm = Ok vm'"
  unfolding bind_all_def iat_slots_def by (erule for_r_flatten, erule bind_module_slots)

section \<open>Properties\<close>

text \<open>Property C7: loading an image puts it in memory. When the header and the sections do not
  overlap, every byte of each of them that no relocation targets is found at its place, every byte
  of memory outside the image and the relocation targets is left alone, and the entry point returned
  is the file's, moved to the load address.\<close>

theorem load_sections_correct:
  assumes "load_sections vm pe pb vb = Ok (entry, vm')"
    and "sorted_wrt separate (image_writes pe pb)"
  shows "(\<forall>a d i. (a, d) \<in> set (image_writes pe pb) \<and> i < length d \<and> \<not> reloc_hits pe pb vb (unat a + i) \<longrightarrow>
      mem_ptr vm' (unat a + i) = d ! i) \<and>
    (\<forall>b. \<not> reloc_hits pe pb vb b \<and> (\<forall>a d. (a, d) \<in> set (image_writes pe pb) \<longrightarrow> b < unat a \<or> unat a + length d \<le> b) \<longrightarrow>
      mem_ptr vm' b = mem_ptr vm b) \<and>
    entry = vb + (entry_point pe - image_base pe)"
proof -
  from load_sections_steps [OF assms(1)] obtain vm1 where
    w: "for_r (\<lambda>(a, d) vm. write_memory vm a d) (image_writes pe pb) vm = Ok vm1"
    and r: "\<And>a. \<not> reloc_hits pe pb vb a \<Longrightarrow> mem_ptr vm' a = mem_ptr vm1 a"
    and e: "entry = vb + (entry_point pe - image_base pe)" by blast
  have "mem_ptr vm1 (unat a + i) = d ! i" if "(a, d) \<in> set (image_writes pe pb)" "i < length d" for a d i
  proof -
    have "d = load (mem_ptr vm1) (unat a) (length d)"
      using guest.batch_reads_back [OF w assms(2) that(1)] by (simp add: read_memory_Ok_iff)
    then show ?thesis using nth_load [OF that(2), of "mem_ptr vm1" "unat a"] by simp
  qed
  then show ?thesis using r e batch_frame [OF w] by auto
qed

theorem load_sections_correct_witness:
  "\<exists>vm'. load_sections vm_zero (sample_pe fwd_KeA) 0x200000 0 = Ok (0x1090, vm') \<and>
     mem_ptr vm' 0x201038 = 75 \<and> mem_ptr vm' 0x2010A0 = 0"
proof -
  let ?pe = "sample_pe fwd_KeA"
  have w: "image_writes ?pe 0x200000 =
      [(0x200000, take 256 (sample_image fwd_KeA)), (0x201000, drop 256 (sample_image fwd_KeA))]"
    using sample_length [of fwd_KeA] by (auto simp: image_writes_def sample_pe_def section_rva_def)
  have sep: "sorted_wrt separate (image_writes ?pe 0x200000)" by (simp add: w sample_length)
  have none: "\<not> reloc_hits ?pe 0x200000 0 a" for a by (simp add: reloc_hits_def sample_pe_def)
  have "\<exists>vm'. load_sections vm_zero ?pe 0x200000 0 = Ok (0x1090, vm')"
    using sample_length [of fwd_KeA]
    by (simp add: load_sections_def sample_pe_def write_memory_ok MEM_SIZE_def section_rva_def
        add_chk_def apply_relocation_def)
  then obtain vm' where l: "load_sections vm_zero ?pe 0x200000 0 = Ok (0x1090, vm')" by blast
  note c = load_sections_correct [OF l sep]
  have "mem_ptr vm' (unat (0x201000 :: u64) + 0x38) = drop 256 (sample_image fwd_KeA) ! 0x38"
    by (rule c [THEN conjunct1, rule_format]) (simp add: w none sample_length)
  moreover have "drop 256 (sample_image fwd_KeA) ! 0x38 = 75"
    by (simp add: sample_image_def nth_append)
  moreover have "mem_ptr vm' 0x2010A0 = mem_ptr vm_zero 0x2010A0"
    by (rule c [THEN conjunct2, THEN conjunct1, rule_format]) (auto simp: w none sample_length)
  ultimately show ?thesis using l by (simp add: vm_zero_def)
qed

text \<open>The modules of a directory: the four essential ones, then the drivers, one after the other.\<close>

lemma load_directory_modules:
  assumes "load_directory U obj fs vm dir k_pbase k_vbase [] = Ok (ms, vm')"
  obtains nt hal kd kc ds pe ve where "ms = nt # hal # kd # kc # ds"
    "map (\<lambda>m. (mod_name m, v_base m)) [nt, hal, kd, kc] = essentials k_vbase"
    "p_base nt = k_pbase" "p_base hal = 0x2000000"
    "stacked p_base 0x2000000 (hal # kd # kc # ds) pe" "stacked v_base 0xFFFFF80040000000 ds ve"
    "\<exists>vm1. load_sections vm (mod_pe nt) k_pbase k_vbase = Ok (mod_entry nt, vm1)"
    "\<forall>m\<in>set ms. from_file obj m"
proof -
  let ?s0 = "\<lparr>ld_vm = vm, ld_modules = [], p_cursor = k_pbase, v_cursor = 0xFFFFF80040000000\<rparr>"
  from assms obtain s1 s2 s3 s4 st paths where
    f: "load_file_fixed obj fs dir (lit ''ntoskrnl.exe'') k_vbase ?s0 = Ok s1"
      "load_file_fixed obj fs dir (lit ''hal.dll'') 0xFFFFF80002000000 s1 = Ok s2"
      "load_file_fixed obj fs dir (lit ''kd.dll'') 0xFFFFF80000600000 s2 = Ok s3"
      "load_file_fixed obj fs dir (lit ''kdcom.dll'') 0xFFFFF80000800000 s3 = Ok s4"
    and d: "for_r (load_driver U obj fs dir) paths s4 = Ok st" and ms: "ms = ld_modules st"
    by (auto simp: load_directory_def essentials_def)
  have ne: "lit ''hal.dll'' \<noteq> lit ''ntoskrnl.exe''" "lit ''kd.dll'' \<noteq> lit ''ntoskrnl.exe''"
    "lit ''kdcom.dll'' \<noteq> lit ''ntoskrnl.exe''" by (simp_all add: lit_def)
  obtain nt where nt: "places obj fs dir ?s0 nt s1" "mod_name nt = lit ''ntoskrnl.exe''" "v_base nt = k_vbase"
    "v_cursor s1 = 0xFFFFF80040000000" "unat (p_cursor s1) = 0x2000000"
    using load_file_fixed_places [OF f(1)] by auto
  obtain hal where hal: "places obj fs dir s1 hal s2" "mod_name hal = lit ''hal.dll''" "v_base hal = 0xFFFFF80002000000"
    "v_cursor s2 = v_cursor s1" "unat (p_cursor s2) = unat (p_cursor s1) + unat (align_2mb (mod_size hal))"
    using load_file_fixed_places [OF f(2)] ne by auto
  obtain kd where kd: "places obj fs dir s2 kd s3" "mod_name kd = lit ''kd.dll''" "v_base kd = 0xFFFFF80000600000"
    "v_cursor s3 = v_cursor s2" "unat (p_cursor s3) = unat (p_cursor s2) + unat (align_2mb (mod_size kd))"
    using load_file_fixed_places [OF f(3)] ne by auto
  obtain kc where kc: "places obj fs dir s3 kc s4" "mod_name kc = lit ''kdcom.dll''" "v_base kc = 0xFFFFF80000800000"
    "v_cursor s4 = v_cursor s3" "unat (p_cursor s4) = unat (p_cursor s3) + unat (align_2mb (mod_size kc))"
    using load_file_fixed_places [OF f(4)] ne by auto
  obtain ds where ds: "ld_modules st = ld_modules s4 @ ds"
    "stacked p_base (unat (p_cursor s4)) ds (unat (p_cursor st))"
    "stacked v_base (unat (v_cursor s4)) ds (unat (v_cursor st))" "\<forall>m\<in>set ds. from_file obj m"
    using load_drivers_stacked [OF d] by blast
  have all: "ms = nt # hal # kd # kc # ds"
    using ms ds nt hal kd kc by (simp add: places_def)
  have p: "stacked p_base 0x2000000 (hal # kd # kc # ds) (unat (p_cursor st))"
    using ds nt hal kd kc by (simp add: places_def)
  have v: "stacked v_base 0xFFFFF80040000000 ds (unat (v_cursor st))"
    using ds nt hal kd kc by simp
  have hp: "p_base hal = 0x2000000" using hal(1) nt(5) by (auto simp: places_def word_unat_eq_iff)
  have e: "map (\<lambda>m. (mod_name m, v_base m)) [nt, hal, kd, kc] = essentials k_vbase"
    using nt hal kd kc by (simp add: essentials_def)
  have np: "p_base nt = k_pbase" "\<exists>vm1. load_sections vm (mod_pe nt) k_pbase k_vbase = Ok (mod_entry nt, vm1)"
    using nt(1,3) by (auto simp: places_def)
  have "\<forall>m\<in>set ms. from_file obj m"
    using nt(1) hal(1) kd(1) kc(1) ds(4) by (auto simp: all places_def from_file_def)
  from that [OF all e np(1) hp p v np(2) this] show thesis .
qed

text \<open>The room a stacked module gets holds its image, before the base of every later module.\<close>

lemma stacked_images:
  assumes "stacked f c ms e" and "\<forall>m\<in>set ms. from_file obj m" and "i < j" and "j < length ms"
    and "image_fits (mod_pe (ms ! i))"
  shows "(a, d) \<in> set (image_writes (mod_pe (ms ! i)) (f (ms ! i))) \<Longrightarrow>
      unat (f (ms ! i)) \<le> unat a \<and> unat a + length d \<le> unat (f (ms ! j))"
    and "s \<in> set (sections (mod_pe (ms ! i))) \<Longrightarrow>
      unat (f (ms ! i)) + unat (section_rva (mod_pe (ms ! i)) s) + unat (virtual_size s) \<le> unat (f (ms ! j))"
proof -
  have room: "unat (f (ms ! i)) + unat (align_2mb (mod_size (ms ! i))) \<le> unat (f (ms ! j))"
    using sorted_wrt_nth_less [OF stacked_room [OF assms(1)] assms(3,4)] .
  also have "\<dots> < 2 ^ 64" using unsigned_less [of "f (ms ! j)"] by simp
  finally have lt: "unat (f (ms ! i)) + unat (align_2mb (mod_size (ms ! i))) < 2 ^ 64" .
  have "ms ! i \<in> set ms" using assms(3,4) by simp
  then obtain buf where src: "parse obj buf = Ok (mod_pe (ms ! i))" "image_size (mod_pe (ms ! i)) = Ok (mod_size (ms ! i))"
    using assms(2) by (auto simp: from_file_def)
  show "unat (f (ms ! i)) \<le> unat a \<and> unat a + length d \<le> unat (f (ms ! j))"
    if "(a, d) \<in> set (image_writes (mod_pe (ms ! i)) (f (ms ! i)))"
    using image_in_room [OF src assms(5) lt that] room by simp
  show "unat (f (ms ! i)) + unat (section_rva (mod_pe (ms ! i)) s) + unat (virtual_size s) \<le> unat (f (ms ! j))"
    if "s \<in> set (sections (mod_pe (ms ! i)))"
    using image_size_covers [OF src(2) assms(5) that] align_2mb_bounds(1) [of "mod_size (ms ! i)"] room by simp
qed

text \<open>Property C3: the loader places its modules where the tables of the boot expect them. The
  first four modules are the kernel, the HAL and the two debugger modules, in this order; the kernel
  is at the given physical base, the HAL at \<open>0x2000000\<close>; from the HAL on the recorded extents of two
  modules never overlap in physical memory and every base is a multiple of 2 MB; the drivers, from
  the fifth on, do not overlap in virtual memory either and start at \<open>0xFFFFF80040000000\<close>. The
  recorded extents are enough for the images: from the HAL on, every write that copies the header or
  a section of a module lies between the module's base and the base of every later one, and every
  section of a driver, at its full virtual size, ends before the virtual base of every later driver,
  for an image whose sections lie above the image base, end within 32 bits of it and have no more
  data than their virtual size (\<open>image_fits\<close>).\<close>

theorem load_directory_layout:
  assumes "load_directory U obj fs vm dir k_pbase k_vbase [] = Ok (ms, vm')"
  shows "4 \<le> length ms \<and>
    map (\<lambda>m. (mod_name m, v_base m)) (take 4 ms) = essentials k_vbase \<and>
    p_base (ms ! 0) = k_pbase \<and> p_base (ms ! 1) = 0x2000000 \<and>
    sorted_wrt (\<lambda>a b. unat (p_base a) + unat (mod_size a) \<le> unat (p_base b)) (drop 1 ms) \<and>
    (\<forall>i. 1 \<le> i \<and> i < length ms \<longrightarrow> 0x200000 dvd unat (p_base (ms ! i))) \<and>
    sorted_wrt (\<lambda>a b. unat (v_base a) + unat (mod_size a) \<le> unat (v_base b)) (drop 4 ms) \<and>
    (\<forall>i. 4 \<le> i \<and> i < length ms \<longrightarrow>
       0xFFFFF80040000000 \<le> v_base (ms ! i) \<and> 0x200000 dvd unat (v_base (ms ! i))) \<and>
    (\<forall>i j a d. 1 \<le> i \<and> i < j \<and> j < length ms \<and> image_fits (mod_pe (ms ! i)) \<and>
       (a, d) \<in> set (image_writes (mod_pe (ms ! i)) (p_base (ms ! i))) \<longrightarrow>
       unat (p_base (ms ! i)) \<le> unat a \<and> unat a + length d \<le> unat (p_base (ms ! j))) \<and>
    (\<forall>i j s. 4 \<le> i \<and> i < j \<and> j < length ms \<and> image_fits (mod_pe (ms ! i)) \<and> s \<in> set (sections (mod_pe (ms ! i))) \<longrightarrow>
       unat (v_base (ms ! i)) + unat (section_rva (mod_pe (ms ! i)) s) + unat (virtual_size s) \<le> unat (v_base (ms ! j)))"
proof -
  obtain nt hal kd kc ds pe ve where all: "ms = nt # hal # kd # kc # ds"
    and e: "map (\<lambda>m. (mod_name m, v_base m)) [nt, hal, kd, kc] = essentials k_vbase"
    and b: "p_base nt = k_pbase" "p_base hal = 0x2000000"
    and p: "stacked p_base 0x2000000 (hal # kd # kc # ds) pe" and v: "stacked v_base 0xFFFFF80040000000 ds ve"
    and "\<exists>vm1. load_sections vm (mod_pe nt) k_pbase k_vbase = Ok (mod_entry nt, vm1)"
    and files: "\<forall>m\<in>set ms. from_file obj m"
    by (rule load_directory_modules [OF assms])
  have al: "\<forall>i. 1 \<le> i \<and> i < length ms \<longrightarrow> 0x200000 dvd unat (p_base (ms ! i))"
    using stacked_aligned [OF p] by (auto simp: all nth_Cons split: nat.splits)
  have dr: "\<forall>i. 4 \<le> i \<and> i < length ms \<longrightarrow>
       0xFFFFF80040000000 \<le> v_base (ms ! i) \<and> 0x200000 dvd unat (v_base (ms ! i))"
    using stacked_aligned [OF v] stacked_le [OF v]
    by (auto simp: all nth_Cons word_le_nat_alt split: nat.splits)
  have pd: "stacked p_base 0x2000000 (drop 1 ms) pe" and vd: "stacked v_base 0xFFFFF80040000000 (drop 4 ms) ve"
    using p v by (simp_all add: all)
  have fp: "\<forall>m\<in>set (drop 1 ms). from_file obj m" and fv: "\<forall>m\<in>set (drop 4 ms). from_file obj m"
    using files by (auto dest: in_set_dropD)
  have pi: "\<forall>i j a d. 1 \<le> i \<and> i < j \<and> j < length ms \<and> image_fits (mod_pe (ms ! i)) \<and>
       (a, d) \<in> set (image_writes (mod_pe (ms ! i)) (p_base (ms ! i))) \<longrightarrow>
       unat (p_base (ms ! i)) \<le> unat a \<and> unat a + length d \<le> unat (p_base (ms ! j))"
  proof (intro allI impI, elim conjE)
    fix i j a d assume h: "1 \<le> i" "i < j" "j < length ms" "image_fits (mod_pe (ms ! i))"
      "(a, d) \<in> set (image_writes (mod_pe (ms ! i)) (p_base (ms ! i)))"
    then show "unat (p_base (ms ! i)) \<le> unat a \<and> unat a + length d \<le> unat (p_base (ms ! j))"
      using stacked_images(1) [OF pd fp, of "i - 1" "j - 1" a d] by simp
  qed
  have vi: "\<forall>i j s. 4 \<le> i \<and> i < j \<and> j < length ms \<and> image_fits (mod_pe (ms ! i)) \<and> s \<in> set (sections (mod_pe (ms ! i))) \<longrightarrow>
       unat (v_base (ms ! i)) + unat (section_rva (mod_pe (ms ! i)) s) + unat (virtual_size s) \<le> unat (v_base (ms ! j))"
  proof (intro allI impI, elim conjE)
    fix i j s assume h: "4 \<le> i" "i < j" "j < length ms" "image_fits (mod_pe (ms ! i))" "s \<in> set (sections (mod_pe (ms ! i)))"
    then show "unat (v_base (ms ! i)) + unat (section_rva (mod_pe (ms ! i)) s) + unat (virtual_size s) \<le> unat (v_base (ms ! j))"
      using stacked_images(2) [OF vd fv, of "i - 4" "j - 4" s] by simp
  qed
  show ?thesis
    using al dr pi vi stacked_disjoint [OF p] stacked_disjoint [OF v] e b by (simp add: all)
qed

text \<open>A directory with the four essential files and two drivers, every file an image with one
  section.\<close>

definition bare_obj :: "u8 list \<Rightarrow> parsed option" where
  "bare_obj bytes = Some \<lparr>parsed_file = Pe64 \<lparr>ov_entry = 0x10, ov_architecture = ''X86_64'',
     ov_image_base = 0, ov_sections = [\<lparr>os_name = Some (lit ''.text''), os_size = 0x1000, os_address = 0x1000,
       os_data = Some [0xC3]\<rparr>]\<rparr>, parsed_pdb = None\<rparr>"

definition bare_pe :: "u8 list \<Rightarrow> pe_file" where
  "bare_pe bytes = \<lparr>entry_point = 0x10, architecture = ''X86_64'', image_base = 0,
     sections = [\<lparr>sec_name = lit ''.text'', virtual_address = 0x1000, virtual_size = 0x1000, raw_data = [0xC3]\<rparr>],
     header_data = bytes, pdb_name = lit ''Unknown'', pdb_guid_age = lit ''Unknown'', raw_bytes = bytes\<rparr>"

definition bare_fs :: filesystem where
  "bare_fs = \<lparr>fs_read = (\<lambda>path. Ok [77, 90]),
     fs_read_dir = (\<lambda>dir. Ok [Ok \<lparr>de_name = [98, 46, 115, 121, 115], de_is_file = True\<rparr>,
       Ok \<lparr>de_name = [97, 46, 115, 121, 115], de_is_file = True\<rparr>])\<rparr>"

lemma bare_load_sections:
  "unat pb \<le> 0x40000000 \<Longrightarrow> unat vb \<le> 0xFFFFF90000000000 \<Longrightarrow> length bytes \<le> 4096 \<Longrightarrow>
   \<exists>vm'. load_sections vm (bare_pe bytes) pb vb = Ok (vb + 0x10, vm')"
  by (auto simp: load_sections_def write_memory_ok MEM_SIZE_def apply_relocation_def Let_def add_chk_def bare_pe_def
      section_rva_def lit_def near_addr)

lemma bare_parse: "length bytes \<le> 4096 \<Longrightarrow> parse bare_obj bytes = Ok (bare_pe bytes)"
  by (simp add: parse_def from_bytes_def bare_obj_def slice_r_def bare_pe_def)

lemma bare_size: "image_size (bare_pe bytes) = Ok 0x2000" "align_2mb 0x2000 = 0x200000" "image_fits (bare_pe bytes)"
  by (simp_all add: image_size_def bare_pe_def section_end_def add_chk_def sub_chk_def align_2mb_def image_fits_def)

lemma bare_fixed:
  assumes "unat (p_cursor st) \<le> 0x40000000" and "unat vb \<le> 0xFFFFF90000000000"
    and "fs_read fs (full_path dir name) = Ok bytes" and "length bytes \<le> 4096"
  shows "\<exists>vm'. load_file_fixed bare_obj fs dir name vb st =
    Ok (st\<lparr>ld_vm := vm', p_cursor := (if name = lit ''ntoskrnl.exe'' then 0x2000000 else p_cursor st + 0x200000),
      ld_modules := ld_modules st @ [\<lparr>mod_name = name, v_base = vb, p_base = p_cursor st, mod_entry = vb + 0x10,
        mod_size = 0x2000, mod_pe = bare_pe bytes\<rparr>]\<rparr>)"
proof -
  obtain vm' where "load_sections (ld_vm st) (bare_pe bytes) (p_cursor st) vb = Ok (vb + 0x10, vm')"
    using bare_load_sections [OF assms(1,2,4)] by blast
  then show ?thesis using assms
    by (auto simp: load_file_fixed_def bare_parse bare_size add_chk_def Let_def)
qed

lemma bare_dynamic:
  assumes "unat (p_cursor st) \<le> 0x40000000" and "unat (v_cursor st) \<le> 0xFFFFF80050000000"
    and "fs_read fs (full_path dir name) = Ok bytes" and "length bytes \<le> 4096"
  shows "\<exists>vm'. load_file_dynamic bare_obj fs dir name st =
    Ok (st\<lparr>ld_vm := vm', p_cursor := p_cursor st + 0x200000, v_cursor := v_cursor st + 0x200000,
      ld_modules := ld_modules st @ [\<lparr>mod_name = name, v_base = v_cursor st, p_base = p_cursor st,
        mod_entry = v_cursor st + 0x10, mod_size = 0x2000, mod_pe = bare_pe bytes\<rparr>]\<rparr>)"
proof -
  obtain vm' where "load_sections (ld_vm st) (bare_pe bytes) (p_cursor st) (v_cursor st) = Ok (v_cursor st + 0x10, vm')"
    using bare_load_sections [OF assms(1) _ assms(4), of "v_cursor st"] assms(2) by auto
  then show ?thesis using assms
    by (auto simp: load_file_dynamic_def bare_parse bare_size add_chk_def Let_def)
qed

definition site_module :: "u8 list \<Rightarrow> rstring \<Rightarrow> u64 \<Rightarrow> u64 \<Rightarrow> loaded_module" where
  "site_module bytes name vb pb = \<lparr>mod_name = name, v_base = vb, p_base = pb, mod_entry = vb + 0x10, mod_size = 0x2000,
     mod_pe = bare_pe bytes\<rparr>"

fun site_drivers :: "u8 list \<Rightarrow> u64 \<Rightarrow> u64 \<Rightarrow> rstring list \<Rightarrow> loaded_module list" where
  "site_drivers bytes pb vb [] = []"
| "site_drivers bytes pb vb (n # ns) =
     site_module bytes n vb pb # site_drivers bytes (pb + 0x200000) (vb + 0x200000) ns"

definition site_mods :: "u8 list \<Rightarrow> u64 \<Rightarrow> rstring list \<Rightarrow> loaded_module list" where
  "site_mods bytes k_vbase names = [site_module bytes (lit ''ntoskrnl.exe'') k_vbase 0x200000,
     site_module bytes (lit ''hal.dll'') 0xFFFFF80002000000 0x2000000,
     site_module bytes (lit ''kd.dll'') 0xFFFFF80000600000 0x2200000,
     site_module bytes (lit ''kdcom.dll'') 0xFFFFF80000800000 0x2400000] @
     site_drivers bytes 0x2600000 0xFFFFF80040000000 names"

definition site_entry :: "rstring \<Rightarrow> dir_entry" where
  "site_entry name = \<lparr>de_name = map of_nat name, de_is_file = True\<rparr>"

definition driver_name :: "rstring \<Rightarrow> bool" where
  "driver_name n \<longleftrightarrow> to_str (map of_nat n) = Some n \<and> \<not> skip_name no_unicode n"

lemma site_drivers_load:
  assumes "\<forall>n\<in>set ns. driver_name n \<and> fs_read fs (full_path dir n) = Ok bytes" and "length bytes \<le> 4096"
    and "unat (p_cursor st) + 0x200000 * length ns \<le> 0x40000000"
    and "unat (v_cursor st) + 0x200000 * length ns \<le> 0xFFFFF80050000000"
  shows "\<exists>st'. for_r (load_driver no_unicode bare_obj fs dir) (map site_entry ns) st = Ok st' \<and>
    ld_modules st' = ld_modules st @ site_drivers bytes (p_cursor st) (v_cursor st) ns"
  using assms
proof (induction ns arbitrary: st)
  case (Cons n ns)
  have f: "fs_read fs (full_path dir n) = Ok bytes" using Cons.prems(1) by simp
  obtain vm' where d: "load_file_dynamic bare_obj fs dir n st =
    Ok (st\<lparr>ld_vm := vm', p_cursor := p_cursor st + 0x200000, v_cursor := v_cursor st + 0x200000,
      ld_modules := ld_modules st @ [site_module bytes n (v_cursor st) (p_cursor st)]\<rparr>)" (is "_ = Ok ?u")
    using bare_dynamic [OF _ _ f Cons.prems(2), of st] Cons.prems(3,4) by (auto simp: site_module_def)
  have "unat (p_cursor ?u) = unat (p_cursor st) + 0x200000" "unat (v_cursor ?u) = unat (v_cursor st) + 0x200000"
    using Cons.prems(3,4) by (simp_all add: near_addr)
  then obtain st' where "for_r (load_driver no_unicode bare_obj fs dir) (map site_entry ns) ?u = Ok st'"
    "ld_modules st' = ld_modules ?u @ site_drivers bytes (p_cursor ?u) (v_cursor ?u) ns"
    using Cons.IH [of ?u] Cons.prems by auto
  moreover have "load_driver no_unicode bare_obj fs dir (site_entry n) st = Ok ?u"
    using Cons.prems(1) d by (simp add: load_driver_def driver_name_def site_entry_def)
  ultimately show ?case by simp
qed auto

lemma site_essentials:
  assumes "\<forall>n\<in>set (map fst (essentials 0)). fs_read fs (full_path dir n) = Ok bytes" and "length bytes \<le> 4096"
    and "unat k_vbase \<le> 0xFFFFF90000000000"
  shows "\<exists>vm'. for_r (\<lambda>(name, fixed_v). load_file_fixed bare_obj fs dir name fixed_v) (essentials k_vbase)
      \<lparr>ld_vm = vm, ld_modules = [], p_cursor = 0x200000, v_cursor = 0xFFFFF80040000000\<rparr> =
    Ok \<lparr>ld_vm = vm', ld_modules = site_mods bytes k_vbase [], p_cursor = 0x2600000, v_cursor = 0xFFFFF80040000000\<rparr>"
proof -
  let ?st = "\<lambda>vm k p. \<lparr>ld_vm = vm, ld_modules = take k (site_mods bytes k_vbase []), p_cursor = p,
    v_cursor = 0xFFFFF80040000000\<rparr>"
  have ne: "lit ''hal.dll'' \<noteq> lit ''ntoskrnl.exe''" "lit ''kd.dll'' \<noteq> lit ''ntoskrnl.exe''"
    "lit ''kdcom.dll'' \<noteq> lit ''ntoskrnl.exe''" by (simp_all add: lit_def)
  note f = assms(1) [unfolded essentials_def, simplified]
  let ?f = "load_file_fixed bare_obj fs dir"
  obtain v1 where s1: "?f (lit ''ntoskrnl.exe'') k_vbase (?st vm 0 0x200000) = Ok (?st v1 1 0x2000000)"
    using bare_fixed [OF _ assms(3) _ assms(2), of "?st vm 0 0x200000" fs dir "lit ''ntoskrnl.exe''"] f
    by (auto simp: site_mods_def site_module_def)
  obtain v2 where s2: "?f (lit ''hal.dll'') 0xFFFFF80002000000 (?st v1 1 0x2000000) = Ok (?st v2 2 0x2200000)"
    using bare_fixed [OF _ _ _ assms(2), of "?st v1 1 0x2000000" "0xFFFFF80002000000" fs dir "lit ''hal.dll''"] f ne
    by (auto simp: site_mods_def site_module_def)
  obtain v3 where s3: "?f (lit ''kd.dll'') 0xFFFFF80000600000 (?st v2 2 0x2200000) = Ok (?st v3 3 0x2400000)"
    using bare_fixed [OF _ _ _ assms(2), of "?st v2 2 0x2200000" "0xFFFFF80000600000" fs dir "lit ''kd.dll''"] f ne
    by (auto simp: site_mods_def site_module_def)
  obtain v4 where s4: "?f (lit ''kdcom.dll'') 0xFFFFF80000800000 (?st v3 3 0x2400000) = Ok (?st v4 4 0x2600000)"
    using bare_fixed [OF _ _ _ assms(2), of "?st v3 3 0x2400000" "0xFFFFF80000800000" fs dir "lit ''kdcom.dll''"] f ne
    by (auto simp: site_mods_def site_module_def)
  show ?thesis using s1 s2 s3 s4 by (simp add: essentials_def site_mods_def)
qed

lemma site_load_directory:
  assumes "\<forall>n\<in>set (map fst (essentials 0)) \<union> set names. fs_read fs (full_path dir n) = Ok bytes" and "length bytes \<le> 4096"
    and "unat k_vbase \<le> 0xFFFFF90000000000" and "fs_read_dir fs dir = Ok (map Ok paths)"
    and "sort_key (\<lambda>e. map unat (de_name e)) paths = map site_entry names"
    and "\<forall>n\<in>set names. driver_name n" and "length names \<le> 100"
  shows "\<exists>vm'. load_directory no_unicode bare_obj fs vm dir 0x200000 k_vbase [] = Ok (site_mods bytes k_vbase names, vm')"
proof -
  obtain vm1 where e: "for_r (\<lambda>(name, fixed_v). load_file_fixed bare_obj fs dir name fixed_v) (essentials k_vbase)
      \<lparr>ld_vm = vm, ld_modules = [], p_cursor = 0x200000, v_cursor = 0xFFFFF80040000000\<rparr> =
    Ok \<lparr>ld_vm = vm1, ld_modules = site_mods bytes k_vbase [], p_cursor = 0x2600000, v_cursor = 0xFFFFF80040000000\<rparr>"
    (is "_ = Ok ?s") using site_essentials [OF _ assms(2,3), of fs dir vm] assms(1) by auto
  have u: "unwrap_all (map Ok paths) = Ok paths" by (induction paths) simp_all
  obtain st' where "for_r (load_driver no_unicode bare_obj fs dir) (map site_entry names) ?s = Ok st'"
    "ld_modules st' = site_mods bytes k_vbase names"
    using site_drivers_load [of names fs dir bytes ?s] assms(1,2,6,7) by (auto simp: site_mods_def)
  then show ?thesis by (simp add: load_directory_def e assms(4,5) u)
qed

lemma bare_load_directory:
  "\<exists>vm'. load_directory no_unicode bare_obj bare_fs vm_zero (lit ''d'') 0x200000 0xFFFFF80000000000 [] =
     Ok (site_mods [77, 90] 0xFFFFF80000000000 [lit ''a.sys'', lit ''b.sys''], vm')"
proof (rule site_load_directory)
  show "fs_read_dir bare_fs (lit ''d'') = Ok (map Ok [site_entry (lit ''b.sys''), site_entry (lit ''a.sys'')])"
    by (simp add: bare_fs_def site_entry_def lit_def)
  show "sort_key (\<lambda>e. map unat (de_name e)) [site_entry (lit ''b.sys''), site_entry (lit ''a.sys'')] =
    map site_entry [lit ''a.sys'', lit ''b.sys'']"
    by (simp add: site_entry_def lit_def)
  show "\<forall>n\<in>set [lit ''a.sys'', lit ''b.sys'']. driver_name n"
    unfolding driver_name_def by code_simp
qed (simp_all add: bare_fs_def)

theorem load_directory_layout_witness:
  "\<exists>ms vm'. load_directory no_unicode bare_obj bare_fs vm_zero (lit ''d'') 0x200000 0xFFFFF80000000000 [] = Ok (ms, vm') \<and>
     p_base (ms ! 1) = 0x2000000 \<and>
     sorted_wrt (\<lambda>a b. unat (p_base a) + unat (mod_size a) \<le> unat (p_base b)) (drop 1 ms) \<and>
     (p_base (ms ! 1) + 0x1000, [0xC3]) \<in> set (image_writes (mod_pe (ms ! 1)) (p_base (ms ! 1))) \<and>
     unat (p_base (ms ! 1) + 0x1000) + 1 \<le> unat (p_base (ms ! 2)) \<and>
     unat (v_base (ms ! 4)) + 0x1000 + 0x1000 \<le> unat (v_base (ms ! 5))"
proof -
  let ?ms = "site_mods [77, 90] 0xFFFFF80000000000 [lit ''a.sys'', lit ''b.sys'']"
  obtain vm' where l: "load_directory no_unicode bare_obj bare_fs vm_zero (lit ''d'') 0x200000 0xFFFFF80000000000 [] = Ok (?ms, vm')"
    using bare_load_directory by blast
  note c = load_directory_layout [OF l]
  have m: "length ?ms = 6" "mod_pe (?ms ! 1) = bare_pe [77, 90]" "mod_pe (?ms ! 4) = bare_pe [77, 90]"
    by (simp_all add: site_mods_def site_module_def nth_Cons')
  have s: "sections (bare_pe [77, 90]) = [\<lparr>sec_name = lit ''.text'', virtual_address = 0x1000, virtual_size = 0x1000,
    raw_data = [0xC3]\<rparr>]" and r: "section_rva (bare_pe b) x = virtual_address x" for b x
    by (simp_all add: bare_pe_def section_rva_def)
  have w: "(p_base (?ms ! 1) + 0x1000, [0xC3]) \<in> set (image_writes (mod_pe (?ms ! 1)) (p_base (?ms ! 1)))"
    unfolding m image_writes_def s by (simp add: r)
  have "unat (p_base (?ms ! 1) + 0x1000) + 1 \<le> unat (p_base (?ms ! 2))"
    using c [THEN conjunct2, THEN conjunct2, THEN conjunct2, THEN conjunct2, THEN conjunct2, THEN conjunct2, THEN conjunct2,
        THEN conjunct2, THEN conjunct1, rule_format, of 1 2 "p_base (?ms ! 1) + 0x1000" "[0xC3]"] w m(1,2)
    by (simp add: bare_size)
  moreover have "unat (v_base (?ms ! 4)) + 0x1000 + 0x1000 \<le> unat (v_base (?ms ! 5))"
    using c [THEN conjunct2, THEN conjunct2, THEN conjunct2, THEN conjunct2, THEN conjunct2, THEN conjunct2, THEN conjunct2,
        THEN conjunct2, THEN conjunct2, rule_format, of 4 5 "hd (sections (bare_pe [77, 90]))"] m
    by (simp add: bare_size s r)
  ultimately show ?thesis using l w c by blast
qed

text \<open>Property C5: after the binding, every import slot whose symbol resolves holds the resolved
  address, when no two slots overlap, and every byte outside these slots is as it was before.\<close>

theorem bind_all_correct:
  assumes "bind_all U ms vm = Ok vm'" and "sorted_wrt separate (iat_slots U ms)"
  shows "(\<forall>m imps i f a. m \<in> set ms \<and> get_imports (mod_pe m) = Ok imps \<and> i \<in> set imps \<and> f \<in> set (imp_functions i) \<and>
       resolve U ms (dll_name i) (imp_name f) = Ok (Some a) \<longrightarrow>
       read_memory vm' (p_base m + ucast (iat_rva f)) 8 = Ok (le64 a)) \<and>
    (\<forall>b. (\<forall>p d. (p, d) \<in> set (iat_slots U ms) \<longrightarrow> b < unat p \<or> unat p + length d \<le> b) \<longrightarrow>
       mem_ptr vm' b = mem_ptr vm b)"
proof -
  note w = bind_all_slots [OF assms(1)]
  have "read_memory vm' (p_base m + ucast (iat_rva f)) 8 = Ok (le64 a)"
    if "m \<in> set ms" "get_imports (mod_pe m) = Ok imps" "i \<in> set imps" "f \<in> set (imp_functions i)"
      "resolve U ms (dll_name i) (imp_name f) = Ok (Some a)" for m imps i f a
  proof -
    have "(p_base m + ucast (iat_rva f), le64 a) \<in> set (function_slots U ms m (dll_name i) f)"
      using that(5) by (simp add: function_slots_def)
    then have "(p_base m + ucast (iat_rva f), le64 a) \<in> set (module_slots U ms m)"
      using that by (auto simp: module_slots_def)
    then have "(p_base m + ucast (iat_rva f), le64 a) \<in> set (iat_slots U ms)"
      using that(1) by (auto simp: iat_slots_def)
    from guest.batch_reads_back [OF w assms(2) this] show ?thesis by simp
  qed
  then show ?thesis using batch_frame [OF w] by blast
qed


theorem bind_all_correct_witness:
  "\<exists>vm'. bind_all no_unicode [nt_module fwd_KeA] vm_zero = Ok vm' \<and>
     read_memory vm' 0x201080 8 = Ok (le64 0xFFFFF80000001090)"
proof -
  let ?m = "nt_module fwd_KeA"
  let ?f = "\<lparr>imp_name = lit ''#1'', iat_rva = 0x1080\<rparr>"
  have im: "get_imports (mod_pe ?m) = Ok [\<lparr>dll_name = lit ''NT'', imp_functions = [?f]\<rparr>]"
    using sample_imports [of fwd_KeA] by (simp add: nt_module_def)
  have ex: "get_exports (mod_pe ?m) = Ok
    [\<lparr>exp_name = lit ''KeA'', exp_rva = 0x1090, exp_ordinal = 1, exp_forwarder = None\<rparr>,
     \<lparr>exp_name = lit ''#2'', exp_rva = 0x103C, exp_ordinal = 2,
      exp_forwarder = Some (from_utf8_lossy (takeWhile (\<lambda>b. b \<noteq> 0) fwd_KeA))\<rparr>]"
    using sample_exports [of fwd_KeA] by (simp add: nt_module_def fwd_KeA_def)
  have "find_export [\<lparr>exp_name = lit ''KeA'', exp_rva = 0x1090, exp_ordinal = 1, exp_forwarder = None\<rparr>, e] (lit ''#1'')
      = Some \<lparr>exp_name = lit ''KeA'', exp_rva = 0x1090, exp_ordinal = 1, exp_forwarder = None\<rparr>" for e
    by (simp add: find_export_def lit_def parse_u16_def)
  then have r: "resolve no_unicode [?m] (lit ''NT'') (lit ''#1'') = Ok (Some 0xFFFFF80000001090)"
    by (simp add: resolve_def resolve_recursive.simps lit_stem nt_stem ex del: find_module.simps)
      (simp add: nt_module_def add_chk_def)
  have pb: "p_base ?m = 0x200000" by (simp add: nt_module_def)
  have "\<exists>vm'. bind_all no_unicode [?m] vm_zero = Ok vm'"
    by (simp add: bind_all_def bind_module_def im bind_function_def r pb add_chk_def write_memory_ok MEM_SIZE_def)
  then obtain vm' where b: "bind_all no_unicode [?m] vm_zero = Ok vm'" by blast
  have "sorted_wrt separate (iat_slots no_unicode [?m])"
    by (simp add: iat_slots_def module_slots_def im function_slots_def r)
  from bind_all_correct [OF b this, THEN conjunct1, rule_format,
      of ?m _ "\<lparr>dll_name = lit ''NT'', imp_functions = [?f]\<rparr>" ?f] b
  show ?thesis by (auto simp: im r pb)
qed

end
