(* ===== verification/NtTypes.thy ===== *)
theory NtTypes
  imports Vm
begin

text \<open>
  The structures of \<open>src/nt_types.rs\<close> and the rules that lay them out. The sources build every kernel
  structure as a zeroed \<open>repr(C)\<close> value, assign some fields, and copy the raw bytes to the guest; a
  structure is therefore modelled by its layout (\<open>ctype\<close>: the fields in order with their types), its
  value by the bytes, and an assignment by overwriting the bytes of the field. \<open>offset_of\<close>,
  \<open>size_of\<close> and \<open>align_of\<close> follow the \<open>repr(C)\<close> algorithm of the Rust reference; the lemmas show that
  the layout it computes is one: fields are aligned, in order, disjoint and inside the structure.
\<close>

section \<open>The layout rules\<close>

text \<open>\<open>Struct a fs\<close> has the fields \<open>fs\<close> and at least the alignment \<open>a\<close> (\<open>repr(C, align(a))\<close>, 1 when there is
  no such attribute); the fields of \<open>Union a fs\<close> all start at offset 0.\<close>

datatype ctype = Prim nat | Arr ctype nat | Struct nat "(string \<times> ctype) list" | Union nat "(string \<times> ctype) list"

definition round_up :: "nat \<Rightarrow> nat \<Rightarrow> nat" where
  "round_up a n = (n + a - 1) div a * a"

fun align_of :: "ctype \<Rightarrow> nat" where
  "align_of (Prim n) = n"
| "align_of (Arr t n) = align_of t"
| "align_of (Struct a fs) = fold max (map (\<lambda>(f, t). align_of t) fs) a"
| "align_of (Union a fs) = fold max (map (\<lambda>(f, t). align_of t) fs) a"

text \<open>The offsets of fields given by size and alignment, from the first free offset on, and the end of
  the last field.\<close>

fun place :: "(nat \<times> nat) list \<Rightarrow> nat \<Rightarrow> nat list" where
  "place [] n = []"
| "place ((sz, al) # fs) n = round_up al n # place fs (round_up al n + sz)"

fun extent :: "(nat \<times> nat) list \<Rightarrow> nat \<Rightarrow> nat" where
  "extent [] n = n"
| "extent ((sz, al) # fs) n = extent fs (round_up al n + sz)"

fun size_of :: "ctype \<Rightarrow> nat" where
  "size_of (Prim n) = n"
| "size_of (Arr t n) = size_of t * n"
| "size_of (Struct a fs) =
     round_up (align_of (Struct a fs)) (extent (map (\<lambda>(f, t). (size_of t, align_of t)) fs) 0)"
| "size_of (Union a fs) = round_up (align_of (Union a fs)) (fold max (map (\<lambda>(f, t). size_of t) fs) 0)"

fun field_offsets :: "ctype \<Rightarrow> (string \<times> nat \<times> ctype) list" where
  "field_offsets (Struct a fs) =
     zip (map fst fs) (zip (place (map (\<lambda>(f, t). (size_of t, align_of t)) fs) 0) (map snd fs))"
| "field_offsets (Union a fs) = map (\<lambda>(f, t). (f, 0, t)) fs"
| "field_offsets t = []"

text \<open>The offset of a field given by its path (\<open>a.b.c\<close>), with its type.\<close>

fun locate :: "ctype \<Rightarrow> string list \<Rightarrow> (nat \<times> ctype) option" where
  "locate t [] = Some (0, t)"
| "locate t (f # path) =
     Option.bind (map_of (field_offsets t) f) (\<lambda>(off, u).
     map_option (\<lambda>(o', v). (off + o', v)) (locate u path))"

definition offset_of :: "ctype \<Rightarrow> string list \<Rightarrow> nat" where
  "offset_of t path = (case locate t path of Some (off, u) \<Rightarrow> off | None \<Rightarrow> 0)"

section \<open>Structure values\<close>

text \<open>\<open>std::mem::zeroed\<close>, and the assignment of a field: the bytes of the value replace those of the field.\<close>

definition zeroed :: "ctype \<Rightarrow> u8 list" where
  "zeroed t = replicate (size_of t) 0"

definition poke :: "nat \<Rightarrow> u8 list \<Rightarrow> u8 list \<Rightarrow> u8 list" where
  "poke off v d = take off d @ v @ drop (off + length v) d"

definition peek :: "u8 list \<Rightarrow> nat \<Rightarrow> nat \<Rightarrow> u8 list" where
  "peek d off n = take n (drop off d)"

definition assign :: "ctype \<Rightarrow> string list \<Rightarrow> u8 list \<Rightarrow> u8 list \<Rightarrow> u8 list" where
  "assign t path v d = poke (offset_of t path) v d"

section \<open>Types of the kernel interface\<close>

abbreviation UCHAR :: ctype where "UCHAR \<equiv> Prim 1"
abbreviation USHORT :: ctype where "USHORT \<equiv> Prim 2"
abbreviation ULONG :: ctype where "ULONG \<equiv> Prim 4"
abbreviation LONG :: ctype where "LONG \<equiv> Prim 4"
abbreviation LONGLONG :: ctype where "LONGLONG \<equiv> Prim 8"
abbreviation ULONGLONG :: ctype where "ULONGLONG \<equiv> Prim 8"
abbreviation PVOID :: ctype where "PVOID \<equiv> Prim 8"

definition LIST_ENTRY :: ctype where
  "LIST_ENTRY = Struct 1 [(''Flink'', ULONGLONG), (''Blink'', ULONGLONG)]"

definition UNICODE_STRING :: ctype where
  "UNICODE_STRING = Struct 1 [(''Length'', USHORT), (''MaximumLength'', USHORT), (''Buffer'', ULONGLONG)]"

definition GUID :: ctype where
  "GUID = Struct 1 [(''Data1'', ULONG), (''Data2'', USHORT), (''Data3'', USHORT), (''Data4'', Arr UCHAR 8)]"

definition NLS_DATA_BLOCK :: ctype where
  "NLS_DATA_BLOCK = Struct 1
     [(''AnsiCodePageData'', PVOID), (''OemCodePageData'', PVOID), (''UnicodeCaseTableData'', PVOID),
      (''AppXDefaultRegion'', PVOID), (''DefaultLocale'', PVOID)]"

definition LARGE_INTEGER_u :: ctype where
  "LARGE_INTEGER_u = Struct 1 [(''LowPart'', ULONG), (''HighPart'', LONG)]"

definition LARGE_INTEGER :: ctype where
  "LARGE_INTEGER = Union 1 [(''QuadPart'', LONGLONG), (''u'', LARGE_INTEGER_u)]"

section \<open>The layout is a layout\<close>

lemma round_up_ge: "0 < a \<Longrightarrow> n \<le> round_up a n"
proof -
  assume a: "0 < a"
  have "n + a - 1 = (n + a - 1) div a * a + (n + a - 1) mod a" by simp
  moreover have "(n + a - 1) mod a < a" using a by simp
  ultimately show ?thesis unfolding round_up_def by linarith
qed

lemma round_up_dvd: "a dvd round_up a n"
  by (simp add: round_up_def)

lemma round_up_lt: "0 < a \<Longrightarrow> round_up a n < n + a"
proof -
  assume "0 < a"
  moreover have "round_up a n \<le> n + a - 1" unfolding round_up_def by simp
  ultimately show ?thesis by linarith
qed

text \<open>Offsets computed for a list of fields: each is aligned, at or after the start, and the field ends
  before the next begins and before the end of the whole.\<close>

lemma length_place [simp]: "length (place fs n) = length fs"
  by (induction fs n rule: place.induct) auto

lemma extent_ge: "\<forall>(sz, al)\<in>set fs. 0 < al \<Longrightarrow> n \<le> extent fs n"
proof (induction fs n rule: extent.induct)
  case (2 sz al fs n)
  then have "n \<le> round_up al n" "round_up al n + sz \<le> extent fs (round_up al n + sz)"
    by (auto simp: round_up_ge)
  then show ?case by simp
qed simp

lemma place_sound:
  "\<forall>(sz, al)\<in>set fs. 0 < al \<Longrightarrow> i < length fs \<Longrightarrow>
   snd (fs ! i) dvd place fs n ! i \<and> n \<le> place fs n ! i \<and>
   place fs n ! i + fst (fs ! i) \<le> (if Suc i < length fs then place fs n ! Suc i else extent fs n)"
proof (induction fs n arbitrary: i rule: place.induct)
  case (2 sz al fs n)
  let ?o = "round_up al n"
  have pos: "0 < al" "\<forall>(sz, al)\<in>set fs. 0 < al" using "2.prems" by auto
  then have o: "n \<le> ?o" "al dvd ?o" by (simp_all add: round_up_ge round_up_dvd)
  show ?case
  proof (cases i)
    case 0
    have "fs \<noteq> [] \<Longrightarrow> ?o + sz \<le> place fs (?o + sz) ! 0" using "2.IH" [OF pos(2), of 0] by simp
    then show ?thesis using 0 o extent_ge [OF pos(2), of "?o + sz"] by (cases fs) auto
  next
    case (Suc k)
    then show ?thesis using "2.IH" [OF pos(2), of k] "2.prems" o by auto
  qed
qed simp

section \<open>Reading assigned values\<close>

lemma length_poke: "off + length v \<le> length d \<Longrightarrow> length (poke off v d) = length d"
  by (simp add: poke_def)

lemma peek_poke_same: "off + length v \<le> length d \<Longrightarrow> length v = n \<Longrightarrow> peek (poke off v d) off n = v"
  by (auto simp: poke_def peek_def)

lemma peek_poke_other:
  assumes "off + length v \<le> length d" and "b + n \<le> off \<or> off + length v \<le> b"
  shows "peek (poke off v d) b n = peek d b n"
  using assms(2)
proof
  assume "b + n \<le> off"
  then have "n \<le> off - b" "b \<le> off" by simp_all
  then show ?thesis using assms(1) by (simp add: poke_def peek_def drop_take)
next
  assume "off + length v \<le> b"
  then show ?thesis using assms(1) by (simp add: poke_def peek_def)
qed

lemma peek_zeroed: "off + n \<le> sz \<Longrightarrow> peek (replicate sz 0) off n = replicate n 0"
  by (simp add: peek_def min_def)

lemma load_store_peek:
  "off \<le> b \<Longrightarrow> b + n \<le> off + length d \<Longrightarrow> load (store m off d) b n = peek d (b - off) n"
  by (simp add: peek_def load_store_inside)

lemma load_struct:
  "off + n \<le> length d \<Longrightarrow> load (store m p d) (p + off) n = peek d off n"
  by (simp add: load_store_peek)

lemma load_struct0: "n \<le> length d \<Longrightarrow> load (store m p d) p n = peek d 0 n"
  using load_struct [of 0 n d m p] by simp

section \<open>The two views of a large integer\<close>

lemma LARGE_INTEGER_layout:
  "size_of LARGE_INTEGER = 8" "align_of LARGE_INTEGER = 8" "offset_of LARGE_INTEGER [''QuadPart''] = 0"
  "offset_of LARGE_INTEGER [''u'', ''LowPart''] = 0" "offset_of LARGE_INTEGER [''u'', ''HighPart''] = 4"
  by (simp_all add: LARGE_INTEGER_def LARGE_INTEGER_u_def offset_of_def round_up_def)

lemma le64_halves:
  "le64 v = le32 (ucast v) @ le32 (ucast (drop_bit 32 v))"
proof (rule nth_equalityI)
  fix i assume "i < length (le64 v)"
  then have i: "i < 8" by simp
  show "le64 v ! i = (le32 (ucast v) @ le32 (ucast (drop_bit 32 v))) ! i"
  proof (cases "i < 4")
    case False
    then obtain k where "i = 4 + k" using le_Suc_ex not_less by blast
    with i show ?thesis by (auto simp: nth_append nth_to_le bit_simps algebra_simps intro!: bit_word_eqI)
  qed (auto simp: nth_append nth_to_le bit_simps intro!: bit_word_eqI)
qed simp

text \<open>Writing the two parts of a large integer writes the whole, and the other way round.\<close>

lemma large_integer_parts:
  "length d = 8 \<Longrightarrow>
   assign LARGE_INTEGER [''u'', ''HighPart''] (le32 (ucast (drop_bit 32 v))) (assign LARGE_INTEGER [''u'', ''LowPart''] (le32 (ucast v)) d) =
   assign LARGE_INTEGER [''QuadPart''] (le64 v) d"
  by (simp add: assign_def LARGE_INTEGER_layout poke_def le64_halves)

end
