(* ===== verification/LoaderBlock.thy ===== *)
theory LoaderBlock
  imports NtTypes RustText
begin

unbundle bit_operations_syntax

text \<open>
  The kernel structures of \<open>src/loaderblock.rs\<close> and the functions that fill them in: the processor
  control region and block, the loader parameter block with its memory descriptors, its extension,
  and the module entries. Each function builds the bytes of a zeroed structure, assigns its fields
  and writes it to guest memory, as the code does; the field offsets are computed from the structure
  definitions, not taken from their comments.
\<close>

section \<open>Structures\<close>

datatype TYPE_OF_MEMORY =
    LoaderFree | LoaderBad | LoaderLoadedProgram
  | LoaderFirmwareTemporary | LoaderFirmwarePermanent | LoaderOsloaderHeap
  | LoaderOsloaderStack | LoaderSystemCode | LoaderHalCode
  | LoaderBootLdrPage | LoaderConsoleInPage | LoaderConsoleOutPage
  | LoaderStartupPcrPage | LoaderStartupStackPage | LoaderStartupDataPage
  | LoaderMemoryData | LoaderMemoryTemp | LoaderMemorySpecial
  | LoaderMemoryMax

primrec type_code :: "TYPE_OF_MEMORY \<Rightarrow> u32" where
  "type_code LoaderFree = 0"
| "type_code LoaderBad = 1"
| "type_code LoaderLoadedProgram = 2"
| "type_code LoaderFirmwareTemporary = 3"
| "type_code LoaderFirmwarePermanent = 4"
| "type_code LoaderOsloaderHeap = 5"
| "type_code LoaderOsloaderStack = 6"
| "type_code LoaderSystemCode = 7"
| "type_code LoaderHalCode = 8"
| "type_code LoaderBootLdrPage = 9"
| "type_code LoaderConsoleInPage = 10"
| "type_code LoaderConsoleOutPage = 11"
| "type_code LoaderStartupPcrPage = 12"
| "type_code LoaderStartupStackPage = 13"
| "type_code LoaderStartupDataPage = 14"
| "type_code LoaderMemoryData = 15"
| "type_code LoaderMemoryTemp = 16"
| "type_code LoaderMemorySpecial = 17"
| "type_code LoaderMemoryMax = 18"

text \<open>The memory types are ordered by their codes; \<open>LoaderMemoryMax\<close> is the bound of the others.\<close>

lemma type_code_inject: "type_code a = type_code b \<longleftrightarrow> a = b"
  by (cases a; cases b) simp_all

instantiation TYPE_OF_MEMORY :: linorder
begin

definition less_eq_TYPE_OF_MEMORY :: "TYPE_OF_MEMORY \<Rightarrow> TYPE_OF_MEMORY \<Rightarrow> bool" where
  "a \<le> b \<longleftrightarrow> type_code a \<le> type_code b"

definition less_TYPE_OF_MEMORY :: "TYPE_OF_MEMORY \<Rightarrow> TYPE_OF_MEMORY \<Rightarrow> bool" where
  "a < b \<longleftrightarrow> type_code a < type_code b"

instance
  by standard (auto simp: less_eq_TYPE_OF_MEMORY_def less_TYPE_OF_MEMORY_def type_code_inject [symmetric])

end

definition MEMORY_ALLOCATION_DESCRIPTOR :: ctype where
  "MEMORY_ALLOCATION_DESCRIPTOR = Struct 1
     [(''ListEntry'', LIST_ENTRY), (''MemoryType'', Prim 4), (''BasePage'', ULONGLONG),
      (''PageCount'', ULONGLONG)]"

definition LDR_DATA_TABLE_ENTRY :: ctype where
  "LDR_DATA_TABLE_ENTRY = Struct 1
     [(''InLoadOrderLinks'', LIST_ENTRY), (''InMemoryOrderLinks'', LIST_ENTRY),
      (''InInitializationOrderLinks'', LIST_ENTRY), (''DllBase'', PVOID), (''EntryPoint'', PVOID),
      (''SizeOfImage'', ULONG), (''Padding_After_Size'', ULONG), (''FullDllName'', UNICODE_STRING),
      (''BaseDllName'', UNICODE_STRING), (''Flags'', ULONG), (''ObsoleteLoadCount'', USHORT),
      (''TlsIndex'', USHORT), (''HashLinks'', LIST_ENTRY), (''TimeDateStamp'', ULONG),
      (''EntryPointActivationContext'', PVOID), (''Lock'', PVOID), (''DdagNode'', PVOID),
      (''NodeModuleLink'', LIST_ENTRY), (''LoadContext'', PVOID), (''ParentDllBase'', PVOID),
      (''SwitchBackContext'', PVOID), (''BaseAddressIndexNode'', Arr UCHAR 24),
      (''MappingInfoIndexNode'', Arr UCHAR 24), (''OriginalBase'', ULONGLONG),
      (''LoadTime'', ULONGLONG), (''BaseNameHashValue'', ULONG), (''LoadReason'', ULONG),
      (''ImplicitPathOptions'', ULONG), (''ReferenceCount'', ULONG),
      (''DependentLoadFlags'', ULONG), (''SigningLevel'', UCHAR), (''Padding_Final'', Arr UCHAR 3)]"

definition KSPECIAL_REGISTERS :: ctype where
  "KSPECIAL_REGISTERS = Struct 1
     [(''Cr0'', ULONGLONG), (''Cr2'', ULONGLONG), (''Cr3'', ULONGLONG), (''Cr4'', ULONGLONG),
      (''KernelDr0'', ULONGLONG), (''KernelDr1'', ULONGLONG), (''KernelDr2'', ULONGLONG),
      (''KernelDr3'', ULONGLONG), (''KernelDr6'', ULONGLONG), (''KernelDr7'', ULONGLONG),
      (''Gdtr'', Arr UCHAR 16), (''Idtr'', Arr UCHAR 16), (''Tr'', USHORT), (''Ldtr'', USHORT),
      (''MxCsr'', ULONG), (''DebugControl'', ULONGLONG), (''LastBranchToRip'', ULONGLONG),
      (''LastBranchFromRip'', ULONGLONG), (''LastExceptionToRip'', ULONGLONG),
      (''LastExceptionFromRip'', ULONGLONG), (''Cr8'', ULONGLONG), (''MsrGsBase'', ULONGLONG),
      (''MsrGsSwap'', ULONGLONG), (''MsrStar'', ULONGLONG), (''MsrLStar'', ULONGLONG),
      (''MsrCStar'', ULONGLONG), (''MsrSyscallMask'', ULONGLONG), (''Xcr0'', ULONGLONG),
      (''MsrFsBase'', ULONGLONG), (''SpecialPadding0'', ULONGLONG)]"

definition KPROCESSOR_STATE :: ctype where
  "KPROCESSOR_STATE = Struct 1
     [(''SpecialRegisters'', KSPECIAL_REGISTERS), (''ContextFrame'', Arr UCHAR 1232)]"

definition KPRCB :: ctype where
  "KPRCB = Struct 64
     [(''MxCsr'', ULONG), (''LegacyNumber'', UCHAR), (''ReservedMustBeZero'', UCHAR),
      (''InterruptRequest'', UCHAR), (''IdleHalt'', UCHAR), (''CurrentThread'', PVOID),
      (''NextThread'', PVOID), (''IdleThread'', PVOID), (''NestingLevel'', UCHAR),
      (''ClockOwner'', UCHAR), (''PendingTickFlags'', UCHAR), (''IdleState'', UCHAR),
      (''Number'', ULONG), (''RspBase'', ULONGLONG), (''PrcbLock'', ULONGLONG),
      (''PriorityState'', PVOID), (''CpuType'', UCHAR), (''CpuID'', UCHAR), (''CpuStep'', USHORT),
      (''MHz'', ULONG), (''HalReserved'', Arr ULONGLONG 8), (''MinorVersion'', USHORT),
      (''MajorVersion'', USHORT), (''BuildType'', UCHAR), (''CpuVendor'', UCHAR),
      (''LegacyCoresPerPhysicalProcessor'', UCHAR), (''LegacyLogicalProcessorsPerCore'', UCHAR),
      (''TscFrequency'', ULONGLONG), (''CoresPerPhysicalProcessor'', ULONG),
      (''LogicalProcessorsPerCore'', ULONG), (''PrcbPad04'', Arr ULONGLONG 4),
      (''ParentNode'', PVOID), (''GroupSetMember'', ULONGLONG), (''Group'', UCHAR),
      (''GroupIndex'', UCHAR), (''PrcbPad05'', Arr UCHAR 2), (''InitialApicId'', ULONG),
      (''ScbOffset'', ULONG), (''ApicMask'', ULONG), (''AcpiReserved'', PVOID),
      (''CFlushSize'', ULONG), (''PrcbPad11'', Arr ULONGLONG 2),
      (''ProcessorState'', KPROCESSOR_STATE), (''ExtendedSupervisorState'', PVOID),
      (''ProcessorSignature'', ULONG), (''ProcessorFlags'', ULONG), (''PrcbPad12a'', ULONGLONG),
      (''PrcbPad12'', Arr ULONGLONG 3)]"

definition KPCR :: ctype where
  "KPCR = Struct 16
     [(''GdtBase'', PVOID), (''TssBase'', PVOID), (''UserRsp'', ULONGLONG), (''SelfPcr'', PVOID),
      (''CurrentPrcb'', PVOID), (''LockArray'', PVOID), (''Used_Self'', PVOID),
      (''IdtBase'', PVOID), (''Unused'', Arr ULONGLONG 2), (''Irql'', UCHAR),
      (''SecondLevelCacheAssociativity'', UCHAR), (''ObsoleteNumber'', UCHAR), (''Fill0'', UCHAR),
      (''Unused0'', Arr ULONG 3), (''MajorVersion'', USHORT), (''MinorVersion'', USHORT),
      (''StallScaleFactor'', ULONG), (''Unused1'', Arr PVOID 3), (''KernelReserved'', Arr ULONG 15),
      (''SecondLevelCacheSize'', ULONG), (''HalReserved'', Arr ULONG 16), (''Unused2'', ULONG),
      (''Padding_Align'', ULONG), (''KdVersionBlock'', PVOID), (''Unused3'', PVOID),
      (''PcrAlign1'', Arr ULONG 24)]"

definition LOADER_PARAMETER_BLOCK :: ctype where
  "LOADER_PARAMETER_BLOCK = Struct 1
     [(''OsMajorVersion'', ULONG), (''OsMinorVersion'', ULONG), (''Size'', ULONG),
      (''OsLoaderSecurityVersion'', ULONG), (''LoadOrderListHead'', LIST_ENTRY),
      (''MemoryDescriptorListHead'', LIST_ENTRY), (''BootDriverListHead'', LIST_ENTRY),
      (''EarlyLaunchListHead'', LIST_ENTRY), (''CoreDriverListHead'', LIST_ENTRY),
      (''CoreExtensionsDriverListHead'', LIST_ENTRY), (''TpmCoreDriverListHead'', LIST_ENTRY),
      (''KernelStack'', ULONGLONG), (''Prcb'', ULONGLONG), (''Process'', ULONGLONG),
      (''Thread'', ULONGLONG), (''KernelStackSize'', ULONG), (''RegistryLength'', ULONG),
      (''RegistryBase'', PVOID), (''ConfigurationRoot'', PVOID), (''ArcBootDeviceName'', PVOID),
      (''ArcHalDeviceName'', PVOID), (''NtBootPathName'', PVOID), (''NtHalPathName'', PVOID),
      (''LoadOptions'', PVOID), (''NlsData'', PVOID), (''ArcDiskInformation'', PVOID),
      (''Extension'', PVOID), (''u'', Arr UCHAR 16), (''FirmwareInformation'', Arr UCHAR 64),
      (''OsBootstatPathName'', PVOID), (''ArcOSDataDeviceName'', PVOID),
      (''ArcWindowsSysPartName'', PVOID)]"

definition LOADER_PARAMETER_EXTENSION :: ctype where
  "LOADER_PARAMETER_EXTENSION = Struct 1
     [(''Size'', ULONG), (''Profile'', Arr UCHAR 20), (''EmInfFileImage'', PVOID),
      (''EmInfFileSize'', ULONG), (''TriageDumpBlock'', PVOID), (''HeadlessLoaderBlock'', PVOID),
      (''SMBiosEPSHeader'', PVOID), (''DrvDBImage'', PVOID), (''DrvDBSize'', ULONG),
      (''DrvDBPatchImage'', PVOID), (''DrvDBPatchSize'', ULONG), (''NetworkLoaderBlock'', PVOID),
      (''FirmwareDescriptorListHead'', LIST_ENTRY), (''AcpiTable'', PVOID),
      (''AcpiTableSize'', ULONG), (''Bitfields'', ULONG), (''LoaderPerformanceData'', Arr UCHAR 96),
      (''BootApplicationPersistentData'', LIST_ENTRY), (''Padding1'', Arr UCHAR 2256),
      (''ProcessorCounterFrequency'', ULONGLONG), (''HypervisorExtension'', Arr UCHAR 64),
      (''HardwareConfigurationId'', Arr UCHAR 16), (''HalExtensionModuleList'', LIST_ENTRY),
      (''SystemTime'', ULONGLONG), (''TimeStampAtSystemTimeRead'', ULONGLONG),
      (''BootFlags'', ULONGLONG), (''InternalBootFlags'', ULONGLONG), (''WfsFPData'', PVOID),
      (''WfsFPDataSize'', ULONG), (''BugcheckParameters'', Arr UCHAR 40), (''ApiSetSchema'', PVOID),
      (''ApiSetSchemaSize'', ULONG), (''ApiSetSchemaExtensions'', LIST_ENTRY),
      (''PaddingFinal'', Arr UCHAR 912), (''MajorRelease'', ULONG), (''MinorRelease'', ULONG)]"

section \<open>Processor control region\<close>

definition kpcr_image :: "u64 \<Rightarrow> u64 \<Rightarrow> u64 \<Rightarrow> u64 \<Rightarrow> u64 \<Rightarrow> u8 list" where
  "kpcr_image vaddr prcb_v gdt_v idt_v tss_v =
     fold (\<lambda>(f, v). assign KPCR [f] v)
       [(''GdtBase'', le64 gdt_v), (''TssBase'', le64 tss_v), (''SelfPcr'', le64 vaddr),
        (''CurrentPrcb'', le64 prcb_v), (''Used_Self'', le64 vaddr), (''IdtBase'', le64 idt_v),
        (''MajorVersion'', le16 1), (''MinorVersion'', le16 1), (''StallScaleFactor'', le32 0x24)]
       (zeroed KPCR)"

definition prcb_image :: "u64 \<Rightarrow> u8 list" where
  "prcb_image stack_v =
     fold (\<lambda>(path, v). assign KPRCB path v)
       [([''MxCsr''], le32 0x1F80), ([''RspBase''], le64 stack_v), ([''MinorVersion''], le16 19041),
        ([''MajorVersion''], le16 10), ([''TscFrequency''], le64 3600000000), ([''MHz''], le32 3600),
        ([''ProcessorState'', ''SpecialRegisters'', ''Cr3''], le64 0x8102000),
        ([''ProcessorState'', ''SpecialRegisters'', ''Cr0''], le64 0x80050033),
        ([''ProcessorState'', ''SpecialRegisters'', ''Cr4''], le64 0x6f8)]
       (zeroed KPRCB)"

definition Kpcr_setup ::
  "'k vm \<Rightarrow> u64 \<Rightarrow> u64 \<Rightarrow> u64 \<Rightarrow> u64 \<Rightarrow> u64 \<Rightarrow> u64 \<Rightarrow> 'k vm res" where
  "Kpcr_setup vm vaddr paddr gdt_v idt_v tss_v stack_v =
     bind_r (add_chk vaddr 0x180) (\<lambda>prcb_v.
     bind_r (write_memory vm paddr (kpcr_image vaddr prcb_v gdt_v idt_v tss_v)) (\<lambda>vm.
     bind_r (add_chk paddr 0x180) (\<lambda>prcb_p.
     bind_r (write_memory vm prcb_p (prcb_image stack_v)) (\<lambda>vm.
     bind_r (add_chk prcb_p 0xc8) (\<lambda>group_p.
     bind_r (ok_or_keep vm (write_memory vm group_p (le64 1))) (\<lambda>vm.
     bind_r (add_chk prcb_p 0xd4) (\<lambda>apic_p.
     ok_or_keep vm (write_memory vm apic_p (le32 0)))))))))"

section \<open>Loader parameter block\<close>

definition lpb_image :: "u64 \<Rightarrow> u64 \<Rightarrow> u64 \<Rightarrow> u64 \<Rightarrow> u32 \<Rightarrow> u64 \<Rightarrow> u32 \<Rightarrow> u64 \<Rightarrow> u64 \<Rightarrow> u64 \<Rightarrow> u8 list" where
  "lpb_image stack_v prcb_v process thread stack_size registry_v registry_size nls_v ext_v options_v =
     fold (\<lambda>(f, v). assign LOADER_PARAMETER_BLOCK [f] v)
       [(''OsMajorVersion'', le32 10), (''Size'', le32 0x160), (''KernelStack'', le64 stack_v),
        (''Prcb'', le64 prcb_v), (''Process'', le64 process), (''Thread'', le64 thread),
        (''KernelStackSize'', le32 stack_size), (''RegistryLength'', le32 registry_size),
        (''RegistryBase'', le64 registry_v), (''NlsData'', le64 nls_v), (''Extension'', le64 ext_v),
        (''LoadOptions'', le64 options_v)]
       (zeroed LOADER_PARAMETER_BLOCK)"

definition Lpb_setup ::
  "'k vm \<Rightarrow> u64 \<Rightarrow> u64 \<Rightarrow> u64 \<Rightarrow> u64 \<Rightarrow> u32 \<Rightarrow> u64 \<Rightarrow> u32 \<Rightarrow> u64 \<Rightarrow> 'k vm res" where
  "Lpb_setup vm lpb_v lpb_p prcb_v stack_v stack_size registry_v registry_size nls_v =
     bind_r (sub_chk prcb_v 0x180) (\<lambda>kpcr_v.
     bind_r (add_chk kpcr_v 0x6000) (\<lambda>process.
     bind_r (add_chk kpcr_v 0x5000) (\<lambda>thread.
     bind_r (add_chk lpb_v 0x8000) (\<lambda>ext_v.
     bind_r (add_chk lpb_p 0xC000) (\<lambda>options_p.
     bind_r (ok_or_keep vm (write_memory vm options_p [0])) (\<lambda>vm.
     bind_r (add_chk lpb_v 0xC000) (\<lambda>options_v.
     write_memory vm lpb_p
       (take 0x160 (lpb_image stack_v prcb_v process thread stack_size registry_v registry_size
                      nls_v ext_v options_v)))))))))"

definition descriptor_image :: "u64 \<Rightarrow> u64 \<Rightarrow> u32 \<Rightarrow> u8 list" where
  "descriptor_image base_addr sz mem_type =
     fold (\<lambda>(f, v). assign MEMORY_ALLOCATION_DESCRIPTOR [f] v)
       [(''MemoryType'', le32 mem_type), (''BasePage'', le64 (drop_bit 12 base_addr)),
        (''PageCount'', le64 (drop_bit 12 sz))]
       (zeroed MEMORY_ALLOCATION_DESCRIPTOR)"

definition add_memory :: "'k vm \<Rightarrow> u64 \<Rightarrow> u64 \<Rightarrow> u64 \<Rightarrow> u32 \<Rightarrow> 'k vm res" where
  "add_memory vm entry_p base_addr sz mem_type =
     write_memory vm entry_p (take 0x28 (descriptor_image base_addr sz mem_type))"

section \<open>Loader parameter extension\<close>

definition OFFSET_IN_LPB :: u64 where
  "OFFSET_IN_LPB = 0x8000"

definition extension_image :: "u64 \<Rightarrow> u8 list" where
  "extension_image list_head_v =
     fold (\<lambda>(path, v). assign LOADER_PARAMETER_EXTENSION path v)
       [([''Size''], le32 0xE38), ([''Bitfields''], le32 0x4000), ([''MajorRelease''], le32 10),
        ([''MinorRelease''], le32 0), ([''HalExtensionModuleList'', ''Flink''], le64 list_head_v),
        ([''HalExtensionModuleList'', ''Blink''], le64 list_head_v)]
       (zeroed LOADER_PARAMETER_EXTENSION)"

definition Extension_setup :: "'k vm \<Rightarrow> u64 \<Rightarrow> u64 \<Rightarrow> 'k vm res" where
  "Extension_setup vm ext_p ext_v =
     bind_r (add_chk ext_v 0xA18) (\<lambda>list_head_v.
     write_memory vm ext_p (take 0xE38 (extension_image list_head_v)))"

definition set_acpi :: "'k vm \<Rightarrow> u64 \<Rightarrow> u64 \<Rightarrow> 'k vm res" where
  "set_acpi vm ext_p rsdp_v =
     bind_r (add_chk ext_p 0x78) (\<lambda>table_p.
     bind_r (write_memory vm table_p (le64 rsdp_v)) (\<lambda>vm.
     bind_r (add_chk ext_p 0x80) (\<lambda>size_p.
     write_memory vm size_p (le32 36))))"

definition set_apiset :: "'k vm \<Rightarrow> u64 \<Rightarrow> u64 \<Rightarrow> u32 \<Rightarrow> 'k vm res" where
  "set_apiset vm ext_p apiset_v sz =
     bind_r (add_chk ext_p 0xA80) (\<lambda>schema_p.
     bind_r (write_memory vm schema_p (le64 apiset_v)) (\<lambda>vm.
     bind_r (add_chk ext_p 0xA88) (\<lambda>size_p.
     write_memory vm size_p (le32 sz))))"

section \<open>Module entries\<close>

definition name_bytes :: "rstring \<Rightarrow> u8 list" where
  "name_bytes name = concat (map le16 (encode_utf16 name))"

definition ldr_image :: "u64 \<Rightarrow> u64 \<Rightarrow> u32 \<Rightarrow> u16 \<Rightarrow> u16 \<Rightarrow> u64 \<Rightarrow> u8 list" where
  "ldr_image img_base entry_point sz len max_len name_v =
     fold (\<lambda>(path, v). assign LDR_DATA_TABLE_ENTRY path v)
       [([''DllBase''], le64 img_base), ([''EntryPoint''], le64 entry_point),
        ([''SizeOfImage''], le32 sz), ([''Flags''], le32 0x40004), ([''ObsoleteLoadCount''], le16 1),
        ([''FullDllName'', ''Length''], le16 len), ([''FullDllName'', ''MaximumLength''], le16 max_len),
        ([''FullDllName'', ''Buffer''], le64 name_v), ([''BaseDllName'', ''Length''], le16 len),
        ([''BaseDllName'', ''MaximumLength''], le16 max_len), ([''BaseDllName'', ''Buffer''], le64 name_v)]
       (zeroed LDR_DATA_TABLE_ENTRY)"

definition add_module :: "'k vm \<Rightarrow> u64 \<Rightarrow> u64 \<Rightarrow> u64 \<Rightarrow> u64 \<Rightarrow> u32 \<Rightarrow> rstring \<Rightarrow> 'k vm res" where
  "add_module vm entry_v entry_p img_base entry_point sz name =
     bind_r (add_chk entry_v 0x150) (\<lambda>name_v.
     let name_u16 = name_bytes name;
         len = (of_nat (length name_u16) :: u16)
     in bind_r (add_chk len 2) (\<lambda>max_len.
        bind_r (write_memory vm entry_p (take 0x120 (ldr_image img_base entry_point sz len max_len name_v))) (\<lambda>vm.
        bind_r (add_chk entry_p 0x150) (\<lambda>name_p.
        write_memory vm name_p name_u16))))"

section \<open>Layouts\<close>

text \<open>The offsets the \<open>repr(C)\<close> rules give to the fields.\<close>

lemmas structs = LIST_ENTRY_def UNICODE_STRING_def MEMORY_ALLOCATION_DESCRIPTOR_def LDR_DATA_TABLE_ENTRY_def KSPECIAL_REGISTERS_def KPROCESSOR_STATE_def KPRCB_def KPCR_def LOADER_PARAMETER_BLOCK_def LOADER_PARAMETER_EXTENSION_def
lemma descriptor_offsets:
  "field_offsets MEMORY_ALLOCATION_DESCRIPTOR =
     [(''ListEntry'', 0x0, LIST_ENTRY), (''MemoryType'', 0x10, Prim 4),
      (''BasePage'', 0x18, ULONGLONG), (''PageCount'', 0x20, ULONGLONG)]"
  by (simp add: structs round_up_def)

lemma ldr_offsets:
  "field_offsets LDR_DATA_TABLE_ENTRY =
     [(''InLoadOrderLinks'', 0x0, LIST_ENTRY), (''InMemoryOrderLinks'', 0x10, LIST_ENTRY),
      (''InInitializationOrderLinks'', 0x20, LIST_ENTRY), (''DllBase'', 0x30, PVOID),
      (''EntryPoint'', 0x38, PVOID), (''SizeOfImage'', 0x40, ULONG),
      (''Padding_After_Size'', 0x44, ULONG), (''FullDllName'', 0x48, UNICODE_STRING),
      (''BaseDllName'', 0x58, UNICODE_STRING), (''Flags'', 0x68, ULONG),
      (''ObsoleteLoadCount'', 0x6c, USHORT), (''TlsIndex'', 0x6e, USHORT),
      (''HashLinks'', 0x70, LIST_ENTRY), (''TimeDateStamp'', 0x80, ULONG),
      (''EntryPointActivationContext'', 0x88, PVOID), (''Lock'', 0x90, PVOID),
      (''DdagNode'', 0x98, PVOID), (''NodeModuleLink'', 0xa0, LIST_ENTRY),
      (''LoadContext'', 0xb0, PVOID), (''ParentDllBase'', 0xb8, PVOID),
      (''SwitchBackContext'', 0xc0, PVOID), (''BaseAddressIndexNode'', 0xc8, Arr UCHAR 24),
      (''MappingInfoIndexNode'', 0xe0, Arr UCHAR 24), (''OriginalBase'', 0xf8, ULONGLONG),
      (''LoadTime'', 0x100, ULONGLONG), (''BaseNameHashValue'', 0x108, ULONG),
      (''LoadReason'', 0x10c, ULONG), (''ImplicitPathOptions'', 0x110, ULONG),
      (''ReferenceCount'', 0x114, ULONG), (''DependentLoadFlags'', 0x118, ULONG),
      (''SigningLevel'', 0x11c, UCHAR), (''Padding_Final'', 0x11d, Arr UCHAR 3)]"
  by (simp add: structs round_up_def)

lemma special_offsets:
  "field_offsets KSPECIAL_REGISTERS =
     [(''Cr0'', 0x0, ULONGLONG), (''Cr2'', 0x8, ULONGLONG), (''Cr3'', 0x10, ULONGLONG),
      (''Cr4'', 0x18, ULONGLONG), (''KernelDr0'', 0x20, ULONGLONG),
      (''KernelDr1'', 0x28, ULONGLONG), (''KernelDr2'', 0x30, ULONGLONG),
      (''KernelDr3'', 0x38, ULONGLONG), (''KernelDr6'', 0x40, ULONGLONG),
      (''KernelDr7'', 0x48, ULONGLONG), (''Gdtr'', 0x50, Arr UCHAR 16),
      (''Idtr'', 0x60, Arr UCHAR 16), (''Tr'', 0x70, USHORT), (''Ldtr'', 0x72, USHORT),
      (''MxCsr'', 0x74, ULONG), (''DebugControl'', 0x78, ULONGLONG),
      (''LastBranchToRip'', 0x80, ULONGLONG), (''LastBranchFromRip'', 0x88, ULONGLONG),
      (''LastExceptionToRip'', 0x90, ULONGLONG), (''LastExceptionFromRip'', 0x98, ULONGLONG),
      (''Cr8'', 0xa0, ULONGLONG), (''MsrGsBase'', 0xa8, ULONGLONG),
      (''MsrGsSwap'', 0xb0, ULONGLONG), (''MsrStar'', 0xb8, ULONGLONG),
      (''MsrLStar'', 0xc0, ULONGLONG), (''MsrCStar'', 0xc8, ULONGLONG),
      (''MsrSyscallMask'', 0xd0, ULONGLONG), (''Xcr0'', 0xd8, ULONGLONG),
      (''MsrFsBase'', 0xe0, ULONGLONG), (''SpecialPadding0'', 0xe8, ULONGLONG)]"
  by (simp add: structs round_up_def)

lemma state_offsets:
  "field_offsets KPROCESSOR_STATE =
     [(''SpecialRegisters'', 0x0, KSPECIAL_REGISTERS), (''ContextFrame'', 0xf0, Arr UCHAR 1232)]"
  by (simp add: structs round_up_def)

lemma prcb_offsets:
  "field_offsets KPRCB =
     [(''MxCsr'', 0x0, ULONG), (''LegacyNumber'', 0x4, UCHAR), (''ReservedMustBeZero'', 0x5, UCHAR),
      (''InterruptRequest'', 0x6, UCHAR), (''IdleHalt'', 0x7, UCHAR),
      (''CurrentThread'', 0x8, PVOID), (''NextThread'', 0x10, PVOID), (''IdleThread'', 0x18, PVOID),
      (''NestingLevel'', 0x20, UCHAR), (''ClockOwner'', 0x21, UCHAR),
      (''PendingTickFlags'', 0x22, UCHAR), (''IdleState'', 0x23, UCHAR), (''Number'', 0x24, ULONG),
      (''RspBase'', 0x28, ULONGLONG), (''PrcbLock'', 0x30, ULONGLONG),
      (''PriorityState'', 0x38, PVOID), (''CpuType'', 0x40, UCHAR), (''CpuID'', 0x41, UCHAR),
      (''CpuStep'', 0x42, USHORT), (''MHz'', 0x44, ULONG), (''HalReserved'', 0x48, Arr ULONGLONG 8),
      (''MinorVersion'', 0x88, USHORT), (''MajorVersion'', 0x8a, USHORT),
      (''BuildType'', 0x8c, UCHAR), (''CpuVendor'', 0x8d, UCHAR),
      (''LegacyCoresPerPhysicalProcessor'', 0x8e, UCHAR),
      (''LegacyLogicalProcessorsPerCore'', 0x8f, UCHAR), (''TscFrequency'', 0x90, ULONGLONG),
      (''CoresPerPhysicalProcessor'', 0x98, ULONG), (''LogicalProcessorsPerCore'', 0x9c, ULONG),
      (''PrcbPad04'', 0xa0, Arr ULONGLONG 4), (''ParentNode'', 0xc0, PVOID),
      (''GroupSetMember'', 0xc8, ULONGLONG), (''Group'', 0xd0, UCHAR),
      (''GroupIndex'', 0xd1, UCHAR), (''PrcbPad05'', 0xd2, Arr UCHAR 2),
      (''InitialApicId'', 0xd4, ULONG), (''ScbOffset'', 0xd8, ULONG), (''ApicMask'', 0xdc, ULONG),
      (''AcpiReserved'', 0xe0, PVOID), (''CFlushSize'', 0xe8, ULONG),
      (''PrcbPad11'', 0xf0, Arr ULONGLONG 2), (''ProcessorState'', 0x100, KPROCESSOR_STATE),
      (''ExtendedSupervisorState'', 0x6c0, PVOID), (''ProcessorSignature'', 0x6c8, ULONG),
      (''ProcessorFlags'', 0x6cc, ULONG), (''PrcbPad12a'', 0x6d0, ULONGLONG),
      (''PrcbPad12'', 0x6d8, Arr ULONGLONG 3)]"
  by (simp add: structs round_up_def)

lemma kpcr_offsets:
  "field_offsets KPCR =
     [(''GdtBase'', 0x0, PVOID), (''TssBase'', 0x8, PVOID), (''UserRsp'', 0x10, ULONGLONG),
      (''SelfPcr'', 0x18, PVOID), (''CurrentPrcb'', 0x20, PVOID), (''LockArray'', 0x28, PVOID),
      (''Used_Self'', 0x30, PVOID), (''IdtBase'', 0x38, PVOID), (''Unused'', 0x40, Arr ULONGLONG 2),
      (''Irql'', 0x50, UCHAR), (''SecondLevelCacheAssociativity'', 0x51, UCHAR),
      (''ObsoleteNumber'', 0x52, UCHAR), (''Fill0'', 0x53, UCHAR), (''Unused0'', 0x54, Arr ULONG 3),
      (''MajorVersion'', 0x60, USHORT), (''MinorVersion'', 0x62, USHORT),
      (''StallScaleFactor'', 0x64, ULONG), (''Unused1'', 0x68, Arr PVOID 3),
      (''KernelReserved'', 0x80, Arr ULONG 15), (''SecondLevelCacheSize'', 0xbc, ULONG),
      (''HalReserved'', 0xc0, Arr ULONG 16), (''Unused2'', 0x100, ULONG),
      (''Padding_Align'', 0x104, ULONG), (''KdVersionBlock'', 0x108, PVOID),
      (''Unused3'', 0x110, PVOID), (''PcrAlign1'', 0x118, Arr ULONG 24)]"
  by (simp add: structs round_up_def)

lemma lpb_offsets:
  "field_offsets LOADER_PARAMETER_BLOCK =
     [(''OsMajorVersion'', 0x0, ULONG), (''OsMinorVersion'', 0x4, ULONG), (''Size'', 0x8, ULONG),
      (''OsLoaderSecurityVersion'', 0xc, ULONG), (''LoadOrderListHead'', 0x10, LIST_ENTRY),
      (''MemoryDescriptorListHead'', 0x20, LIST_ENTRY), (''BootDriverListHead'', 0x30, LIST_ENTRY),
      (''EarlyLaunchListHead'', 0x40, LIST_ENTRY), (''CoreDriverListHead'', 0x50, LIST_ENTRY),
      (''CoreExtensionsDriverListHead'', 0x60, LIST_ENTRY),
      (''TpmCoreDriverListHead'', 0x70, LIST_ENTRY), (''KernelStack'', 0x80, ULONGLONG),
      (''Prcb'', 0x88, ULONGLONG), (''Process'', 0x90, ULONGLONG), (''Thread'', 0x98, ULONGLONG),
      (''KernelStackSize'', 0xa0, ULONG), (''RegistryLength'', 0xa4, ULONG),
      (''RegistryBase'', 0xa8, PVOID), (''ConfigurationRoot'', 0xb0, PVOID),
      (''ArcBootDeviceName'', 0xb8, PVOID), (''ArcHalDeviceName'', 0xc0, PVOID),
      (''NtBootPathName'', 0xc8, PVOID), (''NtHalPathName'', 0xd0, PVOID),
      (''LoadOptions'', 0xd8, PVOID), (''NlsData'', 0xe0, PVOID),
      (''ArcDiskInformation'', 0xe8, PVOID), (''Extension'', 0xf0, PVOID),
      (''u'', 0xf8, Arr UCHAR 16), (''FirmwareInformation'', 0x108, Arr UCHAR 64),
      (''OsBootstatPathName'', 0x148, PVOID), (''ArcOSDataDeviceName'', 0x150, PVOID),
      (''ArcWindowsSysPartName'', 0x158, PVOID)]"
  by (simp add: structs round_up_def)

lemma extension_offsets:
  "field_offsets LOADER_PARAMETER_EXTENSION =
     [(''Size'', 0x0, ULONG), (''Profile'', 0x4, Arr UCHAR 20), (''EmInfFileImage'', 0x18, PVOID),
      (''EmInfFileSize'', 0x20, ULONG), (''TriageDumpBlock'', 0x28, PVOID),
      (''HeadlessLoaderBlock'', 0x30, PVOID), (''SMBiosEPSHeader'', 0x38, PVOID),
      (''DrvDBImage'', 0x40, PVOID), (''DrvDBSize'', 0x48, ULONG),
      (''DrvDBPatchImage'', 0x50, PVOID), (''DrvDBPatchSize'', 0x58, ULONG),
      (''NetworkLoaderBlock'', 0x60, PVOID), (''FirmwareDescriptorListHead'', 0x68, LIST_ENTRY),
      (''AcpiTable'', 0x78, PVOID), (''AcpiTableSize'', 0x80, ULONG), (''Bitfields'', 0x84, ULONG),
      (''LoaderPerformanceData'', 0x88, Arr UCHAR 96),
      (''BootApplicationPersistentData'', 0xe8, LIST_ENTRY), (''Padding1'', 0xf8, Arr UCHAR 2256),
      (''ProcessorCounterFrequency'', 0x9c8, ULONGLONG),
      (''HypervisorExtension'', 0x9d0, Arr UCHAR 64),
      (''HardwareConfigurationId'', 0xa10, Arr UCHAR 16),
      (''HalExtensionModuleList'', 0xa20, LIST_ENTRY), (''SystemTime'', 0xa30, ULONGLONG),
      (''TimeStampAtSystemTimeRead'', 0xa38, ULONGLONG), (''BootFlags'', 0xa40, ULONGLONG),
      (''InternalBootFlags'', 0xa48, ULONGLONG), (''WfsFPData'', 0xa50, PVOID),
      (''WfsFPDataSize'', 0xa58, ULONG), (''BugcheckParameters'', 0xa5c, Arr UCHAR 40),
      (''ApiSetSchema'', 0xa88, PVOID), (''ApiSetSchemaSize'', 0xa90, ULONG),
      (''ApiSetSchemaExtensions'', 0xa98, LIST_ENTRY), (''PaddingFinal'', 0xaa8, Arr UCHAR 912),
      (''MajorRelease'', 0xe38, ULONG), (''MinorRelease'', 0xe3c, ULONG)]"
  by (simp add: structs round_up_def)


lemma struct_sizes:
  "size_of KPCR = 0x180" "size_of KPRCB = 0x700" "size_of KSPECIAL_REGISTERS = 0xF0"
  "size_of KPROCESSOR_STATE = 0x5C0" "size_of LOADER_PARAMETER_BLOCK = 0x160"
  "size_of LOADER_PARAMETER_EXTENSION = 0xE40" "size_of LDR_DATA_TABLE_ENTRY = 0x120"
  "size_of MEMORY_ALLOCATION_DESCRIPTOR = 0x28"
  by (simp_all add: structs round_up_def)

lemma small_offsets:
  "field_offsets LIST_ENTRY = [(''Flink'', 0, ULONGLONG), (''Blink'', 8, ULONGLONG)]"
  "field_offsets UNICODE_STRING = [(''Length'', 0, USHORT), (''MaximumLength'', 2, USHORT), (''Buffer'', 8, ULONGLONG)]"
  by (simp_all add: structs round_up_def)

lemma kpcr_layout:
  "offset_of KPCR [''GdtBase''] = 0" "offset_of KPCR [''TssBase''] = 8"
  "offset_of KPCR [''SelfPcr''] = 0x18" "offset_of KPCR [''CurrentPrcb''] = 0x20"
  "offset_of KPCR [''Used_Self''] = 0x30" "offset_of KPCR [''IdtBase''] = 0x38"
  "offset_of KPCR [''MajorVersion''] = 0x60" "offset_of KPCR [''MinorVersion''] = 0x62"
  "offset_of KPCR [''StallScaleFactor''] = 0x64"
  by (simp_all add: offset_of_def kpcr_offsets)

lemma prcb_layout:
  "offset_of KPRCB [''MxCsr''] = 0" "offset_of KPRCB [''RspBase''] = 0x28"
  "offset_of KPRCB [''MHz''] = 0x44" "offset_of KPRCB [''MinorVersion''] = 0x88"
  "offset_of KPRCB [''MajorVersion''] = 0x8a" "offset_of KPRCB [''TscFrequency''] = 0x90"
  "offset_of KPRCB [''GroupSetMember''] = 0xc8" "offset_of KPRCB [''InitialApicId''] = 0xd4"
  "offset_of KPRCB [''ProcessorState'', ''SpecialRegisters'', ''Cr0''] = 0x100"
  "offset_of KPRCB [''ProcessorState'', ''SpecialRegisters'', ''Cr3''] = 0x110"
  "offset_of KPRCB [''ProcessorState'', ''SpecialRegisters'', ''Cr4''] = 0x118"
  by (simp_all add: offset_of_def prcb_offsets state_offsets special_offsets)

lemma lpb_layout:
  "offset_of LOADER_PARAMETER_BLOCK [''OsMajorVersion''] = 0" "offset_of LOADER_PARAMETER_BLOCK [''Size''] = 8"
  "offset_of LOADER_PARAMETER_BLOCK [''KernelStack''] = 0x80" "offset_of LOADER_PARAMETER_BLOCK [''Prcb''] = 0x88"
  "offset_of LOADER_PARAMETER_BLOCK [''Process''] = 0x90" "offset_of LOADER_PARAMETER_BLOCK [''Thread''] = 0x98"
  "offset_of LOADER_PARAMETER_BLOCK [''KernelStackSize''] = 0xa0"
  "offset_of LOADER_PARAMETER_BLOCK [''RegistryLength''] = 0xa4"
  "offset_of LOADER_PARAMETER_BLOCK [''RegistryBase''] = 0xa8"
  "offset_of LOADER_PARAMETER_BLOCK [''LoadOptions''] = 0xd8"
  "offset_of LOADER_PARAMETER_BLOCK [''NlsData''] = 0xe0" "offset_of LOADER_PARAMETER_BLOCK [''Extension''] = 0xf0"
  by (simp_all add: offset_of_def lpb_offsets)

lemma descriptor_layout:
  "offset_of MEMORY_ALLOCATION_DESCRIPTOR [''MemoryType''] = 0x10"
  "offset_of MEMORY_ALLOCATION_DESCRIPTOR [''BasePage''] = 0x18"
  "offset_of MEMORY_ALLOCATION_DESCRIPTOR [''PageCount''] = 0x20"
  by (simp_all add: offset_of_def descriptor_offsets)

lemma extension_layout:
  "offset_of LOADER_PARAMETER_EXTENSION [''Size''] = 0"
  "offset_of LOADER_PARAMETER_EXTENSION [''Bitfields''] = 0x84"
  "offset_of LOADER_PARAMETER_EXTENSION [''HalExtensionModuleList'', ''Flink''] = 0xA20"
  "offset_of LOADER_PARAMETER_EXTENSION [''HalExtensionModuleList'', ''Blink''] = 0xA28"
  "offset_of LOADER_PARAMETER_EXTENSION [''MajorRelease''] = 0xE38"
  "offset_of LOADER_PARAMETER_EXTENSION [''MinorRelease''] = 0xE3C"
  by (simp_all add: offset_of_def extension_offsets small_offsets)

lemma ldr_layout:
  "offset_of LDR_DATA_TABLE_ENTRY [''DllBase''] = 0x30" "offset_of LDR_DATA_TABLE_ENTRY [''EntryPoint''] = 0x38"
  "offset_of LDR_DATA_TABLE_ENTRY [''SizeOfImage''] = 0x40"
  "offset_of LDR_DATA_TABLE_ENTRY [''FullDllName'', ''Length''] = 0x48"
  "offset_of LDR_DATA_TABLE_ENTRY [''FullDllName'', ''MaximumLength''] = 0x4a"
  "offset_of LDR_DATA_TABLE_ENTRY [''FullDllName'', ''Buffer''] = 0x50"
  "offset_of LDR_DATA_TABLE_ENTRY [''BaseDllName'', ''Length''] = 0x58"
  "offset_of LDR_DATA_TABLE_ENTRY [''BaseDllName'', ''MaximumLength''] = 0x5a"
  "offset_of LDR_DATA_TABLE_ENTRY [''BaseDllName'', ''Buffer''] = 0x60"
  "offset_of LDR_DATA_TABLE_ENTRY [''Flags''] = 0x68" "offset_of LDR_DATA_TABLE_ENTRY [''ObsoleteLoadCount''] = 0x6c"
  by (simp_all add: offset_of_def ldr_offsets small_offsets)

lemmas poke_simps = length_poke peek_poke_same peek_poke_other peek_zeroed assign_def zeroed_def struct_sizes

lemma kpcr_image_fields:
  "length (kpcr_image vaddr prcb_v gdt_v idt_v tss_v) = 0x180"
  "peek (kpcr_image vaddr prcb_v gdt_v idt_v tss_v) 0 8 = le64 gdt_v"
  "peek (kpcr_image vaddr prcb_v gdt_v idt_v tss_v) 8 8 = le64 tss_v"
  "peek (kpcr_image vaddr prcb_v gdt_v idt_v tss_v) 0x18 8 = le64 vaddr"
  "peek (kpcr_image vaddr prcb_v gdt_v idt_v tss_v) 0x20 8 = le64 prcb_v"
  "peek (kpcr_image vaddr prcb_v gdt_v idt_v tss_v) 0x30 8 = le64 vaddr"
  "peek (kpcr_image vaddr prcb_v gdt_v idt_v tss_v) 0x38 8 = le64 idt_v"
  "peek (kpcr_image vaddr prcb_v gdt_v idt_v tss_v) 0x60 2 = le16 1"
  "peek (kpcr_image vaddr prcb_v gdt_v idt_v tss_v) 0x62 2 = le16 1"
  "peek (kpcr_image vaddr prcb_v gdt_v idt_v tss_v) 0x64 4 = le32 0x24"
  by (simp_all add: kpcr_image_def kpcr_layout poke_simps)

lemma prcb_image_fields:
  "length (prcb_image stack_v) = 0x700"
  "peek (prcb_image stack_v) 0 4 = le32 0x1F80"
  "peek (prcb_image stack_v) 0x28 8 = le64 stack_v"
  "peek (prcb_image stack_v) 0x44 4 = le32 3600"
  "peek (prcb_image stack_v) 0x88 2 = le16 19041"
  "peek (prcb_image stack_v) 0x8a 2 = le16 10"
  "peek (prcb_image stack_v) 0x90 8 = le64 3600000000"
  "peek (prcb_image stack_v) 0x110 8 = le64 0x8102000"
  "peek (prcb_image stack_v) 0x100 8 = le64 0x80050033"
  "peek (prcb_image stack_v) 0x118 8 = le64 0x6f8"
  by (simp_all add: prcb_image_def prcb_layout poke_simps)

lemma lpb_image_fields:
  fixes sv pv pr th rv nv ev ov :: u64 and ss rs :: u32
  defines "d \<equiv> lpb_image sv pv pr th ss rv rs nv ev ov"
  shows "length d = 0x160" "peek d 8 4 = le32 0x160" "peek d 0x80 8 = le64 sv" "peek d 0x88 8 = le64 pv"
    "peek d 0x90 8 = le64 pr" "peek d 0x98 8 = le64 th" "peek d 0xa0 4 = le32 ss" "peek d 0xa4 4 = le32 rs"
    "peek d 0xa8 8 = le64 rv" "peek d 0xd8 8 = le64 ov" "peek d 0xe0 8 = le64 nv" "peek d 0xf0 8 = le64 ev"
  by (simp_all add: d_def lpb_image_def lpb_layout poke_simps)

lemma descriptor_image_fields:
  "length (descriptor_image base sz ty) = 0x28"
  "peek (descriptor_image base sz ty) 0x10 4 = le32 ty"
  "peek (descriptor_image base sz ty) 0x18 8 = le64 (drop_bit 12 base)"
  "peek (descriptor_image base sz ty) 0x20 8 = le64 (drop_bit 12 sz)"
  by (simp_all add: descriptor_image_def descriptor_layout poke_simps)

lemma extension_image_fields:
  "length (extension_image h) = 0xE40" "peek (extension_image h) 0 4 = le32 0xE38"
  "peek (extension_image h) 0xA18 8 = replicate 8 0" "peek (extension_image h) 0xA20 8 = le64 h"
  "peek (extension_image h) 0xA28 8 = le64 h"
  by (simp_all add: extension_image_def extension_layout poke_simps)

lemma ldr_image_fields:
  fixes b e v :: u64 and s :: u32 and l k :: u16
  defines "d \<equiv> ldr_image b e s l k v"
  shows "length d = 0x120" "peek d 0x30 8 = le64 b" "peek d 0x38 8 = le64 e" "peek d 0x40 4 = le32 s"
    "peek d 0x48 2 = le16 l" "peek d 0x4a 2 = le16 k" "peek d 0x50 8 = le64 v"
    "peek d 0x58 2 = le16 l" "peek d 0x5a 2 = le16 k" "peek d 0x60 8 = le64 v"
  by (simp_all add: d_def ldr_image_def ldr_layout poke_simps)

section \<open>Structures in guest memory\<close>

text \<open>The value of a field of the structure at physical address \<open>p\<close>.\<close>

definition field64 :: "(nat \<Rightarrow> u8) \<Rightarrow> nat \<Rightarrow> ctype \<Rightarrow> string list \<Rightarrow> u64" where
  "field64 m p t path = from_le (load m (p + offset_of t path) 8)"

definition field32 :: "(nat \<Rightarrow> u8) \<Rightarrow> nat \<Rightarrow> ctype \<Rightarrow> string list \<Rightarrow> u32" where
  "field32 m p t path = from_le (load m (p + offset_of t path) 4)"

definition field16 :: "(nat \<Rightarrow> u8) \<Rightarrow> nat \<Rightarrow> ctype \<Rightarrow> string list \<Rightarrow> u16" where
  "field16 m p t path = from_le (load m (p + offset_of t path) 2)"

lemmas field_defs = field64_def field32_def field16_def

lemma Kpcr_setup_mem:
  assumes "unat paddr + 0x880 \<le> MEM_SIZE" and "unat vaddr + 0x180 < 2 ^ 64"
  shows "Kpcr_setup vm vaddr paddr gdt_v idt_v tss_v stack_v =
    Ok (vm\<lparr>mem_ptr := store (store (store (store (mem_ptr vm) (unat paddr)
          (kpcr_image vaddr (vaddr + 0x180) gdt_v idt_v tss_v)) (unat paddr + 0x180) (prcb_image stack_v))
          (unat paddr + 0x248) (le64 1)) (unat paddr + 0x254) (le32 0)\<rparr>)"
  using assms
  by (simp add: Kpcr_setup_def near_addr write_memory_ok MEM_SIZE_def kpcr_image_fields prcb_image_fields)

lemma Lpb_setup_mem:
  assumes "unat lpb_p + 0xC001 \<le> MEM_SIZE" and "unat lpb_v + 0xC000 < 2 ^ 64"
    and "0x180 \<le> unat prcb_v" and "unat prcb_v + 0x6000 < 2 ^ 64"
  shows "Lpb_setup vm lpb_v lpb_p prcb_v stack_v stack_size registry_v registry_size nls_v =
    Ok (vm\<lparr>mem_ptr := store (store (mem_ptr vm) (unat lpb_p + 0xC000) [0]) (unat lpb_p)
      (lpb_image stack_v prcb_v (prcb_v - 0x180 + 0x6000) (prcb_v - 0x180 + 0x5000) stack_size
         registry_v registry_size nls_v (lpb_v + 0x8000) (lpb_v + 0xC000))\<rparr>)"
proof -
  have s: "sub_chk prcb_v 0x180 = Ok (prcb_v - 0x180)" "unat (prcb_v - 0x180) = unat prcb_v - 0x180"
    using assms(3) by (simp_all add: sub_chk_def unat_sub word_le_nat_alt)
  have t: "add_chk (prcb_v - 0x180) 0x6000 = Ok (prcb_v - 0x180 + 0x6000)"
    "add_chk (prcb_v - 0x180) 0x5000 = Ok (prcb_v - 0x180 + 0x5000)"
    using assms(4) s(2) by (simp_all add: near_addr)
  show ?thesis
    unfolding Lpb_setup_def s t bind_r.simps
    using assms by (simp add: near_addr write_memory_ok MEM_SIZE_def lpb_image_fields)
qed

lemma Extension_setup_mem:
  assumes "unat ext_p + 0xE38 \<le> MEM_SIZE" and "unat ext_v + 0xA18 < 2 ^ 64"
  shows "Extension_setup vm ext_p ext_v =
    Ok (vm\<lparr>mem_ptr := store (mem_ptr vm) (unat ext_p) (take 0xE38 (extension_image (ext_v + 0xA18)))\<rparr>)"
  using assms by (simp add: Extension_setup_def near_addr write_memory_ok MEM_SIZE_def extension_image_fields)

lemma add_memory_mem:
  assumes "unat entry_p + 0x28 \<le> MEM_SIZE"
  shows "add_memory vm entry_p base sz ty =
    Ok (vm\<lparr>mem_ptr := store (mem_ptr vm) (unat entry_p) (descriptor_image base sz ty)\<rparr>)"
  using assms by (simp add: add_memory_def write_memory_ok MEM_SIZE_def descriptor_image_fields)

lemma length_name_bytes: "length (name_bytes name) = 2 * length (encode_utf16 name)"
  by (simp add: name_bytes_def length_concat comp_def sum_list_triv)

lemma add_module_mem:
  assumes "unat entry_p + 0x150 + length (name_bytes name) \<le> MEM_SIZE" and "unat entry_v + 0x150 < 2 ^ 64"
    and "length (name_bytes name) < 65534"
  shows "add_module vm entry_v entry_p img_base entry sz name =
    Ok (vm\<lparr>mem_ptr := store (store (mem_ptr vm) (unat entry_p)
        (ldr_image img_base entry sz (of_nat (length (name_bytes name))) (of_nat (length (name_bytes name)) + 2)
           (entry_v + 0x150))) (unat entry_p + 0x150) (name_bytes name)\<rparr>)"
proof -
  have "unat (of_nat (length (name_bytes name)) :: u16) = length (name_bytes name)"
    using assms(3) by (simp add: unsigned_of_nat take_bit_nat_eq_self)
  then have "add_chk (of_nat (length (name_bytes name)) :: u16) 2 = Ok (of_nat (length (name_bytes name)) + 2)"
    using assms(3) by (simp add: add_chk_def)
  then show ?thesis
    using assms by (simp add: add_module_def Let_def near_addr write_memory_ok MEM_SIZE_def ldr_image_fields)
qed

section \<open>Names\<close>

text \<open>How the kernel reads a counted string: 16-bit units, surrogate pairs joined.\<close>

fun u16s :: "u8 list \<Rightarrow> u16 list" where
  "u16s (a # b # r) = from_le [a, b] # u16s r"
| "u16s _ = []"

fun decode_utf16 :: "u16 list \<Rightarrow> rstring" where
  "decode_utf16 [] = []"
| "decode_utf16 (u # us) =
     (if 0xD800 \<le> unat u \<and> unat u < 0xDC00 then
        (case us of
           [] \<Rightarrow> [0xFFFD]
         | v # vs \<Rightarrow>
             if 0xDC00 \<le> unat v \<and> unat v < 0xE000
             then (0x10000 + (unat u - 0xD800) * 1024 + (unat v - 0xDC00)) # decode_utf16 vs
             else 0xFFFD # decode_utf16 us)
      else unat u # decode_utf16 us)"

definition scalar :: "nat \<Rightarrow> bool" where
  "scalar c \<longleftrightarrow> c < 0xD800 \<or> 0xE000 \<le> c \<and> c < 0x110000"

lemma u16s_le16: "u16s (concat (map le16 us)) = us"
proof (induction us)
  case (Cons u us)
  have "le16 u = [ucast u, ucast (drop_bit 8 u)]" by (simp add: numeral_2_eq_2)
  moreover have "from_le [ucast u, ucast (drop_bit 8 u)] = u" using from_le16 [of u] calculation by simp
  ultimately show ?case using Cons by simp
qed simp

lemma decode_encode_utf16: "list_all scalar s \<Longrightarrow> decode_utf16 (encode_utf16 s) = s"
proof (induction s)
  case (Cons c s)
  have e: "encode_utf16 (c # s) = utf16_units c @ encode_utf16 s" by (simp add: encode_utf16_def)
  show ?case
  proof (cases "c < 0x10000")
    case True
    then have "unat (of_nat c :: u16) = c" by (simp add: unsigned_of_nat take_bit_nat_eq_self)
    then show ?thesis using Cons True e by (auto simp: utf16_units_def scalar_def)
  next
    case False
    let ?h = "(c - 0x10000) div 1024" and ?l = "(c - 0x10000) mod 1024"
    have "c < 0x110000" using Cons.prems False by (auto simp: scalar_def)
    then have h: "?h < 1024" "?l < 1024" by auto
    then have "unat (of_nat (0xD800 + ?h) :: u16) = 0xD800 + ?h" "unat (of_nat (0xDC00 + ?l) :: u16) = 0xDC00 + ?l"
      by (simp_all only: unsigned_of_nat of_nat_id) (simp_all add: take_bit_nat_eq_self)
    moreover have "0x10000 + ?h * 1024 + ?l = c" using False by simp
    ultimately show ?thesis using Cons False e h by (simp add: utf16_units_def)
  qed
qed (simp add: encode_utf16_def)


section \<open>Properties\<close>

text \<open>Property C33: setting up the processor control region succeeds whenever the \<open>0x880\<close> bytes of the region and its
  control block fit, and leaves the rest of memory alone. Read at the offsets that the comments of \<open>KPCR\<close> and
  \<open>KPRCB\<close> document, not through the declared fields, the region then holds the two descriptor tables and the task
  segment, its own address (twice) and that of the control block \<open>0x180\<close> bytes further, the versions and the stall
  factor; the block holds the stack, the versions and frequencies, the control registers and the page-table root
  \<open>0x8102000\<close>, the processor group and the processor's number in the interrupt controller. So the declared order, sizes and padding of the fields put
  each of them where the kernel expects it.\<close>

theorem kpcr_setup_correct:
  assumes "unat paddr + 0x880 \<le> MEM_SIZE" and "unat vaddr + 0x180 < 2 ^ 64"
  shows "\<exists>vm'. Kpcr_setup vm vaddr paddr gdt_v idt_v tss_v stack_v = Ok vm' \<and>
    (let m = mem_ptr vm'; p = unat paddr; q = unat paddr + 0x180
     in list_all (\<lambda>(off, bs). load m (p + off) (length bs) = bs)
          [(0x0, le64 gdt_v), (0x8, le64 tss_v), (0x18, le64 vaddr), (0x20, le64 (vaddr + 0x180)), (0x30, le64 vaddr),
           (0x38, le64 idt_v), (0x60, le16 1), (0x62, le16 1), (0x64, le32 0x24)] \<and>
        list_all (\<lambda>(off, bs). load m (q + off) (length bs) = bs)
          [(0x0, le32 0x1F80), (0x28, le64 stack_v), (0x44, le32 3600), (0x88, le16 19041), (0x8a, le16 10),
           (0x90, le64 3600000000), (0xc8, le64 1), (0xd4, le32 0), (0x100, le64 0x80050033), (0x110, le64 0x8102000),
           (0x118, le64 0x6f8)] \<and>
        (\<forall>a. a < p \<or> p + 0x880 \<le> a \<longrightarrow> m a = mem_ptr vm a))"
proof -
  let ?p = "unat paddr"
  let ?m1 = "store (mem_ptr vm) ?p (kpcr_image vaddr (vaddr + 0x180) gdt_v idt_v tss_v)"
  let ?m2 = "store ?m1 (?p + 0x180) (prcb_image stack_v)"
  let ?m = "store (store ?m2 (?p + 0x248) (le64 1)) (?p + 0x254) (le32 0)"
  have kpcr: "load ?m (?p + off) n = peek (kpcr_image vaddr (vaddr + 0x180) gdt_v idt_v tss_v) off n"
    if "off + n \<le> 0x180" for off n
    using that by (simp add: load_store_other prcb_image_fields load_struct kpcr_image_fields)
  have prcb: "load ?m (?p + 0x180 + off) n = peek (prcb_image stack_v) off n"
    if "off + n \<le> 0xC8 \<or> 0xD8 \<le> off \<and> off + n \<le> 0x700" for off n
  proof -
    have "load ?m (?p + 0x180 + off) n = load ?m2 (?p + 0x180 + off) n"
      using that by (auto simp: load_store_other)
    then show ?thesis using that by (auto simp: load_struct prcb_image_fields)
  qed
  have group: "load ?m (?p + 0x248) 8 = le64 1" "load ?m (?p + 0x254) 4 = le32 0"
    using load_store_same [of ?m2 "?p + 0x248" "le64 1"] load_store_same [of _ "?p + 0x254" "le32 0"]
    by (simp_all add: load_store_other)
  have frame: "?m a = mem_ptr vm a" if "a < ?p \<or> ?p + 0x880 \<le> a" for a
    using that by (auto simp: store_def kpcr_image_fields prcb_image_fields)
  have "list_all (\<lambda>(off, bs). load ?m (?p + off) (length bs) = bs)
      [(0x0, le64 gdt_v), (0x8, le64 tss_v), (0x18, le64 vaddr), (0x20, le64 (vaddr + 0x180)), (0x30, le64 vaddr),
       (0x38, le64 idt_v), (0x60, le16 1), (0x62, le16 1), (0x64, le32 0x24)]"
    using kpcr [of 0 8] kpcr [of _ 8] kpcr [of _ 2] kpcr [of _ 4] by (simp add: kpcr_image_fields)
  moreover have "list_all (\<lambda>(off, bs). load ?m (?p + 0x180 + off) (length bs) = bs)
      [(0x0, le32 0x1F80), (0x28, le64 stack_v), (0x44, le32 3600), (0x88, le16 19041), (0x8a, le16 10),
       (0x90, le64 3600000000), (0xc8, le64 1), (0xd4, le32 0), (0x100, le64 0x80050033), (0x110, le64 0x8102000),
       (0x118, le64 0x6f8)]"
    using prcb [of 0 4] prcb [of "0x28" 8] prcb [of "0x44" 4] prcb [of "0x88" 2] prcb [of "0x8a" 2] prcb [of "0x90" 8]
      prcb [of "0x100" 8] prcb [of "0x110" 8] prcb [of "0x118" 8] group
    by (simp add: prcb_image_fields add.assoc)
  ultimately show ?thesis using Kpcr_setup_mem [OF assms, of vm gdt_v idt_v tss_v stack_v] frame by (simp add: Let_def)
qed

theorem kpcr_setup_correct_witness:
  "\<exists>vm'. Kpcr_setup \<lparr>kvm_fd = (), mem_ptr = (\<lambda>_. 0), mem_size = MEM_SIZE\<rparr> 0xFFFFF80004010000 0x4010000
       0xFFFFF80008000000 0xFFFFF80008020000 0xFFFFF80008001000 0xFFFFFE8000010000 = Ok vm' \<and>
     load (mem_ptr vm') 0x4010020 8 = le64 0xFFFFF80004010180 \<and> load (mem_ptr vm') 0x4010290 8 = le64 0x8102000"
  using kpcr_setup_correct [of "0x4010000" "0xFFFFF80004010000" "\<lparr>kvm_fd = (), mem_ptr = (\<lambda>_. 0), mem_size = MEM_SIZE\<rparr>"
      "0xFFFFF80008000000" "0xFFFFF80008020000" "0xFFFFF80008001000" "0xFFFFFE8000010000"]
  by (auto simp: MEM_SIZE_def Let_def)

text \<open>Setting up the loader parameter block succeeds whenever it fits, and the block then
  points to the stack, the processor block, the registry hive, the national-language tables, its
  extension \<open>0x8000\<close> bytes further and an empty option string, and gives the kernel its first process
  and thread at fixed distances from the processor region.\<close>

theorem lpb_setup_correct:
  assumes "unat lpb_p + 0xC001 \<le> MEM_SIZE" and "unat lpb_v + 0xC000 < 2 ^ 64"
    and "0x180 \<le> unat prcb_v" and "unat prcb_v + 0x6000 < 2 ^ 64"
  shows "\<exists>vm'. Lpb_setup vm lpb_v lpb_p prcb_v stack_v stack_size registry_v registry_size nls_v = Ok vm' \<and>
    (let m = mem_ptr vm'; p = unat lpb_p; f = field64 m p LOADER_PARAMETER_BLOCK
     in field32 m p LOADER_PARAMETER_BLOCK [''Size''] = of_nat (size_of LOADER_PARAMETER_BLOCK) \<and>
        f [''KernelStack''] = stack_v \<and> f [''Prcb''] = prcb_v \<and>
        f [''Process''] = prcb_v - 0x180 + 0x6000 \<and> f [''Thread''] = prcb_v - 0x180 + 0x5000 \<and>
        field32 m p LOADER_PARAMETER_BLOCK [''KernelStackSize''] = stack_size \<and>
        f [''RegistryBase''] = registry_v \<and>
        field32 m p LOADER_PARAMETER_BLOCK [''RegistryLength''] = registry_size \<and>
        f [''NlsData''] = nls_v \<and> f [''Extension''] = lpb_v + OFFSET_IN_LPB \<and>
        f [''LoadOptions''] = lpb_v + 0xC000 \<and> m (p + 0xC000) = 0)"
proof -
  let ?p = "unat lpb_p"
  let ?d = "lpb_image stack_v prcb_v (prcb_v - 0x180 + 0x6000) (prcb_v - 0x180 + 0x5000) stack_size
         registry_v registry_size nls_v (lpb_v + 0x8000) (lpb_v + 0xC000)"
  let ?m = "store (store (mem_ptr vm) (?p + 0xC000) [0]) ?p ?d"
  have l: "load ?m (?p + off) n = peek ?d off n" if "off + n \<le> 0x160" for off n
    using that by (simp add: load_struct lpb_image_fields)
  have z: "?m (?p + 0xC000) = 0" by (simp add: store_def lpb_image_fields)
  show ?thesis
    unfolding Lpb_setup_mem [OF assms]
    using l [of "0x80" 8] l [of "0x88" 8] l [of "0x90" 8] l [of "0x98" 8] l [of "0xa8" 8] l [of "0xe0" 8]
      l [of "0xf0" 8] l [of "0xd8" 8] l [of 8 4] l [of "0xa0" 4] l [of "0xa4" 4] z
    by (simp add: field_defs lpb_layout lpb_image_fields struct_sizes OFFSET_IN_LPB_def Let_def)
qed

theorem lpb_setup_correct_witness:
  "\<exists>vm'. Lpb_setup \<lparr>kvm_fd = (), mem_ptr = (\<lambda>_. 0), mem_size = MEM_SIZE\<rparr> 0xFFFFF80004000000 0x4000000
       0xFFFFF80004010180 0xFFFFFE8000010000 0x10000 0xFFFFF80045000000 7 0xFFFFF80004030000 = Ok vm' \<and>
     field64 (mem_ptr vm') 0x4000000 LOADER_PARAMETER_BLOCK [''Thread''] = 0xFFFFF80004015000"
  using lpb_setup_correct [of "0x4000000" "0xFFFFF80004000000" "0xFFFFF80004010180"
      "\<lparr>kvm_fd = (), mem_ptr = (\<lambda>_. 0), mem_size = MEM_SIZE\<rparr>" "0xFFFFFE8000010000" "0x10000" "0xFFFFF80045000000" 7 "0xFFFFF80004030000"]
  by (auto simp: MEM_SIZE_def Let_def)

text \<open>The block right after \<open>Extension_setup\<close>: the extension's fields after its padding lie eight bytes beyond
  the offsets the code and the comments use. The two list pointers are written to \<open>0xA20\<close> and \<open>0xA28\<close> and point to \<open>0xA18\<close>,
  where \<open>main\<close> later puts the head of the HAL extensions, if there are any: until then its first pointer is null. The release numbers lie outside the
  bytes that are copied, and the API-set pointer is stored eight bytes before its field.\<close>

theorem extension_list_head:
  assumes "unat ext_p + 0xE38 \<le> MEM_SIZE" and "unat ext_v + 0xA18 < 2 ^ 64"
  shows "offset_of LOADER_PARAMETER_EXTENSION [''HalExtensionModuleList''] = 0xA20 \<and>
    offset_of LOADER_PARAMETER_EXTENSION [''ApiSetSchema''] = 0xA88 \<and>
    offset_of LOADER_PARAMETER_EXTENSION [''MajorRelease''] = 0xE38 \<and>
    (\<exists>vm'. Extension_setup vm ext_p ext_v = Ok vm' \<and>
       q64 (mem_ptr vm') (unat ext_p + 0xA18) = 0 \<and>
       q64 (mem_ptr vm') (unat ext_p + 0xA20) = ext_v + 0xA18 \<and>
       q64 (mem_ptr vm') (unat ext_p + 0xA28) = ext_v + 0xA18 \<and>
       load (mem_ptr vm') (unat ext_p + 0xE38) 8 = load (mem_ptr vm) (unat ext_p + 0xE38) 8)"
proof -
  let ?d = "take 0xE38 (extension_image (ext_v + 0xA18))"
  have pk: "peek ?d off 8 = peek (extension_image (ext_v + 0xA18)) off 8" if "off + 8 \<le> 0xE38" for off
  proof -
    have "min 8 (0xE38 - off) = 8" using that by simp
    then show ?thesis by (simp add: peek_def drop_take)
  qed
  have len: "length ?d = 0xE38" by (simp add: extension_image_fields)
  have l: "load (store (mem_ptr vm) (unat ext_p) ?d) (unat ext_p + off) 8 =
      peek (extension_image (ext_v + 0xA18)) off 8" if "off + 8 \<le> 0xE38" for off
    using load_struct [of off 8 ?d] that len pk by simp
  have z: "from_le (replicate 8 0) = (0 :: u64)" by code_simp
  have off: "offset_of LOADER_PARAMETER_EXTENSION [''HalExtensionModuleList''] = 0xA20"
    "offset_of LOADER_PARAMETER_EXTENSION [''ApiSetSchema''] = 0xA88"
    by (simp_all add: offset_of_def extension_offsets)
  show ?thesis
    unfolding Extension_setup_mem [OF assms]
    using l [of "0xA18"] l [of "0xA20"] l [of "0xA28"] z off
    by (simp add: q64_def extension_layout extension_image_fields load_store_other)
qed

theorem extension_list_head_witness:
  "\<exists>vm'. Extension_setup \<lparr>kvm_fd = (), mem_ptr = (\<lambda>_. 0), mem_size = MEM_SIZE\<rparr> 0x4008000 0xFFFFF80004008000 = Ok vm' \<and>
     q64 (mem_ptr vm') 0x4008A18 = 0 \<and> q64 (mem_ptr vm') 0x4008A20 = 0xFFFFF80004008A18"
  using extension_list_head [of "0x4008000" "0xFFFFF80004008000" "\<lparr>kvm_fd = (), mem_ptr = (\<lambda>_. 0), mem_size = MEM_SIZE\<rparr>"]
  by (auto simp: MEM_SIZE_def)

text \<open>A module entry says what was loaded. It holds the module's base, entry point and size;
  both name strings have the length of the name in bytes and point to \<open>0x150\<close> bytes after the entry,
  where the name is found again when its 16-bit units are read back.\<close>

theorem add_module_roundtrip:
  assumes "unat entry_p + 0x150 + length (name_bytes name) \<le> MEM_SIZE" and "unat entry_v + 0x150 < 2 ^ 64"
    and "length (name_bytes name) < 65534" and "list_all scalar name"
  shows "\<exists>vm'. add_module vm entry_v entry_p img_base entry sz name = Ok vm' \<and>
    (let m = mem_ptr vm'; p = unat entry_p; f = field64 m p LDR_DATA_TABLE_ENTRY
     in f [''DllBase''] = img_base \<and> f [''EntryPoint''] = entry \<and>
        field32 m p LDR_DATA_TABLE_ENTRY [''SizeOfImage''] = sz \<and>
        (\<forall>s. s = ''FullDllName'' \<or> s = ''BaseDllName'' \<longrightarrow>
           f [s, ''Buffer''] = entry_v + 0x150 \<and>
           decode_utf16 (u16s (load m (p + 0x150)
             (unat (field16 m p LDR_DATA_TABLE_ENTRY [s, ''Length''])))) = name))"
proof -
  let ?p = "unat entry_p" and ?n = "length (name_bytes name)"
  let ?d = "ldr_image img_base entry sz (of_nat ?n) (of_nat ?n + 2) (entry_v + 0x150)"
  let ?m = "store (store (mem_ptr vm) ?p ?d) (?p + 0x150) (name_bytes name)"
  have l: "load ?m (?p + off) n = peek ?d off n" if "off + n \<le> 0x120" for off n
    using that by (simp add: load_store_other load_struct ldr_image_fields)
  have n: "unat (of_nat ?n :: u16) = ?n" using assms(3) by (simp add: unsigned_of_nat take_bit_nat_eq_self)
  have name: "decode_utf16 (u16s (load ?m (?p + 0x150) ?n)) = name"
    using assms(4) by (simp add: name_bytes_def u16s_le16 decode_encode_utf16)
  have fields: "field64 ?m ?p LDR_DATA_TABLE_ENTRY [''DllBase''] = img_base"
    "field64 ?m ?p LDR_DATA_TABLE_ENTRY [''EntryPoint''] = entry"
    "field32 ?m ?p LDR_DATA_TABLE_ENTRY [''SizeOfImage''] = sz"
    using l [of "0x30" 8] l [of "0x38" 8] l [of "0x40" 4]
    by (simp_all add: field_defs ldr_layout ldr_image_fields)
  have strings: "field64 ?m ?p LDR_DATA_TABLE_ENTRY [s, ''Buffer''] = entry_v + 0x150"
    "field16 ?m ?p LDR_DATA_TABLE_ENTRY [s, ''Length''] = of_nat ?n"
    if "s = ''FullDllName'' \<or> s = ''BaseDllName''" for s
    using that l [of "0x48" 2] l [of "0x50" 8] l [of "0x58" 2] l [of "0x60" 8]
    by (auto simp only: field_defs ldr_layout ldr_image_fields from_le16 from_le64)
  have mp: "mem_ptr (vm\<lparr>mem_ptr := ?m\<rparr>) = ?m" by simp
  show ?thesis
    unfolding add_module_mem [OF assms(1-3)] Let_def
    by (intro exI conjI allI impI, rule refl) (simp_all only: mp fields strings n name)
qed

theorem add_module_roundtrip_witness:
  "\<exists>vm'. add_module \<lparr>kvm_fd = (), mem_ptr = (\<lambda>_. 0), mem_size = MEM_SIZE\<rparr> 0xFFFFF80004040000 0x4040000
       0xFFFFF80000200000 0xFFFFF80000B92010 0x1046000 (lit ''hal.dll'') = Ok vm' \<and>
     decode_utf16 (u16s (load (mem_ptr vm') 0x4040150
       (unat (field16 (mem_ptr vm') 0x4040000 LDR_DATA_TABLE_ENTRY [''BaseDllName'', ''Length''])))) = lit ''hal.dll''"
proof -
  have "length (name_bytes (lit ''hal.dll'')) = 14"
    by (simp add: length_name_bytes encode_utf16_def utf16_units_def lit_def)
  then have pre: "unat (0x4040000 :: u64) + 0x150 + length (name_bytes (lit ''hal.dll'')) \<le> MEM_SIZE"
    "unat (0xFFFFF80004040000 :: u64) + 0x150 < 2 ^ 64" "length (name_bytes (lit ''hal.dll'')) < 65534"
    by (simp_all add: MEM_SIZE_def)
  have s: "list_all scalar (lit ''hal.dll'')" by (simp add: scalar_def lit_def)
  have u: "unat (0x4040000 :: u64) = 0x4040000" "0x4040000 + 0x150 = (0x4040150 :: nat)" by simp_all
  show ?thesis
    using add_module_roundtrip [OF pre s, of "\<lparr>kvm_fd = (), mem_ptr = (\<lambda>_. 0), mem_size = MEM_SIZE\<rparr>"
        "0xFFFFF80000200000" "0xFFFFF80000B92010" "0x1046000"]
    unfolding Let_def u by blast
qed

end
