(* ===== verification/Acpi.thy ===== *)
theory Acpi
  imports NtTypes
begin

text \<open>
  The ACPI tables of \<open>src/acpi.rs\<close>: DSDT, MADT, FADT, HPET, XSDT and RSDP, built byte by byte and
  written behind one base address. The vectors are indexed as in the source, so an index outside a
  vector would be a panic; the lemmas show that none is, that every table carries its length and sums
  to zero, and that the pointers between the tables lead where they should.
\<close>

section \<open>Editing byte vectors\<close>

text \<open>A sequence of \<open>d[a..b].copy_from_slice(src)\<close> and \<open>d[i] = v\<close>.\<close>

definition edit :: "(nat \<times> u8 list) list \<Rightarrow> u8 list \<Rightarrow> u8 list res" where
  "edit ws d = for_r (\<lambda>(a, src) d. put_slice d a src) ws d"

text \<open>\<open>iter().fold(0u8, |acc, &x| acc.wrapping_add(x))\<close>.\<close>

definition byte_sum :: "u8 list \<Rightarrow> u8" where
  "byte_sum d = fold (\<lambda>x acc. acc + x) d 0"

definition ascii :: "string \<Rightarrow> u8 list" where
  "ascii s = map (\<lambda>c. of_nat (of_char c)) s"

definition write_header :: "string \<Rightarrow> u32 \<Rightarrow> u8 \<Rightarrow> u8 list \<Rightarrow> u8 list res" where
  "write_header sig len rev_no d =
     edit [(0, ascii sig), (4, le32 len), (8, [rev_no]), (10, ascii ''INTEL ''), (16, ascii ''DELL    '')] d"

definition update_checksum :: "u8 list \<Rightarrow> u8 list res" where
  "update_checksum d =
     bind_r (put_slice d 9 [0]) (\<lambda>d. put_slice d 9 [0 - byte_sum d])"

section \<open>The tables\<close>

definition dsdt_table :: "u8 list res" where
  "dsdt_table = bind_r (write_header ''DSDT'' 36 1 (replicate 36 0)) update_checksum"

definition madt_entries :: "u8 list" where
  "madt_entries =
     [0, 8, 0, 0, 1, 0, 0, 0] @ [1, 12, 1, 0, 0, 0, 0, 0, 0x00, 0x00, 0xC0, 0xFE] @
     [2, 10, 0, 0, 2, 0, 0, 0, 0x05, 0x00] @ [4, 6, 0xFF, 0x05, 0x00, 1]"

definition madt_table :: "u8 list res" where
  "madt_table =
     bind_r (write_header ''APIC'' 80 2 (replicate 44 0)) (\<lambda>d.
     bind_r (edit [(36, le32 0xFEE00000), (40, le32 1)] d) (\<lambda>d.
     update_checksum (d @ madt_entries)))"

definition fadt_table :: "u64 \<Rightarrow> u8 list res" where
  "fadt_table dsdt_v =
     bind_r (write_header ''FACP'' 276 3 (replicate 276 0)) (\<lambda>d.
     bind_r (edit
       [(40, le32 (ucast dsdt_v)), (45, [1]), (76, le32 0x408), (91, [4]), (109, le16 3),
        (112, le32 0x100), (140, le64 dsdt_v), (208, [1]), (209, [32]), (210, [0]), (211, [3]),
        (212, le64 0x408)] d) update_checksum)"

definition hpet_table :: "u8 list res" where
  "hpet_table =
     bind_r (write_header ''HPET'' 56 1 (replicate 56 0)) (\<lambda>d.
     bind_r (edit
       [(36, le32 0x8086a201), (40, [0]), (41, [64]), (42, [0]), (43, [0]), (44, le64 0xFED00000),
        (52, [0]), (53, le16 0x80)] d) update_checksum)"

definition xsdt_table :: "u64 \<Rightarrow> u64 \<Rightarrow> u64 \<Rightarrow> u8 list res" where
  "xsdt_table fadt_v madt_v hpet_v =
     bind_r (write_header ''XSDT'' (36 + 24) 1 (replicate (36 + 24) 0)) (\<lambda>d.
     bind_r (edit [(36, le64 fadt_v), (44, le64 madt_v), (52, le64 hpet_v)] d) update_checksum)"

definition rsdp_table :: "u64 \<Rightarrow> u8 list res" where
  "rsdp_table xsdt_v =
     bind_r (edit [(0, ascii ''RSD PTR ''), (10, ascii ''VWFL  ''), (15, [2]), (20, le32 36), (24, le64 xsdt_v)]
               (replicate 36 0)) (\<lambda>d.
     bind_r (slice_r d 0 20) (\<lambda>head.
     bind_r (put_slice d 8 [0 - byte_sum head]) (\<lambda>d.
     put_slice d 32 [0 - byte_sum d])))"

definition Acpi_setup :: "'k vm \<Rightarrow> u64 \<Rightarrow> u64 \<Rightarrow> (u64 \<times> 'k vm) res" where
  "Acpi_setup vm base_paddr base_vaddr =
     bind_r (add_chk base_paddr 0x100) (\<lambda>xsdt_p.
     bind_r (add_chk base_paddr 0x200) (\<lambda>madt_p.
     bind_r (add_chk base_paddr 0x300) (\<lambda>fadt_p.
     bind_r (add_chk base_paddr 0x450) (\<lambda>hpet_p.
     bind_r (add_chk base_paddr 0x500) (\<lambda>dsdt_p.
     bind_r (add_chk base_vaddr 0x100) (\<lambda>xsdt_v.
     bind_r (add_chk base_vaddr 0x200) (\<lambda>madt_v.
     bind_r (add_chk base_vaddr 0x300) (\<lambda>fadt_v.
     bind_r (add_chk base_vaddr 0x450) (\<lambda>hpet_v.
     bind_r (add_chk base_vaddr 0x500) (\<lambda>dsdt_v.
     bind_r dsdt_table (\<lambda>dsdt.
     bind_r (write_memory vm dsdt_p dsdt) (\<lambda>vm.
     bind_r madt_table (\<lambda>madt.
     bind_r (write_memory vm madt_p madt) (\<lambda>vm.
     bind_r (fadt_table dsdt_v) (\<lambda>fadt.
     bind_r (write_memory vm fadt_p fadt) (\<lambda>vm.
     bind_r hpet_table (\<lambda>hpet.
     bind_r (write_memory vm hpet_p hpet) (\<lambda>vm.
     bind_r (xsdt_table fadt_v madt_v hpet_v) (\<lambda>xsdt.
     bind_r (write_memory vm xsdt_p xsdt) (\<lambda>vm.
     bind_r (rsdp_table xsdt_v) (\<lambda>rsdp.
     bind_r (write_memory vm base_paddr rsdp) (\<lambda>vm.
     Ok (base_vaddr, vm)))))))))))))))))))))))"

section \<open>Checksums\<close>

lemma byte_sum_sum_list: "byte_sum d = sum_list d"
proof -
  have "fold (\<lambda>x acc. acc + x) d a = a + sum_list d" for a :: u8
    by (induction d arbitrary: a) (auto simp: add.assoc)
  then show ?thesis by (simp add: byte_sum_def)
qed

lemma put_slice_poke: "off + length v \<le> length d \<Longrightarrow> put_slice d off v = Ok (poke off v d)"
  by (simp add: put_slice_def poke_def)

lemma edit_Nil: "edit [] d = Ok d"
  by (simp add: edit_def)

lemma edit_Cons: "off + length v \<le> length d \<Longrightarrow> edit ((off, v) # ws) d = edit ws (poke off v d)"
  by (simp add: edit_def put_slice_poke)

text \<open>Setting one byte to the negated sum of the vector with that byte zero makes the sum zero.\<close>

lemma checksum_zero:
  assumes "i < length d"
  shows "byte_sum (poke i [0 - byte_sum (poke i [0] d)] (poke i [0] d)) = 0"
proof -
  have "poke i [v] (poke i [0] d) = take i d @ [v] @ drop (i + 1) d" for v
    using assms by (simp add: poke_def)
  then show ?thesis using assms by (simp add: byte_sum_sum_list poke_def)
qed

lemma update_checksum_Ok:
  assumes "10 \<le> length d"
  shows "\<exists>c. update_checksum d = Ok (poke 9 [c] (poke 9 [0] d)) \<and>
    byte_sum (poke 9 [c] (poke 9 [0] d)) = 0"
  using assms checksum_zero [of 9 d] by (auto simp: update_checksum_def put_slice_poke length_poke)

lemmas edit_simps = edit_Cons edit_Nil length_poke peek_poke_same peek_poke_other peek_zeroed

text \<open>A finished table: its length field counts its bytes, its signature is in place, it sums to zero.\<close>

definition finished :: "string \<Rightarrow> u8 list \<Rightarrow> bool" where
  "finished sig d \<longleftrightarrow> 36 \<le> length d \<and> peek d 0 4 = ascii sig \<and> peek d 4 4 = le32 (of_nat (length d)) \<and>
     byte_sum d = 0"

lemma length_ascii [simp]: "length (ascii s) = length s"
  by (simp add: ascii_def)

lemma finish_table:
  assumes "36 \<le> length d" and "peek d 0 4 = ascii sig" and "peek d 4 4 = le32 (of_nat (length d))"
  shows "\<exists>d'. update_checksum d = Ok d' \<and> finished sig d' \<and> length d' = length d \<and>
    (\<forall>b n. 10 \<le> b \<longrightarrow> peek d' b n = peek d b n)"
proof -
  obtain c where c: "update_checksum d = Ok (poke 9 [c] (poke 9 [0] d))"
    "byte_sum (poke 9 [c] (poke 9 [0] d)) = 0"
    using update_checksum_Ok [of d] assms(1) by auto
  then show ?thesis using assms by (auto simp: finished_def length_poke peek_poke_other)
qed

section \<open>The finished tables\<close>

lemma write_header_Ok:
  assumes "24 \<le> length d" and "length sig = 4"
  shows "\<exists>h. write_header sig len r d = Ok h \<and> length h = length d \<and> peek h 0 4 = ascii sig \<and>
    peek h 4 4 = le32 len"
  using assms by (auto simp: write_header_def edit_simps)

lemma dsdt_Ok: "\<exists>d. dsdt_table = Ok d \<and> length d = 36 \<and> finished ''DSDT'' d"
proof -
  obtain h where h: "write_header ''DSDT'' 36 1 (replicate 36 0) = Ok h" "length h = 36"
    "peek h 0 4 = ascii ''DSDT''" "peek h 4 4 = le32 36"
    using write_header_Ok [of "replicate 36 0" "''DSDT''" 36 1] by auto
  with finish_table [of h "''DSDT''"] show ?thesis by (auto simp: dsdt_table_def)
qed

lemma madt_Ok:
  "\<exists>d. madt_table = Ok d \<and> length d = 80 \<and> finished ''APIC'' d \<and> peek d 36 4 = le32 0xFEE00000 \<and>
     peek d 44 36 = madt_entries"
proof -
  obtain h where h: "write_header ''APIC'' 80 2 (replicate 44 0) = Ok h" "length h = 44"
    "peek h 0 4 = ascii ''APIC''" "peek h 4 4 = le32 80"
    using write_header_Ok [of "replicate 44 0" "''APIC''" 80 2] by auto
  let ?e = "poke 40 (le32 1) (poke 36 (le32 0xFEE00000) h)"
  have len: "length madt_entries = 36" by (simp add: madt_entries_def)
  have app: "peek (?e @ madt_entries) b n = peek ?e b n" if "b + n \<le> 44" for b n
    using that h(2) by (simp add: peek_def length_poke)
  have ent: "peek (?e @ madt_entries) 44 36 = madt_entries"
    using h(2) len by (simp add: peek_def length_poke)
  have e: "edit [(36, le32 0xFEE00000), (40, le32 1)] h = Ok ?e" using h(2) by (simp add: edit_simps)
  obtain d where d: "update_checksum (?e @ madt_entries) = Ok d" "finished ''APIC'' d" "length d = 80"
    "\<And>b n. 10 \<le> b \<Longrightarrow> peek d b n = peek (?e @ madt_entries) b n"
    using finish_table [of "?e @ madt_entries" "''APIC''"] h len app [of 0 4] app [of 4 4]
    by (auto simp: length_poke peek_poke_other)
  have "peek d 36 4 = le32 0xFEE00000"
    using d(4) [of 36 4] app [of 36 4] h(2) by (simp add: peek_poke_other peek_poke_same length_poke)
  then show ?thesis using d(1,2,3) d(4) [of 44 36] ent by (simp add: madt_table_def h(1) e)
qed

lemma fadt_Ok:
  "\<exists>d. fadt_table v = Ok d \<and> length d = 276 \<and> finished ''FACP'' d \<and> peek d 40 4 = le32 (ucast v) \<and>
     peek d 140 8 = le64 v"
proof -
  obtain h where h: "write_header ''FACP'' 276 3 (replicate 276 0) = Ok h" "length h = 276"
    "peek h 0 4 = ascii ''FACP''" "peek h 4 4 = le32 276"
    using write_header_Ok [of "replicate 276 0" "''FACP''" 276 3] by auto
  obtain e where e: "edit [(40, le32 (ucast v)), (45, [1]), (76, le32 0x408), (91, [4]), (109, le16 3),
        (112, le32 0x100), (140, le64 v), (208, [1]), (209, [32]), (210, [0]), (211, [3]),
        (212, le64 0x408)] h = Ok e" "length e = 276" "peek e 0 4 = ascii ''FACP''" "peek e 4 4 = le32 276"
        "peek e 40 4 = le32 (ucast v)" "peek e 140 8 = le64 v"
    using h by (auto simp: edit_simps)
  obtain d where "update_checksum e = Ok d" "finished ''FACP'' d" "length d = 276"
    "\<And>b n. 10 \<le> b \<Longrightarrow> peek d b n = peek e b n"
    using finish_table [of e "''FACP''"] e by auto
  then show ?thesis using e by (simp add: fadt_table_def h(1))
qed

lemma hpet_Ok:
  "\<exists>d. hpet_table = Ok d \<and> length d = 56 \<and> finished ''HPET'' d \<and> peek d 44 8 = le64 0xFED00000"
proof -
  obtain h where h: "write_header ''HPET'' 56 1 (replicate 56 0) = Ok h" "length h = 56"
    "peek h 0 4 = ascii ''HPET''" "peek h 4 4 = le32 56"
    using write_header_Ok [of "replicate 56 0" "''HPET''" 56 1] by auto
  obtain e where e: "edit [(36, le32 0x8086a201), (40, [0]), (41, [64]), (42, [0]), (43, [0]), (44, le64 0xFED00000),
        (52, [0]), (53, le16 0x80)] h = Ok e" "length e = 56" "peek e 0 4 = ascii ''HPET''" "peek e 4 4 = le32 56"
        "peek e 44 8 = le64 0xFED00000"
    using h by (auto simp: edit_simps)
  obtain d where "update_checksum e = Ok d" "finished ''HPET'' d" "length d = 56"
    "\<And>b n. 10 \<le> b \<Longrightarrow> peek d b n = peek e b n"
    using finish_table [of e "''HPET''"] e by auto
  then show ?thesis using e by (simp add: hpet_table_def h(1))
qed

lemma xsdt_Ok:
  "\<exists>d. xsdt_table f m p = Ok d \<and> length d = 60 \<and> finished ''XSDT'' d \<and> peek d 36 8 = le64 f \<and>
     peek d 44 8 = le64 m \<and> peek d 52 8 = le64 p"
proof -
  obtain h where h: "write_header ''XSDT'' 60 1 (replicate 60 0) = Ok h" "length h = 60"
    "peek h 0 4 = ascii ''XSDT''" "peek h 4 4 = le32 60"
    using write_header_Ok [of "replicate 60 0" "''XSDT''" 60 1] by auto
  obtain e where e: "edit [(36, le64 f), (44, le64 m), (52, le64 p)] h = Ok e" "length e = 60"
    "peek e 0 4 = ascii ''XSDT''" "peek e 4 4 = le32 60" "peek e 36 8 = le64 f" "peek e 44 8 = le64 m"
    "peek e 52 8 = le64 p"
    using h by (auto simp: edit_simps)
  obtain d where "update_checksum e = Ok d" "finished ''XSDT'' d" "length d = 60"
    "\<And>b n. 10 \<le> b \<Longrightarrow> peek d b n = peek e b n"
    using finish_table [of e "''XSDT''"] e by auto
  then show ?thesis using e by (simp add: xsdt_table_def h(1))
qed

lemma nth_poke:
  "off + length v \<le> length d \<Longrightarrow> i < length d \<Longrightarrow>
   poke off v d ! i = (if off \<le> i \<and> i < off + length v then v ! (i - off) else d ! i)"
  by (auto simp: poke_def nth_append)

lemma byte_sum_poke: "i < length d \<Longrightarrow> byte_sum (poke i [v] d) = byte_sum d - d ! i + v"
proof -
  assume i: "i < length d"
  then have "byte_sum d = byte_sum (take i d @ d ! i # drop (Suc i) d)" by (simp add: id_take_nth_drop [symmetric])
  then show ?thesis using i by (simp add: poke_def byte_sum_sum_list)
qed

lemma take_poke: "off + length v \<le> n \<Longrightarrow> off < n \<Longrightarrow> n \<le> length d \<Longrightarrow> take n (poke off v d) = poke off v (take n d)"
  by (auto simp: poke_def min_def drop_take)

lemma rsdp_Ok:
  "\<exists>d. rsdp_table x = Ok d \<and> length d = 36 \<and> peek d 0 8 = ascii ''RSD PTR '' \<and> byte_sum (peek d 0 20) = 0 \<and>
     byte_sum d = 0 \<and> peek d 24 8 = le64 x"
proof -
  let ?e = "poke 24 (le64 x) (poke 20 (le32 36) (poke 15 [2] (poke 10 (ascii ''VWFL  '')
    (poke 0 (ascii ''RSD PTR '') (replicate 36 0)))))"
  let ?f = "poke 8 [0 - byte_sum (take 20 ?e)] ?e"
  let ?d = "poke 32 [0 - byte_sum ?f] ?f"
  have len: "length ?e = 36" by (simp add: length_poke)
  have z: "?e ! 8 = 0" "?e ! 32 = 0" by (simp_all add: nth_poke length_poke)
  have table: "rsdp_table x = Ok ?d"
    using len by (simp add: rsdp_table_def edit_simps slice_r_def put_slice_poke)
  have "byte_sum ?d = 0" using len z by (simp add: byte_sum_poke length_poke nth_poke)
  moreover have "byte_sum (peek ?d 0 20) = 0"
  proof -
    have "peek ?d 0 20 = peek ?f 0 20" using len by (simp add: peek_poke_other length_poke)
    also have "\<dots> = take 20 ?f" by (simp add: peek_def)
    also have "\<dots> = poke 8 [0 - byte_sum (take 20 ?e)] (take 20 ?e)" using len by (simp add: take_poke)
    finally have "byte_sum (peek ?d 0 20) = byte_sum (take 20 ?e) - take 20 ?e ! 8 + (0 - byte_sum (take 20 ?e))"
      using len by (simp only: byte_sum_poke length_take)
    then show ?thesis using z(1) by simp
  qed
  moreover have "peek ?d 0 8 = ascii ''RSD PTR ''" "peek ?d 24 8 = le64 x"
    by (simp_all add: edit_simps)
  moreover have "length ?d = 36" using len by (simp add: length_poke)
  ultimately show ?thesis using table by blast
qed

text \<open>A table in memory: the signature, a length of at least a header, and a zero sum over that length.\<close>

definition acpi_table :: "(nat \<Rightarrow> u8) \<Rightarrow> nat \<Rightarrow> string \<Rightarrow> bool" where
  "acpi_table m p sig \<longleftrightarrow> load m p 4 = ascii sig \<and>
     (let n = unat (from_le (load m (p + 4) 4) :: u32) in 36 \<le> n \<and> byte_sum (load m p n) = 0)"

lemma finished_in_memory:
  assumes "finished sig d" and "load m p (length d) = d" and "length d < 2 ^ 32"
  shows "acpi_table m p sig"
proof -
  have l: "load m (p + off) n = peek d off n" if "off + n \<le> length d" for off n
  proof (rule nth_equalityI)
    fix i assume "i < length (load m (p + off) n)"
    then have "load m p (length d) ! (off + i) = load m (p + off) n ! i"
      using that by (simp add: nth_load add.assoc)
    then show "load m (p + off) n ! i = peek d off n ! i"
      using assms(2) that \<open>i < length (load m (p + off) n)\<close> by (simp add: peek_def)
  qed (use that in \<open>simp add: peek_def\<close>)
  have "unat (of_nat (length d) :: u32) = length d"
    using assms(3) by (simp add: unsigned_of_nat take_bit_nat_eq_self)
  then show ?thesis
    using assms(1,2) l [of 0 4] l [of 4 4] by (simp add: acpi_table_def finished_def)
qed

section \<open>Properties\<close>

text \<open>What the set-up leaves in memory: the six tables at their places.\<close>

lemma acpi_setup_mem:
  assumes "unat p + 0x524 \<le> MEM_SIZE" and "unat v + 0x500 < 2 ^ 64"
  obtains dsdt madt fadt hpet xsdt rsdp where
    "Acpi_setup vm p v = Ok (v, vm\<lparr>mem_ptr := store (store (store (store (store (store (mem_ptr vm) (unat p + 0x500) dsdt)
       (unat p + 0x200) madt) (unat p + 0x300) fadt) (unat p + 0x450) hpet) (unat p + 0x100) xsdt) (unat p) rsdp\<rparr>)"
    and "length dsdt = 36" "finished ''DSDT'' dsdt" and "length madt = 80" "finished ''APIC'' madt"
    and "length fadt = 276" "finished ''FACP'' fadt" "peek fadt 40 4 = le32 (ucast (v + 0x500))" "peek fadt 140 8 = le64 (v + 0x500)"
    and "length hpet = 56" "finished ''HPET'' hpet"
    and "length xsdt = 60" "finished ''XSDT'' xsdt" "peek xsdt 36 8 = le64 (v + 0x300)" "peek xsdt 44 8 = le64 (v + 0x200)"
      "peek xsdt 52 8 = le64 (v + 0x450)"
    and "length rsdp = 36" "peek rsdp 0 8 = ascii ''RSD PTR ''" "byte_sum (peek rsdp 0 20) = 0" "byte_sum rsdp = 0"
      "peek rsdp 24 8 = le64 (v + 0x100)"
    and "peek madt 36 4 = le32 0xFEE00000" "peek madt 44 36 = madt_entries"
proof -
  obtain dsdt where dsdt: "dsdt_table = Ok dsdt" "length dsdt = 36" "finished ''DSDT'' dsdt"
    using dsdt_Ok by blast
  obtain madt where madt: "madt_table = Ok madt" "length madt = 80" "finished ''APIC'' madt"
      "peek madt 36 4 = le32 0xFEE00000" "peek madt 44 36 = madt_entries"
    using madt_Ok by blast
  obtain fadt where fadt: "fadt_table (v + 0x500) = Ok fadt" "length fadt = 276" "finished ''FACP'' fadt"
      "peek fadt 40 4 = le32 (ucast (v + 0x500))" "peek fadt 140 8 = le64 (v + 0x500)"
    using fadt_Ok by blast
  obtain hpet where hpet: "hpet_table = Ok hpet" "length hpet = 56" "finished ''HPET'' hpet"
    using hpet_Ok by blast
  obtain xsdt where xsdt: "xsdt_table (v + 0x300) (v + 0x200) (v + 0x450) = Ok xsdt" "length xsdt = 60"
      "finished ''XSDT'' xsdt" "peek xsdt 36 8 = le64 (v + 0x300)" "peek xsdt 44 8 = le64 (v + 0x200)"
      "peek xsdt 52 8 = le64 (v + 0x450)"
    using xsdt_Ok by blast
  obtain rsdp where rsdp: "rsdp_table (v + 0x100) = Ok rsdp" "length rsdp = 36" "peek rsdp 0 8 = ascii ''RSD PTR ''"
      "byte_sum (peek rsdp 0 20) = 0" "byte_sum rsdp = 0" "peek rsdp 24 8 = le64 (v + 0x100)"
    using rsdp_Ok by blast
  have "Acpi_setup vm p v = Ok (v, vm\<lparr>mem_ptr := store (store (store (store (store (store (mem_ptr vm) (unat p + 0x500) dsdt)
       (unat p + 0x200) madt) (unat p + 0x300) fadt) (unat p + 0x450) hpet) (unat p + 0x100) xsdt) (unat p) rsdp\<rparr>)"
    using assms dsdt(2) madt(2) fadt(2) hpet(2) xsdt(2) rsdp(2)
    by (simp add: Acpi_setup_def near_addr write_memory_ok MEM_SIZE_def dsdt(1) madt(1) fadt(1) hpet(1)
        xsdt(1) rsdp(1))
  from that [OF this dsdt(2,3) madt(2,3) fadt(2-5) hpet(2,3) xsdt(2-6) rsdp(2-6) madt(4,5)] show thesis .
qed

lemma acpi_setup_frame:
  assumes "unat p + 0x524 \<le> MEM_SIZE" and "unat v + 0x500 < 2 ^ 64"
  shows "\<exists>vm'. Acpi_setup vm p v = Ok (v, vm') \<and> load (mem_ptr vm') (unat p) 8 = ascii ''RSD PTR '' \<and>
    (\<forall>b. b < unat p \<or> unat p + 0x524 \<le> b \<longrightarrow> mem_ptr vm' b = mem_ptr vm b)"
proof (rule acpi_setup_mem [OF assms, of vm])
  fix dsdt madt fadt hpet xsdt rsdp
  let ?m = "store (store (store (store (store (store (mem_ptr vm) (unat p + 0x500) dsdt)
       (unat p + 0x200) madt) (unat p + 0x300) fadt) (unat p + 0x450) hpet) (unat p + 0x100) xsdt) (unat p) rsdp"
  assume s: "Acpi_setup vm p v = Ok (v, vm\<lparr>mem_ptr := ?m\<rparr>)"
    and l: "length dsdt = 36" "length madt = 80" "length fadt = 276" "length hpet = 56" "length xsdt = 60" "length rsdp = 36"
    and r: "peek rsdp 0 8 = ascii ''RSD PTR ''"
  have "load ?m (unat p) 8 = ascii ''RSD PTR ''"
    using r l by (simp add: load_store_inside peek_def)
  moreover have "?m b = mem_ptr vm b" if "b < unat p \<or> unat p + 0x524 \<le> b" for b
    using that l by (auto simp: store_def)
  ultimately show ?thesis unfolding s by simp
qed

text \<open>Property C23: building the ACPI tables succeeds wherever they fit and gives the guest a table tree it
  can walk. The root pointer has its signature, both its checksums hold, and it points to the XSDT, which
  lists the FADT, the MADT and the HPET table, in this order; the FADT points to the DSDT, in both its
  pointers. Every one of the five tables has its signature, its length and a byte sum of zero.\<close>

theorem acpi_setup_correct:
  assumes "unat p + 0x524 \<le> MEM_SIZE" and "unat v + 0x500 < 2 ^ 64"
  shows "\<exists>vm'. Acpi_setup vm p v = Ok (v, vm') \<and>
    (let m = mem_ptr vm'; b = unat p
     in load m b 8 = ascii ''RSD PTR '' \<and> byte_sum (load m b 20) = 0 \<and> byte_sum (load m b 36) = 0 \<and>
        q64 m (b + 24) = v + 0x100 \<and> acpi_table m (b + 0x100) ''XSDT'' \<and>
        map (\<lambda>i. q64 m (b + 0x100 + 36 + 8 * i)) [0..<3] = [v + 0x300, v + 0x200, v + 0x450] \<and>
        acpi_table m (b + 0x300) ''FACP'' \<and> acpi_table m (b + 0x200) ''APIC'' \<and> acpi_table m (b + 0x450) ''HPET'' \<and>
        from_le (load m (b + 0x300 + 40) 4) = (ucast (v + 0x500) :: u32) \<and> q64 m (b + 0x300 + 140) = v + 0x500 \<and>
        acpi_table m (b + 0x500) ''DSDT'')"
proof -
  obtain dsdt madt fadt hpet xsdt rsdp where
    s: "Acpi_setup vm p v = Ok (v, vm\<lparr>mem_ptr := store (store (store (store (store (store (mem_ptr vm) (unat p + 0x500) dsdt)
       (unat p + 0x200) madt) (unat p + 0x300) fadt) (unat p + 0x450) hpet) (unat p + 0x100) xsdt) (unat p) rsdp\<rparr>)"
    and dsdt: "length dsdt = 36" "finished ''DSDT'' dsdt" and madt: "length madt = 80" "finished ''APIC'' madt"
    and fadt: "length fadt = 276" "finished ''FACP'' fadt" "peek fadt 40 4 = le32 (ucast (v + 0x500))" "peek fadt 140 8 = le64 (v + 0x500)"
    and hpet: "length hpet = 56" "finished ''HPET'' hpet"
    and xsdt: "length xsdt = 60" "finished ''XSDT'' xsdt" "peek xsdt 36 8 = le64 (v + 0x300)" "peek xsdt 44 8 = le64 (v + 0x200)"
      "peek xsdt 52 8 = le64 (v + 0x450)"
    and rsdp: "length rsdp = 36" "peek rsdp 0 8 = ascii ''RSD PTR ''" "byte_sum (peek rsdp 0 20) = 0" "byte_sum rsdp = 0"
      "peek rsdp 24 8 = le64 (v + 0x100)"
    by (rule acpi_setup_mem [OF assms])
  let ?b = "unat p"
  let ?m = "store (store (store (store (store (store (mem_ptr vm) (?b + 0x500) dsdt) (?b + 0x200) madt)
    (?b + 0x300) fadt) (?b + 0x450) hpet) (?b + 0x100) xsdt) ?b rsdp"
  note lens = dsdt(1) madt(1) fadt(1) hpet(1) xsdt(1) rsdp(1)
  have tables: "load ?m (?b + 0x500) 36 = dsdt" "load ?m (?b + 0x200) 80 = madt" "load ?m (?b + 0x300) 276 = fadt"
    "load ?m (?b + 0x450) 56 = hpet" "load ?m (?b + 0x100) 60 = xsdt" "load ?m ?b 36 = rsdp"
    using lens by (simp_all add: load_store_other load_store_same_n)
  have fields: "load ?m (?b + 24) 8 = peek rsdp 24 8" "load ?m ?b 8 = peek rsdp 0 8" "load ?m ?b 20 = peek rsdp 0 20"
    "load ?m (?b + 0x300 + 40) 4 = peek fadt 40 4" "load ?m (?b + 0x300 + 140) 8 = peek fadt 140 8"
    "load ?m (?b + 0x100 + 36) 8 = peek xsdt 36 8" "load ?m (?b + 0x100 + 44) 8 = peek xsdt 44 8"
    "load ?m (?b + 0x100 + 52) 8 = peek xsdt 52 8"
    using lens by (simp_all add: load_store_other load_store_peek)
  have ok: "acpi_table ?m (?b + 0x500) ''DSDT''" "acpi_table ?m (?b + 0x200) ''APIC''" "acpi_table ?m (?b + 0x300) ''FACP''"
    "acpi_table ?m (?b + 0x450) ''HPET''" "acpi_table ?m (?b + 0x100) ''XSDT''"
    using tables dsdt madt fadt(1,2) hpet xsdt(1,2) by (auto intro!: finished_in_memory)
  show ?thesis
    unfolding s using ok fields tables(6) rsdp fadt xsdt by (simp add: Let_def q64_def upt_conv_Cons)
qed

theorem acpi_setup_correct_witness:
  "\<exists>vm'. Acpi_setup \<lparr>kvm_fd = (), mem_ptr = (\<lambda>_. 0), mem_size = MEM_SIZE\<rparr> 0x5000000 0xFFFFF80005000000 =
       Ok (0xFFFFF80005000000, vm') \<and> acpi_table (mem_ptr vm') 0x5000300 ''FACP''"
  using acpi_setup_correct [of "0x5000000" "0xFFFFF80005000000" "\<lparr>kvm_fd = (), mem_ptr = (\<lambda>_. 0), mem_size = MEM_SIZE\<rparr>"]
  by (auto simp: MEM_SIZE_def Let_def)

text \<open>How a guest walks the entries of the MADT: a type byte, a length byte, the rest.\<close>

function madt_walk :: "u8 list \<Rightarrow> (u8 \<times> u8 list) list option" where
  "madt_walk d =
     (if d = [] then Some []
      else if length d < 2 \<or> unat (d ! 1) < 2 \<or> length d < unat (d ! 1) then None
      else map_option (Cons (d ! 0, take (unat (d ! 1)) d)) (madt_walk (drop (unat (d ! 1)) d)))"
  by pat_completeness auto
termination
  by (relation "measure length") auto

declare madt_walk.simps [simp del]

lemma madt_entries_walk:
  "madt_walk madt_entries = Some
    [(0, [0, 8, 0, 0, 1, 0, 0, 0]), (1, [1, 12, 1, 0, 0, 0, 0, 0, 0x00, 0x00, 0xC0, 0xFE]),
     (2, [2, 10, 0, 0, 2, 0, 0, 0, 0x05, 0x00]), (4, [4, 6, 0xFF, 0x05, 0x00, 1])]"
  by code_simp

lemma madt_entry_fields:
  "peek [0, 8, 0, 0, 1, 0, 0, 0] 4 4 = le32 1"
  "peek [1, 12, 1, 0, 0, 0, 0, 0, 0x00, 0x00, 0xC0, 0xFE] 4 4 = le32 0"
  "peek [1, 12, 1, 0, 0, 0, 0, 0, 0x00, 0x00, 0xC0, 0xFE] 8 4 = le32 0xFEC00000"
  "peek [2, 10, 0, 0, 2, 0, 0, 0, 0x05, 0x00] 3 1 = [0 :: u8]"
  "from_le (peek [2, 10, 0, 0, 2, 0, 0, 0, 0x05, 0x00] 4 4) = (2 :: u32)"
  by code_simp+

text \<open>The I/O-APIC pin KVM delivers the timer interrupt on.\<close>

lemma timer_route: "e \<in> set gsi_routing \<and> gsi e = 0 \<and> irqchip e = 2 \<longleftrightarrow> e = io_entry 0"
proof -
  have "filter (\<lambda>e. gsi e = 0 \<and> irqchip e = 2) gsi_routing = [io_entry 0]"
    by (simp add: gsi_routing_def upt_24 io_entry_def pic_entry_def)
  from arg_cong [OF this, of set] show ?thesis by auto
qed

text \<open>Property C38: what a guest learns about its interrupts, in the memory that the set-up leaves, for any machine and
  place of the tables. It follows the root pointer to the XSDT, and the XSDT's second entry to the MADT, of whose length field it
  takes the extent of the entries. The walk over them gives four entries that fill it exactly: one enabled
  processor, one I/O APIC, an override for the timer interrupt 0, and the NMI line; the local APIC is at
  \<open>0xFEE00000\<close>. The override names the global interrupt whose I/O-APIC pin KVM routes the timer to. But the
  I/O-APIC entry has its two words the wrong way round: its address field (bytes 4 to 7) is zero and its
  interrupt base (bytes 8 to 11) is \<open>0xFEC00000\<close>.\<close>

theorem madt_describes_interrupts:
  assumes "unat p + 0x524 \<le> MEM_SIZE" and "unat v + 0x500 < 2 ^ 64"
  shows "\<exists>vm' lapic ioapic iso nmi. Acpi_setup vm p v = Ok (v, vm') \<and>
    (let m = mem_ptr vm'; at = (\<lambda>a. unat p + unat (a - v)); xsdt = at (q64 m (unat p + 24)); madt = at (q64 m (xsdt + 44));
         len = unat (from_le (load m (madt + 4) 4) :: u32)
     in load m madt 4 = ascii ''APIC'' \<and> from_le (load m (madt + 36) 4) = (0xFEE00000 :: u32) \<and>
        madt_walk (load m (madt + 44) (len - 44)) = Some [(0, lapic), (1, ioapic), (2, iso), (4, nmi)] \<and>
        from_le (peek lapic 4 4) = (1 :: u32) \<and>
        from_le (peek ioapic 4 4) = (0 :: u32) \<and> from_le (peek ioapic 8 4) = (0xFEC00000 :: u32) \<and>
        peek iso 3 1 = [0] \<and>
        (\<forall>e. e \<in> set gsi_routing \<and> gsi e = 0 \<and> irqchip e = 2 \<longrightarrow> from_le (peek iso 4 4) = pin e))"
proof -
  obtain dsdt madt fadt hpet xsdt rsdp where
    s: "Acpi_setup vm p v = Ok (v, vm\<lparr>mem_ptr := store (store (store (store (store (store (mem_ptr vm) (unat p + 0x500) dsdt)
       (unat p + 0x200) madt) (unat p + 0x300) fadt) (unat p + 0x450) hpet) (unat p + 0x100) xsdt) (unat p) rsdp\<rparr>)"
    and lens: "length dsdt = 36" "length madt = 80" "length fadt = 276" "length hpet = 56" "length xsdt = 60" "length rsdp = 36"
    and madt: "finished ''APIC'' madt" "peek madt 36 4 = le32 0xFEE00000" "peek madt 44 36 = madt_entries"
    and ptrs: "peek xsdt 44 8 = le64 (v + 0x200)" "peek rsdp 24 8 = le64 (v + 0x100)"
    by (rule acpi_setup_mem [OF assms])
  let ?b = "unat p"
  let ?m = "store (store (store (store (store (store (mem_ptr vm) (?b + 0x500) dsdt) (?b + 0x200) madt)
    (?b + 0x300) fadt) (?b + 0x450) hpet) (?b + 0x100) xsdt) ?b rsdp"
  have fields: "load ?m (?b + 24) 8 = peek rsdp 24 8" "load ?m (?b + 0x100 + 44) 8 = peek xsdt 44 8"
    "load ?m (?b + 0x200) 4 = peek madt 0 4" "load ?m (?b + 0x200 + 4) 4 = peek madt 4 4"
    "load ?m (?b + 0x200 + 36) 4 = peek madt 36 4" "load ?m (?b + 0x200 + 44) 36 = peek madt 44 36"
    using lens by (simp_all add: load_store_other load_store_peek)
  have head: "peek madt 0 4 = ascii ''APIC''" "peek madt 4 4 = le32 80" using madt(1) lens(2) by (simp_all add: finished_def)
  have at: "?b + unat (v + 0x100 - v) = ?b + 0x100" "?b + unat (v + 0x200 - v) = ?b + 0x200" by simp_all
  have q: "q64 ?m (?b + 24) = v + 0x100" "q64 ?m (?b + 0x100 + 44) = v + 0x200"
    unfolding q64_def fields ptrs by simp_all
  have len: "unat (from_le (load ?m (?b + 0x200 + 4) 4) :: u32) = 80" unfolding fields head by simp
  have walk: "madt_walk (load ?m (?b + 0x200 + 44) (80 - 44)) = madt_walk madt_entries" using fields(6) madt(3) by simp
  obtain vm' where v: "Acpi_setup vm p v = Ok (v, vm')" "mem_ptr vm' = ?m" using s by simp
  show ?thesis
    by (rule exI [of _ vm'], rule exI [of _ "[0, 8, 0, 0, 1, 0, 0, 0]"],
        rule exI [of _ "[1, 12, 1, 0, 0, 0, 0, 0, 0x00, 0x00, 0xC0, 0xFE]"],
        rule exI [of _ "[2, 10, 0, 0, 2, 0, 0, 0, 0x05, 0x00]"], rule exI [of _ "[4, 6, 0xFF, 0x05, 0x00, 1]"],
        unfold v Let_def q at len walk fields(3,5) head(1) madt(2) madt_entries_walk madt_entry_fields timer_route)
      (simp add: io_entry_def)
qed

theorem madt_describes_interrupts_witness:
  "\<exists>vm' es. Acpi_setup \<lparr>kvm_fd = (), mem_ptr = (\<lambda>_. 0), mem_size = MEM_SIZE\<rparr> 0x5000000 0xFFFFF80005000000 =
       Ok (0xFFFFF80005000000, vm') \<and>
     (let m = mem_ptr vm'; at = (\<lambda>a. 0x5000000 + unat (a - 0xFFFFF80005000000)); madt = at (q64 m (at (q64 m 0x5000018) + 44));
          len = unat (from_le (load m (madt + 4) 4) :: u32)
      in madt_walk (load m (madt + 44) (len - 44)) = Some es \<and> map fst es = [0, 1, 2, 4])"
proof -
  have h: "unat (0x5000000 :: u64) + 0x524 \<le> MEM_SIZE" "unat (0xFFFFF80005000000 :: u64) + 0x500 < 2 ^ 64"
    by (simp_all add: MEM_SIZE_def)
  from madt_describes_interrupts [OF h, of "\<lparr>kvm_fd = (), mem_ptr = (\<lambda>_. 0), mem_size = MEM_SIZE\<rparr>"]
  show ?thesis by (fastforce simp: Let_def)
qed

end
