(* ===== verification/Vcpu.thy ===== *)
theory Vcpu
  imports Vm
begin

text \<open>
  The register state of the virtual CPU as the sources use it (the fields of \<open>kvm_regs\<close>,
  \<open>kvm_sregs\<close>, \<open>kvm_segment\<close> and \<open>kvm_dtable\<close> they read or write), and the KVM calls on it. KVM is
  not part of the repository, so the calls are a parameter: a record of operations on the state of
  the KVM handles. What the sources rely on, that a register file that was set is the one read back,
  is the predicate \<open>regs_law\<close>.
\<close>

record kvm_regs =
  rax :: u64
  rbx :: u64
  rcx :: u64
  rdx :: u64
  rsi :: u64
  rdi :: u64
  rsp :: u64
  rbp :: u64
  r8 :: u64
  r9 :: u64
  r10 :: u64
  r11 :: u64
  r12 :: u64
  r13 :: u64
  r14 :: u64
  r15 :: u64
  rip :: u64
  rflags :: u64

record kvm_segment =
  seg_base :: u64
  seg_limit :: u32
  selector :: u16
  seg_type :: u8
  present :: u8
  dpl :: u8
  seg_db :: u8
  seg_s :: u8
  seg_l :: u8
  seg_g :: u8

record kvm_dtable =
  dt_base :: u64
  dt_limit :: u16

record kvm_sregs =
  cs :: kvm_segment
  ds :: kvm_segment
  es :: kvm_segment
  fs :: kvm_segment
  gs :: kvm_segment
  ss :: kvm_segment
  tr :: kvm_segment
  gdt :: kvm_dtable
  idt :: kvm_dtable
  cr0 :: u64
  cr2 :: u64
  cr3 :: u64
  cr4 :: u64
  efer :: u64

record kvm_cpuid_entry =
  cpuid_function :: u32
  cpuid_eax :: u32
  cpuid_ebx :: u32
  cpuid_ecx :: u32
  cpuid_edx :: u32

record 'k vcpu_ops =
  get_regs :: "'k \<Rightarrow> kvm_regs res"
  set_regs :: "kvm_regs \<Rightarrow> 'k \<Rightarrow> 'k res"
  get_sregs :: "'k \<Rightarrow> kvm_sregs res"
  set_sregs :: "kvm_sregs \<Rightarrow> 'k \<Rightarrow> 'k res"
  get_supported_cpuid :: "'k \<Rightarrow> kvm_cpuid_entry list res"
  set_cpuid2 :: "kvm_cpuid_entry list \<Rightarrow> 'k \<Rightarrow> 'k res"
  set_msrs :: "(u32 \<times> u64) list \<Rightarrow> 'k \<Rightarrow> 'k res"
  set_guest_debug :: "u32 \<Rightarrow> 'k \<Rightarrow> 'k res"
  set_irq_line :: "u32 \<Rightarrow> bool \<Rightarrow> 'k \<Rightarrow> 'k res"
  get_msrs :: "u32 list \<Rightarrow> 'k \<Rightarrow> (u32 \<Rightarrow> u64) res"

text \<open>Documented behaviour of \<open>KVM_SET_REGS\<close> and \<open>KVM_GET_REGS\<close>.\<close>

definition regs_law :: "'k vcpu_ops \<Rightarrow> bool" where
  "regs_law K \<longleftrightarrow> (\<forall>r k k'. set_regs K r k = Ok k' \<longrightarrow> get_regs K k' = Ok r)"

lemma regs_lawD: "regs_law K \<Longrightarrow> set_regs K r k = Ok k' \<Longrightarrow> get_regs K k' = Ok r"
  by (auto simp: regs_law_def)

section \<open>A concrete register file\<close>

text \<open>An instance of the parameter for concrete runs: the handle is the pair of the two register
  files, every call succeeds, and the requests that are not about registers leave it as it is.\<close>

definition regs0 :: kvm_regs where
  "regs0 = \<lparr>rax = 0, rbx = 0, rcx = 0, rdx = 0, rsi = 0, rdi = 0, rsp = 0, rbp = 0, r8 = 0, r9 = 0,
     r10 = 0, r11 = 0, r12 = 0, r13 = 0, r14 = 0, r15 = 0, rip = 0, rflags = 2\<rparr>"

definition seg0 :: kvm_segment where
  "seg0 = \<lparr>seg_base = 0, seg_limit = 0, selector = 0, seg_type = 0, present = 0, dpl = 0, seg_db = 0,
     seg_s = 0, seg_l = 0, seg_g = 0\<rparr>"

definition sregs0 :: kvm_sregs where
  "sregs0 = \<lparr>cs = seg0, ds = seg0, es = seg0, fs = seg0, gs = seg0, ss = seg0, tr = seg0,
     gdt = \<lparr>dt_base = 0, dt_limit = 0\<rparr>, idt = \<lparr>dt_base = 0, dt_limit = 0\<rparr>,
     cr0 = 0, cr2 = 0, cr3 = 0, cr4 = 0, efer = 0\<rparr>"

definition plain_vcpu :: "(kvm_regs \<times> kvm_sregs) vcpu_ops" where
  "plain_vcpu = \<lparr>get_regs = (\<lambda>(r, s). Ok r), set_regs = (\<lambda>r (_, s). Ok (r, s)),
     get_sregs = (\<lambda>(r, s). Ok s), set_sregs = (\<lambda>s (r, _). Ok (r, s)),
     get_supported_cpuid = (\<lambda>_. Ok []), set_cpuid2 = (\<lambda>_. Ok), set_msrs = (\<lambda>_. Ok),
     set_guest_debug = (\<lambda>_. Ok), set_irq_line = (\<lambda>_ _. Ok), get_msrs = (\<lambda>_ _. Ok (\<lambda>_. 0))\<rparr>"

definition plain_vm :: "kvm_sregs \<Rightarrow> (kvm_regs \<times> kvm_sregs) vm" where
  "plain_vm s = \<lparr>kvm_fd = (regs0, s), mem_ptr = (\<lambda>_. 0), mem_size = MEM_SIZE\<rparr>"

lemma plain_vcpu_simps [simp]:
  "get_regs plain_vcpu (r, s) = Ok r" "set_regs plain_vcpu r' (r, s) = Ok (r', s)"
  "get_sregs plain_vcpu (r, s) = Ok s" "set_sregs plain_vcpu s' (r, s) = Ok (r, s')"
  "set_guest_debug plain_vcpu c k = Ok k" "get_supported_cpuid plain_vcpu k = Ok []"
  "set_cpuid2 plain_vcpu e k = Ok k" "set_msrs plain_vcpu ms k = Ok k" "set_irq_line plain_vcpu n b k = Ok k"
  "get_msrs plain_vcpu is k = Ok (\<lambda>_. 0)"
  by (simp_all add: plain_vcpu_def)

lemma plain_regs_law: "regs_law plain_vcpu"
  by (auto simp: regs_law_def)

lemma plain_vm_simps [simp]:
  "kvm_fd (plain_vm s) = (regs0, s)" "mem_ptr (plain_vm s) = (\<lambda>_. 0)" "mem_size (plain_vm s) = MEM_SIZE"
  by (simp_all add: plain_vm_def)

end
