(* ===== verification/Layout.thy ===== *)
theory Layout
  imports Vm
begin

text \<open>
  The physical and virtual memory layout of \<open>src/main.rs\<close>: the constants the loader, the paging
  code, the debugger and the CPU set-up share.
\<close>

definition KRNL_PBASE :: u64 where "KRNL_PBASE = 0x200000"
definition HAL_PBASE :: u64 where "HAL_PBASE = 0x2000000"
definition SYSTEM_BASE :: u64 where "SYSTEM_BASE = 0x8000000"
definition LPB_PBASE :: u64 where "LPB_PBASE = 0x4000000"
definition KPCR_PBASE :: u64 where "KPCR_PBASE = LPB_PBASE + 0x10000"
definition ACPI_PBASE :: u64 where "ACPI_PBASE = 0x5000000"
definition KUSER_PBASE :: u64 where "KUSER_PBASE = 0x9000000"
definition STACK_PBASE :: u64 where "STACK_PBASE = 0x0A000000"

definition K_VIRT_ANY :: u64 where "K_VIRT_ANY = 0xFFFFF80000000000"
definition LPB_VBASE :: u64 where "LPB_VBASE = K_VIRT_ANY + LPB_PBASE"
definition KPCR_VBASE :: u64 where "KPCR_VBASE = LPB_VBASE + 0x10000"
definition ACPI_VBASE :: u64 where "ACPI_VBASE = K_VIRT_ANY + ACPI_PBASE"
definition STACK_VIRT_BASE :: u64 where "STACK_VIRT_BASE = 0xFFFFFE8000000000"
definition STACK_VBASE :: u64 where "STACK_VBASE = STACK_VIRT_BASE"

lemmas layout_defs =
  KRNL_PBASE_def HAL_PBASE_def SYSTEM_BASE_def LPB_PBASE_def KPCR_PBASE_def ACPI_PBASE_def
  KUSER_PBASE_def STACK_PBASE_def K_VIRT_ANY_def LPB_VBASE_def KPCR_VBASE_def ACPI_VBASE_def
  STACK_VIRT_BASE_def STACK_VBASE_def

end
