(* ===== verification/Paging.thy ===== *)
theory Paging
  imports Layout
begin

unbundle bit_operations_syntax

text \<open>
  \<open>setup_kernel_paging\<close> of \<open>src/main.rs\<close>: the four-level page tables the guest boots with, written
  entry by entry into guest memory. The definitions follow the function section by section (PML4,
  kernel and HAL, MMIO, stack, shared user page); \<open>paging_mem\<close> is the closed form of its effect
  on memory, from which the cells of the tables are read off.
\<close>

section \<open>Places of the tables\<close>

definition paging_pbase :: u64 where "paging_pbase = SYSTEM_BASE + 0x100000"
definition pml4_p :: u64 where "pml4_p = paging_pbase + 0x2000"
definition pdpt_high_p :: u64 where "pdpt_high_p = paging_pbase + 0x3000"
definition pdpt_low_p :: u64 where "pdpt_low_p = paging_pbase + 0x6000"
definition pd_kernel_p :: u64 where "pd_kernel_p = paging_pbase + 0xD000"
definition pd_hal_p :: u64 where "pd_hal_p = paging_pbase + 0x14000"
definition pdpt_stack_p :: u64 where "pdpt_stack_p = paging_pbase + 0x4000"
definition pd_stack_p :: u64 where "pd_stack_p = paging_pbase + 0xB000"
definition pdpt_user_p :: u64 where "pdpt_user_p = paging_pbase + 0x5000"
definition pd_user_p :: u64 where "pd_user_p = paging_pbase + 0xC000"
definition pt_user_p :: u64 where "pt_user_p = paging_pbase + 0x15000"
definition bridge_p :: u64 where "bridge_p = paging_pbase + 0x50000"
definition pd_mmio_p :: u64 where "pd_mmio_p = paging_pbase + 0x60000"
definition pt_ioapic_p :: u64 where "pt_ioapic_p = paging_pbase + 0x61000"
definition pt_hpet_p :: u64 where "pt_hpet_p = paging_pbase + 0x61800"
definition pt_apic_p :: u64 where "pt_apic_p = paging_pbase + 0x62000"
definition krnl_pml4_idx :: u64 where "krnl_pml4_idx = 496"
definition nx :: u64 where "nx = push_bit 63 1"

text \<open>\<open>(hal_base >> 21) & 0x1ff\<close>.\<close>

definition hal_pd_idx :: "u64 \<Rightarrow> u64" where
  "hal_pd_idx hal_base = drop_bit 21 hal_base AND 0x1ff"

lemmas paging_places =
  paging_pbase_def pml4_p_def pdpt_high_p_def pdpt_low_p_def pd_kernel_p_def pd_hal_p_def
  pdpt_stack_p_def pd_stack_p_def pdpt_user_p_def pd_user_p_def pt_user_p_def bridge_p_def
  pd_mmio_p_def pt_ioapic_p_def pt_hpet_p_def pt_apic_p_def krnl_pml4_idx_def nx_def

section \<open>The function, section by section\<close>

text \<open>\<open>vm.write_memory(a as usize, &v.to_le_bytes())\<close>.\<close>

abbreviation write_u64 :: "'k vm \<Rightarrow> u64 \<Rightarrow> u64 \<Rightarrow> 'k vm res" where
  "write_u64 vm a v \<equiv> write_memory vm a (le64 v)"

definition paging_pml4 :: "'k vm \<Rightarrow> 'k vm res" where
  "paging_pml4 vm =
     bind_r (write_u64 vm (pml4_p + krnl_pml4_idx * 8) (pdpt_high_p OR 0x3)) (\<lambda>vm.
     bind_r (write_u64 vm (pml4_p + 511 * 8) (pdpt_high_p OR 0x3)) (\<lambda>vm.
     bind_r (write_u64 vm pml4_p (pdpt_low_p OR 0x3)) (\<lambda>vm.
     bind_r (write_u64 vm (pml4_p + 509 * 8) (pdpt_stack_p OR 0x3 OR nx)) (\<lambda>vm.
     bind_r (write_u64 vm (pml4_p + 495 * 8) (pdpt_user_p OR 0x7)) (\<lambda>vm.
     write_u64 vm (pml4_p + 493 * 8) (pml4_p OR 0x3 OR nx))))))"

definition paging_high_half :: "'k vm \<Rightarrow> u64 \<Rightarrow> 'k vm res" where
  "paging_high_half vm hal_base =
     bind_r (write_u64 vm pdpt_high_p (pd_kernel_p OR 0x3)) (\<lambda>vm.
     bind_r (write_u64 vm (pdpt_high_p + 8) (pd_hal_p OR 0x3)) (\<lambda>vm.
     bind_r (for_r (\<lambda>j vm. let phys = of_nat j * 0x200000
                            in write_u64 vm (pd_kernel_p + of_nat j * 8) (phys OR 0x83))
              [0..<512] vm) (\<lambda>vm.
     for_r (\<lambda>j vm. let phys = HAL_PBASE + of_nat j * 0x200000;
                       entry_addr = pd_hal_p + (hal_pd_idx hal_base + of_nat j) * 8
                   in write_u64 vm entry_addr (phys OR 0x83)) [0..<32] vm)))"

definition paging_mmio :: "'k vm \<Rightarrow> 'k vm res" where
  "paging_mmio vm =
     bind_r (ok_or_keep vm (write_u64 vm (pdpt_high_p + 3 * 8) (pd_mmio_p OR 0x3))) (\<lambda>vm.
     bind_r (ok_or_keep vm (write_u64 vm (pd_mmio_p + 502 * 8) (pt_ioapic_p OR 0x3))) (\<lambda>vm.
     bind_r (ok_or_keep vm (write_u64 vm (pd_mmio_p + 503 * 8) (pt_hpet_p OR 0x3))) (\<lambda>vm.
     bind_r (ok_or_keep vm (write_u64 vm (pd_mmio_p + 504 * 8) (pt_apic_p OR 0x3))) (\<lambda>vm.
     bind_r (ok_or_keep vm (write_u64 vm pt_ioapic_p (0xFEC00000 OR 0x1B OR nx))) (\<lambda>vm.
     bind_r (ok_or_keep vm (write_u64 vm pt_hpet_p (0xFED00000 OR 0x1B OR nx))) (\<lambda>vm.
     ok_or_keep vm (write_u64 vm pt_apic_p (0xFEE00000 OR 0x1B OR nx))))))))"

definition paging_stack :: "'k vm \<Rightarrow> 'k vm res" where
  "paging_stack vm =
     bind_r (write_u64 vm pdpt_stack_p (pd_stack_p OR 0x3 OR nx)) (\<lambda>vm.
     for_r (\<lambda>j vm. let phys = STACK_PBASE + of_nat j * 0x200000
                   in write_u64 vm (pd_stack_p + of_nat j * 8) (phys OR 0x83 OR nx)) [0..<512] vm)"

definition paging_kuser :: "'k vm \<Rightarrow> 'k vm res" where
  "paging_kuser vm =
     bind_r (write_u64 vm pdpt_user_p (pd_user_p OR 0x7)) (\<lambda>vm.
     bind_r (write_u64 vm pd_user_p (pt_user_p OR 0x7)) (\<lambda>vm.
     write_u64 vm pt_user_p (KUSER_PBASE OR 0x7)))"

definition setup_kernel_paging :: "'k vm \<Rightarrow> u64 \<Rightarrow> u64 \<Rightarrow> 'k vm res" where
  "setup_kernel_paging vm krnl_base hal_base =
     bind_r (write_memory vm paging_pbase (replicate 524288 0)) (\<lambda>vm.
     bind_r (ok_or_keep vm (write_memory vm bridge_p [0x0F, 0x01, 0xC1])) (\<lambda>vm.
     bind_r (paging_pml4 vm) (\<lambda>vm.
     bind_r (paging_high_half vm hal_base) (\<lambda>vm.
     bind_r (paging_mmio vm) (\<lambda>vm.
     bind_r (paging_stack vm) paging_kuser)))))"

section \<open>A run of table entries\<close>

primrec store_cells :: "(nat \<Rightarrow> u8) \<Rightarrow> nat \<Rightarrow> (nat \<Rightarrow> u64) \<Rightarrow> nat \<Rightarrow> nat \<Rightarrow> u8" where
  "store_cells m b f 0 = m"
| "store_cells m b f (Suc n) = store (store_cells m b f n) (b + 8 * n) (le64 (f n))"

lemma q64_store_cells_in: "j < n \<Longrightarrow> q64 (store_cells m b f n) (b + 8 * j) = f j"
proof (induction n)
  case (Suc n)
  show ?case
  proof (cases "j = n")
    case True then show ?thesis by (simp add: q64_store_same)
  next
    case False
    then have "j < n" using Suc.prems by simp
    then show ?thesis using Suc.IH by (simp add: q64_store_other)
  qed
qed simp

lemma store_cells_other: "a < b \<or> b + 8 * n \<le> a \<Longrightarrow> store_cells m b f n a = m a"
  by (induction n) (auto simp: store_def)

lemma load_store_cells_other [mem_simps]:
  "a + k \<le> b \<or> b + 8 * n \<le> a \<Longrightarrow> load (store_cells m b f n) a k = load m a k"
  by (rule load_cong) (auto simp: store_cells_other)

lemma q64_store_cells_other [mem_simps]:
  "a + 8 \<le> b \<or> b + 8 * n \<le> a \<Longrightarrow> q64 (store_cells m b f n) a = q64 m a"
  by (simp add: q64_def load_store_cells_other)

lemma unat_cell: "unat b + 8 * j < 2 ^ 64 \<Longrightarrow> unat (b + of_nat j * 8 :: u64) = unat b + 8 * j"
proof -
  assume h: "unat b + 8 * j < 2 ^ 64"
  have "unat (of_nat (unat b + 8 * j) :: u64) = unat b + 8 * j" using h by (simp only: unat_of_nat) simp
  then show ?thesis by (simp add: mult.commute)
qed

lemma for_r_write_cells:
  assumes "unat b + 8 * n \<le> MEM_SIZE"
  shows "for_r (\<lambda>j vm. write_u64 vm (b + of_nat j * 8) (f j)) [0..<n] vm =
    Ok (vm\<lparr>mem_ptr := store_cells (mem_ptr vm) (unat b) f n\<rparr>)"
  using assms
proof (induction n)
  case (Suc n)
  have "unat (b + of_nat n * 8) = unat b + 8 * n"
    using Suc.prems by (intro unat_cell) (simp add: MEM_SIZE_def)
  then show ?case using Suc by (simp add: for_r_append write_memory_ok)
qed simp

section \<open>The effect on memory\<close>

definition paging_mem :: "u64 \<Rightarrow> (nat \<Rightarrow> u8) \<Rightarrow> nat \<Rightarrow> u8" where
  "paging_mem hal_base m =
    (let m = store m 0x8100000 (replicate 524288 0);
         m = store m 0x8150000 [0x0F, 0x01, 0xC1];
         m = store m 0x8102F80 (le64 0x8103003);
         m = store m 0x8102FF8 (le64 0x8103003);
         m = store m 0x8102000 (le64 0x8106003);
         m = store m 0x8102FE8 (le64 0x8000000008104003);
         m = store m 0x8102F78 (le64 0x8105007);
         m = store m 0x8102F68 (le64 0x8000000008102003);
         m = store m 0x8103000 (le64 0x810D003);
         m = store m 0x8103008 (le64 0x8114003);
         m = store_cells m 0x810D000 (\<lambda>j. of_nat j * 0x200000 OR 0x83) 512;
         m = store_cells m (0x8114000 + 8 * unat (hal_pd_idx hal_base))
               (\<lambda>j. (0x2000000 + of_nat j * 0x200000) OR 0x83) 32;
         m = store m 0x8103018 (le64 0x8160003);
         m = store m 0x8160FB0 (le64 0x8161003);
         m = store m 0x8160FB8 (le64 0x8161803);
         m = store m 0x8160FC0 (le64 0x8162003);
         m = store m 0x8161000 (le64 0x80000000FEC0001B);
         m = store m 0x8161800 (le64 0x80000000FED0001B);
         m = store m 0x8162000 (le64 0x80000000FEE0001B);
         m = store m 0x8104000 (le64 0x800000000810B003);
         m = store_cells m 0x810B000 (\<lambda>j. (0x0A000000 + of_nat j * 0x200000) OR 0x83 OR nx) 512;
         m = store m 0x8105000 (le64 0x810C007);
         m = store m 0x810C000 (le64 0x8115007);
         m = store m 0x8115000 (le64 0x9000007)
     in m)"

lemma hal_pd_idx_lt: "unat (hal_pd_idx hal_base) < 512"
proof -
  have "hal_pd_idx hal_base = drop_bit 21 hal_base AND mask 9" by (simp add: hal_pd_idx_def mask_eq_exp_minus_1)
  then show ?thesis by (simp add: unat_and_mask)
qed

lemma hal_cell_addr:
  "pd_hal_p + (hal_pd_idx hal_base + of_nat j) * 8 = (pd_hal_p + hal_pd_idx hal_base * 8) + of_nat j * 8"
  by (simp add: algebra_simps)

lemma unat_hal_first: "unat (pd_hal_p + hal_pd_idx hal_base * 8) = 0x8114000 + 8 * unat (hal_pd_idx hal_base)"
  using hal_pd_idx_lt [of hal_base]
  by (simp add: paging_places layout_defs unat_word_ariths)

lemmas kernel_cells = for_r_write_cells [of pd_kernel_p 512 "\<lambda>j. of_nat j * 0x200000 OR 0x83"]
lemmas stack_cells =
  for_r_write_cells [of pd_stack_p 512 "\<lambda>j. (STACK_PBASE + of_nat j * 0x200000) OR 0x83 OR nx"]
lemmas hal_cells =
  for_r_write_cells [of "pd_hal_p + hal_pd_idx hal_base * 8" 32 "\<lambda>j. (HAL_PBASE + of_nat j * 0x200000) OR 0x83" for hal_base]

lemma setup_kernel_paging_mem:
  "setup_kernel_paging vm krnl_base hal_base = Ok (vm\<lparr>mem_ptr := paging_mem hal_base (mem_ptr vm)\<rparr>)"
proof -
  have k: "unat pd_kernel_p + 8 * 512 \<le> MEM_SIZE" "unat pd_stack_p + 8 * 512 \<le> MEM_SIZE"
    by (simp_all add: paging_places layout_defs MEM_SIZE_def)
  have h: "unat (pd_hal_p + hal_pd_idx hal_base * 8) + 8 * 32 \<le> MEM_SIZE"
    using hal_pd_idx_lt [of hal_base] by (simp only: unat_hal_first) (simp add: MEM_SIZE_def)
  show ?thesis
    unfolding setup_kernel_paging_def paging_pml4_def paging_high_half_def paging_mmio_def
      paging_stack_def paging_kuser_def Let_def hal_cell_addr kernel_cells [OF k(1)]
      stack_cells [OF k(2)] hal_cells [OF h] unat_hal_first paging_mem_def
    by (simp add: write_memory_ok paging_places layout_defs MEM_SIZE_def)
qed

section \<open>The cells of the tables\<close>

text \<open>The HAL directory has room for the 32 entries when the base's directory index is at most 480.\<close>

definition hal_fits :: "u64 \<Rightarrow> bool" where
  "hal_fits hal_base \<longleftrightarrow> unat (hal_pd_idx hal_base) \<le> 480"

lemma q64_zeros [mem_simps]:
  "off \<le> a \<Longrightarrow> a + 8 \<le> off + n \<Longrightarrow> q64 (store m off (replicate n 0)) a = 0"
proof -
  assume h: "off \<le> a" "a + 8 \<le> off + n"
  have "load (store m off (replicate n 0)) a 8 = replicate 8 0"
    using h by (intro nth_equalityI) (auto simp: nth_load store_def)
  then show ?thesis by (simp add: q64_def numeral_eq_Suc)
qed

lemma paging_cells:
  assumes fits: "hal_fits hal_base"
  shows cell_pml4_kernel: "q64 (paging_mem hal_base m) 0x8102F80 = 0x8103003"
    and cell_pml4_top: "q64 (paging_mem hal_base m) 0x8102FF8 = 0x8103003"
    and cell_pml4_low: "q64 (paging_mem hal_base m) 0x8102000 = 0x8106003"
    and cell_pml4_stack: "q64 (paging_mem hal_base m) 0x8102FE8 = 0x8000000008104003"
    and cell_pml4_user: "q64 (paging_mem hal_base m) 0x8102F78 = 0x8105007"
    and cell_pml4_self: "q64 (paging_mem hal_base m) 0x8102F68 = 0x8000000008102003"
    and cell_pdpt_kernel: "q64 (paging_mem hal_base m) 0x8103000 = 0x810D003"
    and cell_pdpt_hal: "q64 (paging_mem hal_base m) 0x8103008 = 0x8114003"
    and cell_pdpt_mmio: "q64 (paging_mem hal_base m) 0x8103018 = 0x8160003"
    and cell_pd_ioapic: "q64 (paging_mem hal_base m) 0x8160FB0 = 0x8161003"
    and cell_pd_hpet: "q64 (paging_mem hal_base m) 0x8160FB8 = 0x8161803"
    and cell_pd_apic: "q64 (paging_mem hal_base m) 0x8160FC0 = 0x8162003"
    and cell_pt_ioapic: "q64 (paging_mem hal_base m) 0x8161000 = 0x80000000FEC0001B"
    and cell_pt_hpet: "q64 (paging_mem hal_base m) 0x8161800 = 0x80000000FED0001B"
    and cell_pt_apic: "q64 (paging_mem hal_base m) 0x8162000 = 0x80000000FEE0001B"
    and cell_pdpt_stack: "q64 (paging_mem hal_base m) 0x8104000 = 0x800000000810B003"
    and cell_pdpt_user: "q64 (paging_mem hal_base m) 0x8105000 = 0x810C007"
    and cell_pd_user: "q64 (paging_mem hal_base m) 0x810C000 = 0x8115007"
    and cell_pt_user: "q64 (paging_mem hal_base m) 0x8115000 = 0x9000007"
  using fits unfolding hal_fits_def paging_mem_def Let_def by (simp_all add: mem_simps)

lemma cell_pd_kernel:
  "hal_fits hal_base \<Longrightarrow> j < 512 \<Longrightarrow>
   q64 (paging_mem hal_base m) (0x810D000 + 8 * j) = of_nat j * 0x200000 OR 0x83"
  unfolding hal_fits_def paging_mem_def Let_def by (simp add: mem_simps q64_store_cells_in)

lemma cell_pd_stack:
  "hal_fits hal_base \<Longrightarrow> j < 512 \<Longrightarrow>
   q64 (paging_mem hal_base m) (0x810B000 + 8 * j) = (0x0A000000 + of_nat j * 0x200000) OR 0x83 OR nx"
  unfolding hal_fits_def paging_mem_def Let_def by (simp add: mem_simps q64_store_cells_in)

lemma cell_pd_hal:
  "hal_fits hal_base \<Longrightarrow> j < 32 \<Longrightarrow>
   q64 (paging_mem hal_base m) (0x8114000 + 8 * (unat (hal_pd_idx hal_base) + j)) =
     (0x2000000 + of_nat j * 0x200000) OR 0x83"
  unfolding hal_fits_def paging_mem_def Let_def by (simp add: mem_simps q64_store_cells_in add_mult_distrib2 flip: add.assoc)

lemma cell_pd_hal_absent:
  "hal_fits hal_base \<Longrightarrow> j < 512 \<Longrightarrow> j < unat (hal_pd_idx hal_base) \<or> unat (hal_pd_idx hal_base) + 32 \<le> j \<Longrightarrow>
   q64 (paging_mem hal_base m) (0x8114000 + 8 * j) = 0"
  unfolding hal_fits_def paging_mem_def Let_def by (auto simp add: mem_simps)

lemma cell_pdpt_low:
  "hal_fits hal_base \<Longrightarrow> j < 512 \<Longrightarrow> q64 (paging_mem hal_base m) (0x8106000 + 8 * j) = 0"
  unfolding hal_fits_def paging_mem_def Let_def by (simp add: mem_simps)

lemma cell_pt_user_absent:
  "hal_fits hal_base \<Longrightarrow> 0 < j \<Longrightarrow> j < 512 \<Longrightarrow> q64 (paging_mem hal_base m) (0x8115000 + 8 * j) = 0"
  unfolding hal_fits_def paging_mem_def Let_def by (simp add: mem_simps)

end
