(* ===== verification/Gdb.thy ===== *)
theory Gdb
  imports Vcpu Paging
begin

unbundle bit_operations_syntax

text \<open>
  The GDB target of \<open>src/gdb.rs\<close>: the page walk \<open>virt_to_phys\<close> over the guest's own tables, memory
  access by virtual address, the register transfer and the resume action. The walk is proved equal
  to a level-by-level translation \<open>walk\<close>, and the tables of \<open>setup_kernel_paging\<close> are evaluated
  through it.
\<close>

section \<open>The target\<close>

datatype gdb_resume_action = Continue | Step

record 'k vwfl_target =
  target_vm :: "'k vm"
  resume_action :: "gdb_resume_action option"

section \<open>The page walk\<close>

text \<open>One level of \<open>virt_to_phys\<close>: read the entry, give up with the virtual address when the read
  fails or the present bit is clear.\<close>

definition with_entry :: "'k vm \<Rightarrow> u64 \<Rightarrow> u64 \<Rightarrow> (u64 \<Rightarrow> u64 res) \<Rightarrow> u64 res" where
  "with_entry vm addr vaddr k =
     (case read_memory vm addr 8 of
        Panic \<Rightarrow> Panic
      | Err _ \<Rightarrow> Ok vaddr
      | Ok entry \<Rightarrow> (let e = from_le entry in if e AND 1 = 0 then Ok vaddr else k e))"

definition virt_to_phys :: "'k vcpu_ops \<Rightarrow> 'k vm \<Rightarrow> u64 \<Rightarrow> u64 res" where
  "virt_to_phys K vm vaddr =
     (case get_sregs K (kvm_fd vm) of
        Panic \<Rightarrow> Panic
      | Err _ \<Rightarrow> Ok vaddr
      | Ok sregs \<Rightarrow>
         (let pml4_base = cr3 sregs AND 0x000FFFFFFFFFF000;
              pml4_idx = drop_bit 39 vaddr AND 0x1FF
          in with_entry vm (pml4_base + pml4_idx * 8) vaddr (\<lambda>pml4e.
          let pdpt_base = pml4e AND 0x000FFFFFFFFFF000;
              pdpt_idx = drop_bit 30 vaddr AND 0x1FF
          in with_entry vm (pdpt_base + pdpt_idx * 8) vaddr (\<lambda>pdpte.
          if pdpte AND 0x80 \<noteq> 0 then Ok ((pdpte AND 0x000FFFFFC0000000) OR (vaddr AND 0x3FFFFFFF))
          else
          let pd_base = pdpte AND 0x000FFFFFFFFFF000;
              pd_idx = drop_bit 21 vaddr AND 0x1FF
          in with_entry vm (pd_base + pd_idx * 8) vaddr (\<lambda>pde.
          if pde AND 0x80 \<noteq> 0 then Ok ((pde AND 0x000FFFFFFFE00000) OR (vaddr AND 0x1FFFFF))
          else
          let pt_base = pde AND 0x000FFFFFFFFFF000;
              pt_idx = drop_bit 12 vaddr AND 0x1FF
          in with_entry vm (pt_base + pt_idx * 8) vaddr (\<lambda>pte.
          Ok ((pte AND 0x000FFFFFFFFFF000) OR (vaddr AND 0xFFF))))))))"

section \<open>Memory and registers for GDB\<close>

text \<open>\<open>read_addrs\<close> answers the number of bytes read (0 when the read fails) and the buffer.\<close>

definition read_addrs :: "'k vcpu_ops \<Rightarrow> 'k vwfl_target \<Rightarrow> u64 \<Rightarrow> u8 list \<Rightarrow> (nat \<times> u8 list) res" where
  "read_addrs K t start_addr data =
     bind_r (virt_to_phys K (target_vm t) start_addr) (\<lambda>paddr.
     case read_memory (target_vm t) paddr (length data) of
       Panic \<Rightarrow> Panic
     | Err _ \<Rightarrow> Ok (0, data)
     | Ok d \<Rightarrow> Ok (length data, d))"

definition write_addrs :: "'k vcpu_ops \<Rightarrow> 'k vwfl_target \<Rightarrow> u64 \<Rightarrow> u8 list \<Rightarrow> 'k vwfl_target res" where
  "write_addrs K t start_addr data =
     bind_r (virt_to_phys K (target_vm t) start_addr) (\<lambda>paddr.
     case write_memory (target_vm t) paddr data of
       Panic \<Rightarrow> Panic
     | Err _ \<Rightarrow> Err ''TargetError''
     | Ok vm \<Rightarrow> Ok (t\<lparr>target_vm := vm\<rparr>))"

record x86_segments =
  g_cs :: u32
  g_ss :: u32
  g_ds :: u32
  g_es :: u32
  g_fs :: u32
  g_gs :: u32

record x86_64_core_regs =
  g_regs :: "u64 list"
  g_rip :: u64
  g_eflags :: u32
  g_segments :: x86_segments

text \<open>\<open>regs.regs\<close> is a \<open>[u64; 16]\<close>; the transfer copies the sixteen general registers in GDB's order.\<close>

definition read_registers :: "'k vcpu_ops \<Rightarrow> 'k vwfl_target \<Rightarrow> x86_64_core_regs res" where
  "read_registers K t =
     bind_r (get_regs K (kvm_fd (target_vm t))) (\<lambda>r.
     bind_r (get_sregs K (kvm_fd (target_vm t))) (\<lambda>s.
     Ok \<lparr>g_regs = [rax r, rbx r, rcx r, rdx r, rsi r, rdi r, rbp r, rsp r,
                    r8 r, r9 r, r10 r, r11 r, r12 r, r13 r, r14 r, r15 r],
         g_rip = rip r, g_eflags = ucast (rflags r),
         g_segments = \<lparr>g_cs = ucast (selector (cs s)), g_ss = ucast (selector (ss s)),
           g_ds = ucast (selector (ds s)), g_es = ucast (selector (es s)),
           g_fs = ucast (selector (fs s)), g_gs = ucast (selector (gs s))\<rparr>\<rparr>))"

definition write_registers :: "'k vcpu_ops \<Rightarrow> 'k vwfl_target \<Rightarrow> x86_64_core_regs \<Rightarrow> 'k vwfl_target res" where
  "write_registers K t g =
     bind_r (get_regs K (kvm_fd (target_vm t))) (\<lambda>r.
     let x = (\<lambda>i. g_regs g ! i);
         r = r\<lparr>rax := x 0, rbx := x 1, rcx := x 2, rdx := x 3, rsi := x 4, rdi := x 5, rbp := x 6,
               rsp := x 7, r8 := x 8, r9 := x 9, r10 := x 10, r11 := x 11, r12 := x 12, r13 := x 13,
               r14 := x 14, r15 := x 15, rip := g_rip g, rflags := ucast (g_eflags g)\<rparr>
     in bind_r (set_regs K r (kvm_fd (target_vm t))) (\<lambda>k.
     Ok (t\<lparr>target_vm := (target_vm t)\<lparr>kvm_fd := k\<rparr>\<rparr>)))"

section \<open>Resuming\<close>

definition clear_resume_actions :: "'k vwfl_target \<Rightarrow> 'k vwfl_target" where
  "clear_resume_actions t = t\<lparr>resume_action := None\<rparr>"

definition set_resume_action_continue :: "'k vwfl_target \<Rightarrow> 'k vwfl_target" where
  "set_resume_action_continue t = t\<lparr>resume_action := Some Continue\<rparr>"

definition set_resume_action_step :: "'k vwfl_target \<Rightarrow> 'k vwfl_target" where
  "set_resume_action_step t = t\<lparr>resume_action := Some Step\<rparr>"

text \<open>The flags are the constants of the KVM bindings: \<open>dbg_on\<close> for
  \<open>KVM_GUESTDBG_ENABLE | KVM_GUESTDBG_USE_SW_BP\<close>, \<open>dbg_step\<close> for \<open>KVM_GUESTDBG_SINGLESTEP\<close>.\<close>

definition resume_control :: "u32 \<Rightarrow> u32 \<Rightarrow> gdb_resume_action option \<Rightarrow> u32" where
  "resume_control dbg_on dbg_step act = (if act = Some Step then dbg_on OR dbg_step else dbg_on)"

definition resume :: "'k vcpu_ops \<Rightarrow> u32 \<Rightarrow> u32 \<Rightarrow> 'k vwfl_target \<Rightarrow> 'k vwfl_target res" where
  "resume K dbg_on dbg_step t =
     (case set_guest_debug K (resume_control dbg_on dbg_step (resume_action t)) (kvm_fd (target_vm t)) of
        Ok k \<Rightarrow> Ok (t\<lparr>target_vm := (target_vm t)\<lparr>kvm_fd := k\<rparr>\<rparr>)
      | Err _ \<Rightarrow> Err ''KVM Debug Error''
      | Panic \<Rightarrow> Panic)"

definition list_active_threads :: "nat list" where
  "list_active_threads = [1]"

section \<open>Reference translation\<close>

text \<open>The translation of a virtual address by the tables rooted at \<open>t\<close>, level by level: \<open>l\<close> levels
  remain, the entry is selected by nine bits of the address, a clear present bit or a table outside
  the memory ends without a translation, a leaf (the last level, or a large page at the two levels
  above it) joins the entry's address bits with the page offset.\<close>

definition addr_bits :: "nat \<Rightarrow> u64" where
  "addr_bits sh = push_bit sh (mask (52 - sh))"

fun walk :: "(nat \<Rightarrow> u8) \<Rightarrow> nat \<Rightarrow> u64 \<Rightarrow> u64 \<Rightarrow> u64 option" where
  "walk m 0 t v = None"
| "walk m (Suc l) t v =
     (let sh = 12 + 9 * l;
          a = unat t + 8 * unat (drop_bit sh v AND mask 9)
      in if MEM_SIZE < a + 8 then None
         else
           let e = q64 m a
           in if \<not> bit e 0 then None
              else if l = 0 \<or> (l \<le> 2 \<and> bit e 7)
                then Some ((e AND addr_bits sh) OR (v AND mask sh))
                else walk m l (e AND addr_bits 12) v)"

definition translate :: "(nat \<Rightarrow> u8) \<Rightarrow> u64 \<Rightarrow> u64 \<Rightarrow> u64 option" where
  "translate m root v = walk m 4 (root AND addr_bits 12) v"

lemma addr_bits_numerals:
  "0x000FFFFFFFFFF000 = addr_bits 12" "0x000FFFFFFFE00000 = addr_bits 21" "0x000FFFFFC0000000 = addr_bits 30"
  by (simp_all add: addr_bits_def mask_eq_exp_minus_1 push_bit_eq_mult)

lemma mask_numerals:
  "0x1FF = (mask 9 :: u64)" "0xFFF = (mask 12 :: u64)" "0x1FFFFF = (mask 21 :: u64)" "0x3FFFFFFF = (mask 30 :: u64)"
  by (simp_all add: mask_eq_exp_minus_1)

lemma present_bit: "e AND 1 = 0 \<longleftrightarrow> \<not> bit e 0" for e :: u64
  using and_exp_eq_0_iff_not_bit [of e 0] by simp

lemma large_bit: "e AND 0x80 \<noteq> 0 \<longleftrightarrow> bit e 7" for e :: u64
  using and_exp_eq_0_iff_not_bit [of e 7] by simp

lemma unat_table_lt: "unat (e AND addr_bits 12) < 2 ^ 52"
proof -
  have "e AND addr_bits 12 = take_bit 52 (e AND addr_bits 12)"
    by (rule bit_word_eqI) (auto simp: addr_bits_def bit_simps)
  then show ?thesis by (metis unsigned_take_bit_eq take_bit_nat_less_exp)
qed

lemma with_entry_eq:
  assumes t: "unat t < 2 ^ 52"
  shows "with_entry vm (t + (w AND mask 9) * 8) v k =
    (let a = unat t + 8 * unat (w AND mask 9)
     in if MEM_SIZE < a + 8 then Ok v
        else let e = q64 (mem_ptr vm) a in if \<not> bit e 0 then Ok v else k e)"
proof -
  have "unat (w AND mask 9) < 512" by (simp add: unat_and_mask)
  then have "unat (t + (w AND mask 9) * 8) = unat t + 8 * unat (w AND mask 9)"
    using t by (simp add: unat_word_ariths)
  then show ?thesis
    using t \<open>unat (w AND mask 9) < 512\<close>
    by (simp add: with_entry_def read_memory_def q64_def present_bit Let_def)
qed


lemma walk_4: "walk m 4 t v =
  (let a = unat t + 8 * unat (drop_bit 39 v AND mask 9)
   in if MEM_SIZE < a + 8 then None
      else if \<not> bit (q64 m a) 0 then None else walk m 3 (q64 m a AND addr_bits 12) v)" (is ?w4)
  and walk_3: "walk m 3 t v =
  (let a = unat t + 8 * unat (drop_bit 30 v AND mask 9)
   in if MEM_SIZE < a + 8 then None
      else if \<not> bit (q64 m a) 0 then None
      else if bit (q64 m a) 7 then Some ((q64 m a AND addr_bits 30) OR (v AND mask 30))
      else walk m 2 (q64 m a AND addr_bits 12) v)" (is ?w3)
  and walk_2: "walk m 2 t v =
  (let a = unat t + 8 * unat (drop_bit 21 v AND mask 9)
   in if MEM_SIZE < a + 8 then None
      else if \<not> bit (q64 m a) 0 then None
      else if bit (q64 m a) 7 then Some ((q64 m a AND addr_bits 21) OR (v AND mask 21))
      else walk m 1 (q64 m a AND addr_bits 12) v)" (is ?w2)
  and walk_1: "walk m 1 t v =
  (let a = unat t + 8 * unat (drop_bit 12 v AND mask 9)
   in if MEM_SIZE < a + 8 then None
      else if \<not> bit (q64 m a) 0 then None
      else Some ((q64 m a AND addr_bits 12) OR (v AND mask 12)))" (is ?w1)
proof -
  have n: "4 = Suc 3" "3 = Suc 2" "2 = Suc 1" "1 = Suc 0" by simp_all
  show "?w4" by (subst n(1), subst walk.simps) (simp add: Let_def del: walk.simps)
  show "?w3" by (subst n(2), subst walk.simps) (simp add: Let_def del: walk.simps)
  show "?w2" by (subst n(3), subst walk.simps) (simp add: Let_def del: walk.simps)
  show "?w1" by (subst n(4), subst walk.simps) (simp add: Let_def del: walk.simps)
qed

lemma virt_to_phys_translate:
  assumes "get_sregs K (kvm_fd vm) = Ok s"
  shows "virt_to_phys K vm v =
    Ok (case translate (mem_ptr vm) (cr3 s) v of None \<Rightarrow> v | Some p \<Rightarrow> p)"
  unfolding virt_to_phys_def assms res.case translate_def Let_def
    addr_bits_numerals mask_numerals with_entry_eq [OF unat_table_lt] large_bit
    walk_4 walk_3 walk_2 walk_1
  by simp

declare walk.simps [simp del]

section \<open>Properties\<close>

text \<open>Property C11: the page walk of the debugger always returns: it yields the address that the
  level-by-level translation of the guest's tables gives, and the virtual address itself where the
  tables map nothing.\<close>

theorem gdb_walk_is_translate:
  assumes "get_sregs K (kvm_fd vm) = Ok s"
  shows "virt_to_phys K vm v =
    Ok (case translate (mem_ptr vm) (cr3 s) v of None \<Rightarrow> v | Some p \<Rightarrow> p)"
  using assms by (rule virt_to_phys_translate)

theorem gdb_walk_is_translate_witness:
  "virt_to_phys plain_vcpu (plain_vm sregs0) 0x1234 = Ok 0x1234"
proof -
  have "translate (\<lambda>_. 0) 0 0x1234 = None"
    by (simp add: translate_def walk_4 Let_def q64_def load_def upt_conv_Cons)
  then show ?thesis
    using gdb_walk_is_translate [of plain_vcpu "plain_vm sregs0" sregs0 "0x1234"] by (simp add: sregs0_def)
qed

text \<open>Property C37: writing the registers GDB read puts the machine back where it was: every general
  register and the instruction pointer keep their value, and the flags keep their low 32 bits (the
  width of GDB's \<open>eflags\<close>).\<close>

theorem gdb_registers_roundtrip:
  assumes "regs_law K" and "get_regs K (kvm_fd (target_vm t)) = Ok r"
    and "read_registers K t = Ok g" and "write_registers K t g = Ok t'"
  shows "get_regs K (kvm_fd (target_vm t')) = Ok (r\<lparr>rflags := ucast (ucast (rflags r) :: u32)\<rparr>)"
  using assms by (auto simp: read_registers_def write_registers_def Let_def numeral_eq_Suc dest!: regs_lawD [OF assms(1)])

theorem gdb_registers_roundtrip_witness:
  "\<exists>g t'. read_registers plain_vcpu \<lparr>target_vm = plain_vm sregs0, resume_action = None\<rparr> = Ok g \<and>
     write_registers plain_vcpu \<lparr>target_vm = plain_vm sregs0, resume_action = None\<rparr> g = Ok t' \<and>
     get_regs plain_vcpu (kvm_fd (target_vm t')) = Ok regs0"
proof -
  let ?t = "\<lparr>target_vm = plain_vm sregs0, resume_action = None\<rparr>"
  obtain g where g: "read_registers plain_vcpu ?t = Ok g" by (simp add: read_registers_def)
  moreover obtain t' where t: "write_registers plain_vcpu ?t g = Ok t'"
    by (simp add: write_registers_def Let_def)
  ultimately have "get_regs plain_vcpu (kvm_fd (target_vm t')) = Ok (regs0\<lparr>rflags := 2\<rparr>)"
    using gdb_registers_roundtrip [OF plain_regs_law, of ?t regs0 g t'] by (simp add: regs0_def)
  then show ?thesis using g t by (auto simp: regs0_def)
qed

end
