(* ===== verification/GuestMap.thy ===== *)
theory GuestMap
  imports Gdb
begin

unbundle bit_operations_syntax

text \<open>
  The address space the guest boots with: the tables of \<open>setup_kernel_paging\<close> (\<open>src/main.rs\<close>)
  evaluated by the translation of the page walk (\<open>src/gdb.rs\<close>). Each region of the high half is
  translated for every address in it, and so are the places where the tables do not map what the
  loader puts there.
\<close>

section \<open>Steps of the walk\<close>

lemma walk_index:
  assumes "unat v = (512 * q + r) * 2 ^ s + y" and "r + y div 2 ^ s < 512"
  shows "unat (drop_bit s v AND mask 9) = r + y div 2 ^ s"
proof -
  have "unat v div 2 ^ s = 512 * q + (r + y div 2 ^ s)" using assms(1) by simp
  then show ?thesis using assms(2) by (simp add: unat_and_mask unat_drop_bit)
qed

lemma leaf_unat:
  assumes "unat b * 2 ^ sh < 2 ^ 64" and "sh < 64"
  shows "unat (push_bit sh b OR (v AND mask sh) :: u64) = unat b * 2 ^ sh + unat v mod 2 ^ sh"
proof -
  have d: "push_bit sh b + (v AND mask sh) = push_bit sh b OR (v AND mask sh)"
    by (rule disjunctive_add) (auto simp: bit_simps)
  have p: "unat (push_bit sh b) = unat b * 2 ^ sh"
    using assms by (simp only: unsigned_push_bit_eq) (simp add: push_bit_eq_mult take_bit_nat_eq_self)
  have e: "(2::nat) ^ 64 = 2 ^ (64 - sh) * 2 ^ sh" using assms by (simp only: flip: power_add) simp
  have "unat b < 2 ^ (64 - sh)" using assms(1) unfolding e by simp
  then have "(unat b + 1) * 2 ^ sh \<le> 2 ^ (64 - sh) * 2 ^ sh" by (intro mult_right_mono) auto
  then have "unat b * 2 ^ sh + 2 ^ sh \<le> 2 ^ 64" unfolding e by (simp add: algebra_simps)
  moreover have "unat v mod 2 ^ sh < 2 ^ sh" by (rule mod_less_divisor) simp
  ultimately have "unat b * 2 ^ sh + unat v mod 2 ^ sh < 2 ^ 64" by linarith
  then have "unat (push_bit sh b + (v AND mask sh)) = unat b * 2 ^ sh + unat v mod 2 ^ sh"
    using p by (subst unat_plus_lt) (auto simp: unat_and_mask)
  then show ?thesis using d by simp
qed

lemma bits_0x83: "21 \<le> n \<Longrightarrow> \<not> bit (0x83 :: int) n"
proof
  assume "21 \<le> n" and "bit (0x83 :: int) n"
  moreover have "take_bit 21 (0x83 :: int) = 0x83" by simp
  ultimately show False by (metis bit_take_bit_iff not_le)
qed

lemma bits_0x83_nx: "21 \<le> n \<Longrightarrow> n - 21 < 31 \<Longrightarrow> \<not> bit (0x8000000000000083 :: int) n"
proof
  assume n: "21 \<le> n" "n - 21 < 31" and b: "bit (0x8000000000000083 :: int) n"
  have "take_bit 52 (0x8000000000000083 :: int) = 0x83" by simp
  moreover have "bit (take_bit 52 (0x8000000000000083 :: int)) n"
    using n b by (simp only: bit_take_bit_iff) simp
  ultimately have "bit (0x83 :: int) n" by simp
  with n show False by (simp add: bits_0x83)
qed

lemma large_entry:
  assumes "unat b < 2 ^ 31"
  shows "bit (push_bit 21 b OR 0x83 :: u64) 0" "bit (push_bit 21 b OR 0x83 :: u64) 7"
    "(push_bit 21 b OR 0x83) AND addr_bits 21 = push_bit 21 b"
    "(push_bit 21 b OR 0x83 OR nx) AND addr_bits 21 = push_bit 21 b"
    "bit (push_bit 21 b OR 0x83 OR nx :: u64) 0" "bit (push_bit 21 b OR 0x83 OR nx :: u64) 7"
proof -
  have "b = take_bit 31 b" using assms
    by (metis take_bit_nat_eq_self_iff unsigned_take_bit_eq word_unat_eq_iff)
  then have b: "bit b n \<Longrightarrow> n < 31" for n by (metis bit_take_bit_iff)
  show "(push_bit 21 b OR 0x83) AND addr_bits 21 = push_bit 21 b"
    by (rule bit_word_eqI) (auto simp: addr_bits_def bit_simps bits_0x83 bits_0x83_nx dest: b)
  show "(push_bit 21 b OR 0x83 OR nx) AND addr_bits 21 = push_bit 21 b"
    unfolding nx_def by (rule bit_word_eqI) (auto simp: addr_bits_def bit_simps bits_0x83 bits_0x83_nx dest: b)
qed (simp_all add: bit_simps)

lemma page_2m: "of_nat j * 0x200000 = (push_bit 21 (of_nat j) :: u64)"
  "0x2000000 + of_nat j * 0x200000 = (push_bit 21 (16 + of_nat j) :: u64)"
  "0x0A000000 + of_nat j * 0x200000 = (push_bit 21 (80 + of_nat j) :: u64)"
  by (simp_all add: push_bit_eq_mult algebra_simps)

lemma walk_4_table:
  "\<lbrakk>unat (drop_bit 39 v AND mask 9) = i; unat t + 8 * i + 8 \<le> MEM_SIZE; q64 m (unat t + 8 * i) = e; bit e 0\<rbrakk>
   \<Longrightarrow> walk m 4 t v = walk m 3 (e AND addr_bits 12) v"
  by (simp add: walk_4)

lemma walk_3_table:
  "\<lbrakk>unat (drop_bit 30 v AND mask 9) = i; unat t + 8 * i + 8 \<le> MEM_SIZE; q64 m (unat t + 8 * i) = e; bit e 0;
    \<not> bit e 7\<rbrakk> \<Longrightarrow> walk m 3 t v = walk m 2 (e AND addr_bits 12) v"
  by (simp add: walk_3)

lemma walk_2_table:
  "\<lbrakk>unat (drop_bit 21 v AND mask 9) = i; unat t + 8 * i + 8 \<le> MEM_SIZE; q64 m (unat t + 8 * i) = e; bit e 0;
    \<not> bit e 7\<rbrakk> \<Longrightarrow> walk m 2 t v = walk m 1 (e AND addr_bits 12) v"
  by (simp add: walk_2)

lemma walk_2_page:
  assumes "unat (drop_bit 21 v AND mask 9) = i" and "unat t + 8 * i + 8 \<le> MEM_SIZE"
    and e: "q64 m (unat t + 8 * i) = push_bit 21 b OR 0x83 \<or> q64 m (unat t + 8 * i) = push_bit 21 b OR 0x83 OR nx"
    and b: "unat b < 2 ^ 31"
  shows "walk m 2 t v = Some (push_bit 21 b OR (v AND mask 21))"
  using e assms(1,2) large_entry [OF b] by (auto simp: walk_2)

lemma walk_1_page:
  "\<lbrakk>unat (drop_bit 12 v AND mask 9) = i; unat t + 8 * i + 8 \<le> MEM_SIZE; q64 m (unat t + 8 * i) = e; bit e 0\<rbrakk>
   \<Longrightarrow> walk m 1 t v = Some ((e AND addr_bits 12) OR (v AND mask 12))"
  by (simp add: walk_1 del: One_nat_def)

text \<open>The address bits of the entries that lead to tables.\<close>

lemma table_of_entry:
  "0x8102000 AND addr_bits 12 = 0x8102000" "0x8103003 AND addr_bits 12 = 0x8103000"
  "0x8106003 AND addr_bits 12 = 0x8106000" "0x8000000008104003 AND addr_bits 12 = 0x8104000"
  "0x8105007 AND addr_bits 12 = 0x8105000" "0x8000000008102003 AND addr_bits 12 = 0x8102000"
  "0x810D003 AND addr_bits 12 = 0x810D000" "0x8114003 AND addr_bits 12 = 0x8114000"
  "0x8160003 AND addr_bits 12 = 0x8160000" "0x8161003 AND addr_bits 12 = 0x8161000"
  "0x8161803 AND addr_bits 12 = 0x8161000" "0x8162003 AND addr_bits 12 = 0x8162000"
  "0x800000000810B003 AND addr_bits 12 = 0x810B000" "0x810C007 AND addr_bits 12 = 0x810C000"
  "0x8115007 AND addr_bits 12 = 0x8115000" "0x9000007 AND addr_bits 12 = 0x9000000"
  "0x80000000FEC0001B AND addr_bits 12 = 0xFEC00000" "0x80000000FED0001B AND addr_bits 12 = 0xFED00000"
  "0x80000000FEE0001B AND addr_bits 12 = 0xFEE00000"
  by (simp_all flip: addr_bits_numerals)

lemma walk_2_region:
  assumes v: "unat v = (512 * q + 0) * 2 ^ 21 + y" and j: "y div 2 ^ 21 < 512"
    and t: "unat t + 8 * (y div 2 ^ 21) + 8 \<le> MEM_SIZE"
    and e: "q64 m (unat t + 8 * (y div 2 ^ 21)) = push_bit 21 b OR 0x83 \<or>
            q64 m (unat t + 8 * (y div 2 ^ 21)) = push_bit 21 b OR 0x83 OR nx"
    and b: "unat b < 2 ^ 31" and p: "unat p = unat b * 2 ^ 21 + y mod 2 ^ 21"
  shows "walk m 2 t v = Some p"
proof -
  have i: "unat (drop_bit 21 v AND mask 9) = y div 2 ^ 21" using walk_index [OF v] j by simp
  have "unat v mod 2 ^ 21 = y mod 2 ^ 21" unfolding v by (rule mod_mult_self3)
  moreover have "unat b * 2 ^ 21 < 2 ^ 64" using b by simp
  ultimately have "push_bit 21 b OR (v AND mask 21) = p"
    unfolding word_unat_eq_iff using p by (subst leaf_unat) simp_all
  then show ?thesis using walk_2_page [OF i t e b] by simp
qed

text \<open>The first two levels of the walk, for an address in the first gigabyte below the PML4 entry 496.\<close>

lemma walk_high_half:
  assumes fits: "hal_fits hal_base" and v: "unat v = 0xFFFFF80000000000 + y" and y: "y < 0x8000000000"
  shows "translate (paging_mem hal_base m) pml4_p v = walk (paging_mem hal_base m) 3 0x8103000 v"
proof -
  have i4: "unat (drop_bit 39 v AND mask 9) = 496"
    using walk_index [of v "0xFFFF" 496 39 y] v y by simp
  show ?thesis
    using walk_4_table [OF i4, of "0x8102000" "paging_mem hal_base m"] cell_pml4_kernel [OF fits, of m]
    by (simp add: translate_def paging_places layout_defs table_of_entry MEM_SIZE_def)
qed

lemma translate_kernel:
  assumes fits: "hal_fits hal_base" and x: "unat x < 0x40000000"
  shows "translate (paging_mem hal_base m) pml4_p (K_VIRT_ANY + x) = Some x"
proof -
  let ?m = "paging_mem hal_base m" and ?v = "K_VIRT_ANY + x" and ?j = "unat x div 2 ^ 21"
  have v: "unat ?v = 0xFFFFF80000000000 + unat x"
    using x by (simp add: K_VIRT_ANY_def unat_word_ariths)
  have j: "?j < 512" using x by simp
  have i3: "unat (drop_bit 30 ?v AND mask 9) = 0"
    using walk_index [of ?v "0x1FFFFF0" 0 30 "unat x"] v x by simp
  have "translate ?m pml4_p ?v = walk ?m 3 0x8103000 ?v"
    using walk_high_half [OF fits v] x by simp
  also have "\<dots> = walk ?m 2 0x810D000 ?v"
    using walk_3_table [OF i3, of "0x8103000" ?m] cell_pdpt_kernel [OF fits, of m]
    by (simp add: table_of_entry MEM_SIZE_def)
  also have "\<dots> = Some x"
    using j v cell_pd_kernel [OF fits j, of m]
    by (intro walk_2_region [of ?v "0x3FFFFE000" "unat x" _ _ "of_nat ?j"])
      (simp_all add: page_2m(1) MEM_SIZE_def unat_of_nat)
  finally show ?thesis .
qed

lemma translate_stack:
  assumes fits: "hal_fits hal_base" and x: "unat x < 0x40000000"
  shows "translate (paging_mem hal_base m) pml4_p (STACK_VBASE + x) = Some (STACK_PBASE + x)"
proof -
  let ?m = "paging_mem hal_base m" and ?v = "STACK_VBASE + x" and ?j = "unat x div 2 ^ 21"
  have v: "unat ?v = 0xFFFFFE8000000000 + unat x"
    using x by (simp add: layout_defs unat_word_ariths)
  have j: "?j < 512" using x by simp
  have i4: "unat (drop_bit 39 ?v AND mask 9) = 509"
    using walk_index [of ?v "0xFFFF" 509 39 "unat x"] v x by simp
  have i3: "unat (drop_bit 30 ?v AND mask 9) = 0"
    using walk_index [of ?v "0x1FFFFFD" 0 30 "unat x"] v x by simp
  have "translate ?m pml4_p ?v = walk ?m 3 0x8104000 ?v"
    using walk_4_table [OF i4, of "0x8102000" ?m] cell_pml4_stack [OF fits, of m]
    by (simp add: translate_def paging_places layout_defs table_of_entry MEM_SIZE_def)
  also have "\<dots> = walk ?m 2 0x810B000 ?v"
    using walk_3_table [OF i3, of "0x8104000" ?m] cell_pdpt_stack [OF fits, of m]
    by (simp add: table_of_entry MEM_SIZE_def)
  also have "\<dots> = Some (STACK_PBASE + x)"
    using j v x cell_pd_stack [OF fits j, of m]
    by (intro walk_2_region [of ?v "0x3FFFFFA00" "unat x" _ _ "80 + of_nat ?j"])
      (simp_all add: page_2m(3) MEM_SIZE_def unat_of_nat unat_word_ariths layout_defs)
  finally show ?thesis .
qed

lemma walk_hal_window:
  assumes fits: "hal_fits hal_base" and v: "unat v = 0xFFFFF80040000000 + y" and y: "y < 0x40000000"
  shows "translate (paging_mem hal_base m) pml4_p v = walk (paging_mem hal_base m) 2 0x8114000 v"
proof -
  let ?m = "paging_mem hal_base m"
  have i3: "unat (drop_bit 30 v AND mask 9) = 1"
    using walk_index [of v "0x1FFFFF0" 1 30 y] v y by simp
  have "translate ?m pml4_p v = walk ?m 3 0x8103000 v"
    using walk_high_half [OF fits, of v "0x40000000 + y"] v y by simp
  also have "\<dots> = walk ?m 2 0x8114000 v"
    using walk_3_table [OF i3, of "0x8103000" ?m] cell_pdpt_hal [OF fits, of m]
    by (simp add: table_of_entry MEM_SIZE_def)
  finally show ?thesis .
qed

lemma translate_hal_window:
  assumes fits: "hal_fits hal_base" and x: "unat x < 0x4000000"
  shows "translate (paging_mem hal_base m) pml4_p
           (0xFFFFF80040000000 + hal_pd_idx hal_base * 0x200000 + x) = Some (HAL_PBASE + x)"
proof -
  let ?m = "paging_mem hal_base m" and ?i = "unat (hal_pd_idx hal_base)" and ?j = "unat x div 2 ^ 21"
  let ?v = "0xFFFFF80040000000 + hal_pd_idx hal_base * 0x200000 + x" and ?y = "?i * 2 ^ 21 + unat x"
  have i: "?i \<le> 480" using fits by (simp add: hal_fits_def)
  have v: "unat ?v = 0xFFFFF80040000000 + ?y"
    using x i by (simp add: unat_word_ariths)
  have j: "?j < 32" using x by simp
  have y: "?y div 2 ^ 21 = ?i + ?j" "?y mod 2 ^ 21 = unat x mod 2 ^ 21" by simp_all
  have "translate ?m pml4_p ?v = walk ?m 2 0x8114000 ?v"
    using walk_hal_window [OF fits v] x i by simp
  also have "\<dots> = Some (HAL_PBASE + x)"
    using j i v x cell_pd_hal [OF fits j, of m] y
    by (intro walk_2_region [of ?v "0x3FFFFE001" ?y _ _ "16 + of_nat ?j"])
      (simp_all add: page_2m(2) MEM_SIZE_def unat_of_nat unat_word_ariths layout_defs)
  finally show ?thesis .
qed

lemma translate_hal_gap:
  assumes fits: "hal_fits hal_base" and v: "unat v = 0xFFFFF80040000000 + y" and y: "y < 0x40000000"
    and gap: "y div 2 ^ 21 < unat (hal_pd_idx hal_base) \<or> unat (hal_pd_idx hal_base) + 32 \<le> y div 2 ^ 21"
  shows "translate (paging_mem hal_base m) pml4_p v = None"
proof -
  have j: "y div 2 ^ 21 < 512" using y by simp
  have "unat (drop_bit 21 v AND mask 9) = y div 2 ^ 21"
    using walk_index [of v "0x3FFFFE001" 0 21 y] v y by simp
  then show ?thesis
    using walk_hal_window [OF fits v y] cell_pd_hal_absent [OF fits j gap, of m] by (simp add: walk_2 Let_def)
qed

lemma translate_low_half:
  assumes fits: "hal_fits hal_base" and v: "unat v < 0x8000000000"
  shows "translate (paging_mem hal_base m) pml4_p v = None"
proof -
  let ?m = "paging_mem hal_base m" and ?j = "unat v div 2 ^ 30"
  have j: "?j < 512" using v by simp
  have i4: "unat (drop_bit 39 v AND mask 9) = 0"
    using walk_index [of v 0 0 39 "unat v"] v by simp
  have i3: "unat (drop_bit 30 v AND mask 9) = ?j"
    using walk_index [of v 0 0 30 "unat v"] j by simp
  have "translate ?m pml4_p v = walk ?m 3 0x8106000 v"
    using walk_4_table [OF i4, of "0x8102000" ?m] cell_pml4_low [OF fits, of m]
    by (simp add: translate_def paging_places layout_defs table_of_entry MEM_SIZE_def)
  also have "\<dots> = None" using i3 cell_pdpt_low [OF fits j, of m] by (simp add: walk_3 Let_def)
  finally show ?thesis .
qed

lemma leaf_4k:
  assumes "unat v = k * 2 ^ 12 + unat x" and "unat x < 2 ^ 12" and "unat b * 2 ^ 12 < 2 ^ 64"
  shows "push_bit 12 b OR (v AND mask 12) = (push_bit 12 b + x :: u64)"
proof -
  have o: "unat v mod 2 ^ 12 = unat x" using assms(1,2) by simp
  have p: "unat (push_bit 12 b) = unat b * 2 ^ 12"
    using assms(3) by (simp only: unsigned_push_bit_eq) (simp add: push_bit_eq_mult take_bit_nat_eq_self)
  have "unat b < 2 ^ 52" using assms(3) by simp
  then have "unat (push_bit 12 b) + unat x < 2 ^ 64" using assms(2) p by simp
  then show ?thesis
    unfolding word_unat_eq_iff using leaf_unat [OF assms(3), of v] o p by (simp add: unat_plus_lt)
qed

text \<open>The two megabytes of the shared user page: one page is mapped.\<close>

lemma walk_kuser:
  assumes fits: "hal_fits hal_base" and v: "unat v = 0xFFFFF78000000000 + y" and y: "y < 0x200000"
  shows "translate (paging_mem hal_base m) pml4_p v = walk (paging_mem hal_base m) 1 0x8115000 v"
    and "unat (drop_bit 12 v AND mask 9) = y div 2 ^ 12"
proof -
  let ?m = "paging_mem hal_base m"
  have i4: "unat (drop_bit 39 v AND mask 9) = 495"
    using walk_index [of v "0xFFFF" 495 39 y] v y by simp
  have i3: "unat (drop_bit 30 v AND mask 9) = 0"
    using walk_index [of v "0x1FFFFEF" 0 30 y] v y by simp
  have i2: "unat (drop_bit 21 v AND mask 9) = 0"
    using walk_index [of v "0x3FFFFDE00" 0 21 y] v y by simp
  show "unat (drop_bit 12 v AND mask 9) = y div 2 ^ 12"
    using walk_index [of v "0x7FFFFBC0000" 0 12 y] v y by simp
  have "translate ?m pml4_p v = walk ?m 3 0x8105000 v"
    using walk_4_table [OF i4, of "0x8102000" ?m] cell_pml4_user [OF fits, of m]
    by (simp add: translate_def paging_places layout_defs table_of_entry MEM_SIZE_def)
  also have "\<dots> = walk ?m 2 0x810C000 v"
    using walk_3_table [OF i3, of "0x8105000" ?m] cell_pdpt_user [OF fits, of m]
    by (simp add: table_of_entry MEM_SIZE_def)
  also have "\<dots> = walk ?m 1 0x8115000 v"
    using walk_2_table [OF i2, of "0x810C000" ?m] cell_pd_user [OF fits, of m]
    by (simp add: table_of_entry MEM_SIZE_def)
  finally show "translate ?m pml4_p v = walk ?m 1 0x8115000 v" .
qed

lemma translate_kuser:
  assumes fits: "hal_fits hal_base" and x: "unat x < 0x1000"
  shows "translate (paging_mem hal_base m) pml4_p (0xFFFFF78000000000 + x) = Some (KUSER_PBASE + x)"
proof -
  let ?m = "paging_mem hal_base m" and ?v = "0xFFFFF78000000000 + x"
  have v: "unat ?v = 0xFFFFF78000000000 + unat x" using x by (simp add: unat_word_ariths)
  have y: "unat x < 0x200000" using x by simp
  have i1: "unat (drop_bit 12 ?v AND mask 9) = 0" using walk_kuser(2) [OF fits v y] x by simp
  have "translate ?m pml4_p ?v = Some (0x9000000 OR (?v AND mask 12))"
    using walk_kuser(1) [OF fits v y, of m] walk_1_page [OF i1, of "0x8115000" ?m] cell_pt_user [OF fits, of m]
    by (simp add: table_of_entry MEM_SIZE_def)
  also have "0x9000000 OR (?v AND mask 12) = KUSER_PBASE + x"
    using leaf_4k [of ?v "0xFFFFF78000000" x "0x9000"] v x by (simp add: layout_defs)
  finally show ?thesis .
qed

lemma translate_kuser_rest:
  assumes fits: "hal_fits hal_base" and x: "0x1000 \<le> unat x" "unat x < 0x200000"
  shows "translate (paging_mem hal_base m) pml4_p (0xFFFFF78000000000 + x) = None"
proof -
  let ?v = "0xFFFFF78000000000 + x" and ?j = "unat x div 2 ^ 12"
  have v: "unat ?v = 0xFFFFF78000000000 + unat x" using x by (simp add: unat_word_ariths)
  have "0 < ?j" "?j < 512" using x by (simp_all add: div_greater_zero_iff)
  then show ?thesis
    using walk_kuser(1) [OF fits v x(2), of m] walk_kuser(2) [OF fits v x(2)] cell_pt_user_absent [OF fits, of ?j m] by (simp add: walk_1 Let_def del: One_nat_def)
qed

text \<open>The MMIO window: the directory of the fourth gigabyte.\<close>

lemma walk_mmio:
  assumes fits: "hal_fits hal_base" and v: "unat v = 0xFFFFF800C0000000 + y" and y: "y < 0x40000000"
  shows "translate (paging_mem hal_base m) pml4_p v = walk (paging_mem hal_base m) 2 0x8160000 v"
proof -
  let ?m = "paging_mem hal_base m"
  have i3: "unat (drop_bit 30 v AND mask 9) = 3"
    using walk_index [of v "0x1FFFFF0" 3 30 y] v y by simp
  have "translate ?m pml4_p v = walk ?m 3 0x8103000 v"
    using walk_high_half [OF fits, of v "0xC0000000 + y"] v y by simp
  also have "\<dots> = walk ?m 2 0x8160000 v"
    using walk_3_table [OF i3, of "0x8103000" ?m] cell_pdpt_mmio [OF fits, of m]
    by (simp add: table_of_entry MEM_SIZE_def)
  finally show ?thesis .
qed

lemma translate_mmio_page:
  assumes fits: "hal_fits hal_base" and x: "unat x < 0x1000"
    and v: "unat v = 0xFFFFF800C0000000 + i * 2 ^ 21 + k * 2 ^ 12 + unat x" and i: "i < 512" and k: "k < 512"
    and e2: "q64 (paging_mem hal_base m) (0x8160000 + 8 * i) = e2" "bit e2 0" "\<not> bit e2 7"
      "unat (e2 AND addr_bits 12) + 0x1000 \<le> MEM_SIZE"
    and e1: "q64 (paging_mem hal_base m) (unat (e2 AND addr_bits 12) + 8 * k) = e1" "bit e1 0"
      "e1 AND addr_bits 12 = push_bit 12 b" "unat b * 2 ^ 12 < 2 ^ 64"
  shows "translate (paging_mem hal_base m) pml4_p v = Some (push_bit 12 b + x)"
proof -
  let ?m = "paging_mem hal_base m"
  have i2: "unat (drop_bit 21 v AND mask 9) = i"
    using walk_index [of v "0x3FFFFE003" i 21 "k * 2 ^ 12 + unat x"] v x i k by simp
  have i1: "unat (drop_bit 12 v AND mask 9) = k"
    using walk_index [of v "0x7FFFFC00600 + i" k 12 "unat x"] v x i k by simp
  have "translate ?m pml4_p v = walk ?m 2 0x8160000 v"
    using walk_mmio [OF fits, of v "i * 2 ^ 21 + k * 2 ^ 12 + unat x"] v x i k by simp
  also have "\<dots> = walk ?m 1 (e2 AND addr_bits 12) v"
    using i e2 by (intro walk_2_table [OF i2]) (simp_all add: MEM_SIZE_def)
  also have "\<dots> = Some ((e1 AND addr_bits 12) OR (v AND mask 12))"
    using k e2(4) e1 by (intro walk_1_page [OF i1]) simp_all
  also have "(e1 AND addr_bits 12) OR (v AND mask 12) = push_bit 12 b + x"
    unfolding e1(3) using v x
    by (intro leaf_4k [of _ "0xFFFFF800C0000 + i * 2 ^ 9 + k"] e1(4)) simp_all
  finally show ?thesis .
qed

lemma translate_mmio:
  assumes fits: "hal_fits hal_base" and x: "unat x < 0x1000"
  shows translate_ioapic: "translate (paging_mem hal_base m) pml4_p (0xFFFFF800FEC00000 + x) = Some (0xFEC00000 + x)"
    and translate_hpet: "translate (paging_mem hal_base m) pml4_p (0xFFFFF800FED00000 + x) = Some (0xFED00000 + x)"
    and translate_apic_alias: "translate (paging_mem hal_base m) pml4_p (0xFFFFF800FEE00000 + x) = Some (0xFEC00000 + x)"
    and translate_apic: "translate (paging_mem hal_base m) pml4_p (0xFFFFF800FF000000 + x) = Some (0xFEE00000 + x)"
  using translate_mmio_page [OF fits x, of "0xFFFFF800FEC00000 + x" 502 0 m "0x8161003" "0x80000000FEC0001B" "0xFEC00"]
    translate_mmio_page [OF fits x, of "0xFFFFF800FED00000 + x" 502 256 m "0x8161003" "0x80000000FED0001B" "0xFED00"]
    translate_mmio_page [OF fits x, of "0xFFFFF800FEE00000 + x" 503 0 m "0x8161803" "0x80000000FEC0001B" "0xFEC00"]
    translate_mmio_page [OF fits x, of "0xFFFFF800FF000000 + x" 504 0 m "0x8162003" "0x80000000FEE0001B" "0xFEE00"]
    paging_cells [OF fits, of m] x
  by (simp_all add: table_of_entry unat_word_ariths MEM_SIZE_def)

lemma translate_self_map:
  assumes fits: "hal_fits hal_base" and x: "unat x < 0x1000"
  shows "translate (paging_mem hal_base m) pml4_p (0xFFFFF6FB7DBED000 + x) = Some (pml4_p + x)"
proof -
  let ?m = "paging_mem hal_base m" and ?v = "0xFFFFF6FB7DBED000 + x"
  have v: "unat ?v = 0xFFFFF6FB7DBED000 + unat x" using x by (simp add: unat_word_ariths)
  have i4: "unat (drop_bit 39 ?v AND mask 9) = 493"
    using walk_index [of ?v "0xFFFF" 493 39 "0x7B7DBED000 + unat x"] v x by simp
  have i3: "unat (drop_bit 30 ?v AND mask 9) = 493"
    using walk_index [of ?v "0x1FFFFED" 493 30 "0x3DBED000 + unat x"] v x by simp
  have i2: "unat (drop_bit 21 ?v AND mask 9) = 493"
    using walk_index [of ?v "0x3FFFFDBED" 493 21 "0x1ED000 + unat x"] v x by simp
  have i1: "unat (drop_bit 12 ?v AND mask 9) = 493"
    using walk_index [of ?v "0x7FFFFB7DBED" 493 12 "unat x"] v x by simp
  note c = cell_pml4_self [OF fits, of m] table_of_entry MEM_SIZE_def
  have "translate ?m pml4_p ?v = walk ?m 3 0x8102000 ?v"
    using walk_4_table [OF i4, of "0x8102000" ?m] by (simp add: translate_def paging_places layout_defs c)
  also have "\<dots> = walk ?m 2 0x8102000 ?v" using walk_3_table [OF i3, of "0x8102000" ?m] by (simp add: c)
  also have "\<dots> = walk ?m 1 0x8102000 ?v" using walk_2_table [OF i2, of "0x8102000" ?m] by (simp add: c)
  also have "\<dots> = Some (0x8102000 OR (?v AND mask 12))"
    using walk_1_page [OF i1, of "0x8102000" ?m] by (simp add: c)
  also have "0x8102000 OR (?v AND mask 12) = pml4_p + x"
    using leaf_4k [of ?v "0xFFFFF6FB7DBED" x "0x8102"] v x by (simp add: paging_places layout_defs)
  finally show ?thesis .
qed
section \<open>The walk of the debugger on the boot tables\<close>

lemma boot_walk:
  assumes "setup_kernel_paging vm krnl_base hal_base = Ok vm'" and "get_sregs K (kvm_fd vm') = Ok s"
    and "cr3 s = pml4_p"
  shows "virt_to_phys K vm' v =
    Ok (case translate (paging_mem hal_base (mem_ptr vm)) pml4_p v of None \<Rightarrow> v | Some p \<Rightarrow> p)"
  using assms by (auto simp: virt_to_phys_translate setup_kernel_paging_mem)

lemma paging_mem_outside:
  assumes "a < 0x8100000 \<or> 0x8180000 \<le> a"
  shows "paging_mem hal_base m a = m a"
  using assms hal_pd_idx_lt [of hal_base]
  by (auto simp: paging_mem_def Let_def store_def store_cells_other)

text \<open>The machine of the witnesses: zeroed memory, page tables set up, \<open>cr3\<close> loaded.\<close>

definition booted :: "(kvm_regs \<times> kvm_sregs) vm" where
  "booted = (plain_vm (sregs0\<lparr>cr3 := pml4_p\<rparr>))\<lparr>mem_ptr := paging_mem 0xFFFFF80002000000 (\<lambda>_. 0)\<rparr>"

lemma booted_setup: "setup_kernel_paging (plain_vm (sregs0\<lparr>cr3 := pml4_p\<rparr>)) kb 0xFFFFF80002000000 = Ok booted"
  by (simp add: setup_kernel_paging_mem booted_def)

lemma booted_sregs: "get_sregs plain_vcpu (kvm_fd booted) = Ok (sregs0\<lparr>cr3 := pml4_p\<rparr>)"
  by (simp add: booted_def)

lemma hal_fits_loader: "hal_fits 0xFFFFF80002000000"
  by (simp add: hal_fits_def hal_pd_idx_def)

section \<open>Properties\<close>

text \<open>\<open>setup_kernel_paging\<close> never fails, whatever the machine and the image bases, and
  changes no byte of guest memory outside its half megabyte at \<open>paging_pbase\<close>.\<close>

theorem setup_kernel_paging_total:
  "\<exists>vm'. setup_kernel_paging vm krnl_base hal_base = Ok vm' \<and> kvm_fd vm' = kvm_fd vm \<and>
     (\<forall>a. a < unat paging_pbase \<or> unat paging_pbase + 524288 \<le> a \<longrightarrow> mem_ptr vm' a = mem_ptr vm a)"
  by (simp add: setup_kernel_paging_mem paging_mem_outside paging_places layout_defs)

theorem setup_kernel_paging_total_witness:
  "\<exists>vm'. setup_kernel_paging (plain_vm sregs0) 0 0 = Ok vm' \<and> mem_ptr vm' 0x8000000 = 0"
  using setup_kernel_paging_total [of "plain_vm sregs0" 0 0]
  by (auto simp: paging_places layout_defs)

text \<open>Property C2: after \<open>setup_kernel_paging\<close>, with \<open>cr3\<close> at the PML4, the walk takes every address
  of the first gigabyte of the kernel half to the physical address of the same offset, every address
  of the stack gigabyte to the stack's physical memory, every address of the shared user page to
  \<open>KUSER_PBASE\<close>, and the 64 MB HAL window to \<open>HAL_PBASE\<close>.\<close>

theorem boot_address_space:
  assumes "setup_kernel_paging vm krnl_base hal_base = Ok vm'" and "hal_fits hal_base"
    and "get_sregs K (kvm_fd vm') = Ok s" and "cr3 s = pml4_p"
  shows "(\<forall>x. unat x < 0x40000000 \<longrightarrow> virt_to_phys K vm' (K_VIRT_ANY + x) = Ok x) \<and>
    (\<forall>x. unat x < 0x40000000 \<longrightarrow> virt_to_phys K vm' (STACK_VBASE + x) = Ok (STACK_PBASE + x)) \<and>
    (\<forall>x. unat x < 0x1000 \<longrightarrow> virt_to_phys K vm' (0xFFFFF78000000000 + x) = Ok (KUSER_PBASE + x)) \<and>
    (\<forall>x. unat x < 0x4000000 \<longrightarrow>
       virt_to_phys K vm' (0xFFFFF80040000000 + hal_pd_idx hal_base * 0x200000 + x) = Ok (HAL_PBASE + x))"
  using boot_walk [OF assms(1,3,4)] assms(2)
  by (simp add: translate_kernel translate_stack translate_kuser translate_hal_window)

theorem boot_address_space_witness:
  "virt_to_phys plain_vcpu booted 0xFFFFF80000200000 = Ok KRNL_PBASE \<and>
   virt_to_phys plain_vcpu booted 0xFFFFF80002000000 = Ok HAL_PBASE \<and>
   virt_to_phys plain_vcpu booted 0xFFFFFE8000010000 = Ok 0xA010000 \<and>
   virt_to_phys plain_vcpu booted 0xFFFFF7800000026C = Ok 0x900026C"
proof -
  note b = boot_address_space [OF booted_setup hal_fits_loader booted_sregs]
  note k = b [THEN conjunct1, rule_format] and st = b [THEN conjunct2, THEN conjunct1, rule_format]
    and ku = b [THEN conjunct2, THEN conjunct2, THEN conjunct1, rule_format]
  show ?thesis
    using k [of "0x200000"] k [of "0x2000000"] st [of "0x10000"] ku [of "0x26C"] by (simp add: layout_defs)
qed

text \<open>The entry 493 that the kernel's \<open>MmPteBase\<close> relies on works: the page of the
  recursive mapping that stands for the PML4 itself translates to the PML4.\<close>

theorem self_map_reaches_pml4:
  assumes "setup_kernel_paging vm krnl_base hal_base = Ok vm'" and "hal_fits hal_base"
    and "get_sregs K (kvm_fd vm') = Ok s" and "cr3 s = pml4_p" and "unat x < 0x1000"
  shows "virt_to_phys K vm' (0xFFFFF6FB7DBED000 + x) = Ok (pml4_p + x)"
  using boot_walk [OF assms(1,3,4)] assms(2,5) by (simp add: translate_self_map)

theorem self_map_reaches_pml4_witness:
  "virt_to_phys plain_vcpu booted 0xFFFFF6FB7DBEDF68 = Ok (pml4_p + 0xF68)"
  using self_map_reaches_pml4 [OF booted_setup hal_fits_loader booted_sregs, of "0xF68"] by simp

text \<open>Property C35: the device pages. The I/O APIC and the HPET are found at the kernel address of
  their physical address; the page at the address of the local APIC leads to the I/O APIC instead,
  and the local APIC is mapped 2 MB further up, since \<open>pt_apic_p\<close> is entered at directory index 504
  and not 503.\<close>

theorem mmio_pages:
  assumes "setup_kernel_paging vm krnl_base hal_base = Ok vm'" and "hal_fits hal_base"
    and "get_sregs K (kvm_fd vm') = Ok s" and "cr3 s = pml4_p" and "unat x < 0x1000"
  shows "virt_to_phys K vm' (0xFFFFF800FEC00000 + x) = Ok (0xFEC00000 + x) \<and>
    virt_to_phys K vm' (0xFFFFF800FED00000 + x) = Ok (0xFED00000 + x) \<and>
    virt_to_phys K vm' (0xFFFFF800FEE00000 + x) = Ok (0xFEC00000 + x) \<and>
    virt_to_phys K vm' (0xFFFFF800FF000000 + x) = Ok (0xFEE00000 + x)"
  using boot_walk [OF assms(1,3,4)] assms(2,5)
  by (simp add: translate_ioapic translate_hpet translate_apic_alias translate_apic)

theorem mmio_pages_witness:
  "virt_to_phys plain_vcpu booted 0xFFFFF800FEE00080 = Ok 0xFEC00080"
  using mmio_pages [OF booted_setup hal_fits_loader booted_sregs, of "0x80"] by simp

text \<open>Addresses of the lower half are not mapped at all (the table of PML4 entry 0 stays
  empty), so the walk hands them back unchanged; and of the gigabyte that holds the driver images
  and the registry hive only the 64 MB from the HAL's directory index on are mapped, to the physical
  memory from \<open>HAL_PBASE\<close> on.\<close>

theorem unmapped_regions:
  assumes "setup_kernel_paging vm krnl_base hal_base = Ok vm'" and "hal_fits hal_base"
  shows "(\<forall>v. unat v < 0x8000000000 \<longrightarrow> translate (mem_ptr vm') pml4_p v = None) \<and>
    (\<forall>x. unat x < 0x40000000 \<and>
        (unat x div 0x200000 < unat (hal_pd_idx hal_base) \<or> unat (hal_pd_idx hal_base) + 32 \<le> unat x div 0x200000) \<longrightarrow>
      translate (mem_ptr vm') pml4_p (0xFFFFF80040000000 + x) = None)"
proof -
  have m: "mem_ptr vm' = paging_mem hal_base (mem_ptr vm)" using assms(1) by (auto simp: setup_kernel_paging_mem)
  have "unat (0xFFFFF80040000000 + x :: u64) = 0xFFFFF80040000000 + unat x" if "unat x < 0x40000000" for x :: u64
    using that by (simp add: unat_word_ariths)
  then show ?thesis
    unfolding m using translate_low_half [OF assms(2)] translate_hal_gap [OF assms(2)] by simp
qed

theorem unmapped_regions_witness:
  "translate (mem_ptr booted) pml4_p 0x1000 = None \<and> translate (mem_ptr booted) pml4_p 0xFFFFF80040000000 = None"
proof -
  note u = unmapped_regions [OF booted_setup hal_fits_loader]
  show ?thesis
    using u [THEN conjunct1, rule_format, of "0x1000"] u [THEN conjunct2, rule_format, of 0]
    by (simp add: hal_pd_idx_def)
qed

end
