(* ===== verification/Debug.thy ===== *)
theory Debug
  imports Vcpu Layout NtTypes RustText
begin

unbundle bit_operations_syntax

text \<open>
  The diagnostics of \<open>src/debug.rs\<close>: the fixed table of address windows that stands for the page walk,
  bounded reads of guest memory, the handlers for debug exits and for the diagnostic port, and the
  interrupt table whose stubs report every vector through that port. What the handlers print on the
  standard output is a text of its own (\<open>dump_output\<close>, \<open>trap_output\<close>), which the event loop adds to the
  console; the lines for the standard error are left out. The function
  \<open>virt_to_phys\<close> of this file is named \<open>dbg_virt_to_phys\<close>, since \<open>src/gdb.rs\<close> has one of that name.
\<close>

section \<open>Address windows and reads\<close>

definition dbg_virt_to_phys :: "u64 \<Rightarrow> u64 option" where
  "dbg_virt_to_phys vaddr =
     (let sys_virt_base = 0xFFFFF80000000000 + SYSTEM_BASE
      in if vaddr \<ge> sys_virt_base \<and> vaddr < sys_virt_base + 0x8000000
         then Some ((vaddr - sys_virt_base) + SYSTEM_BASE)
         else if vaddr \<ge> 0xFFFFF80000200000 \<and> vaddr < 0xFFFFF80000200000 + 0x8000000
         then Some ((vaddr - 0xFFFFF80000200000) + KRNL_PBASE)
         else if vaddr \<ge> 0x1c0000000 \<and> vaddr < 0x1c0000000 + 0x2000000
         then Some ((vaddr - 0x1c0000000) + HAL_PBASE)
         else if vaddr \<ge> 0xFFFFFE8000000000 \<and> vaddr < 0xFFFFFE8000000000 + 0x8000000
         then Some ((vaddr - 0xFFFFFE8000000000) + STACK_PBASE)
         else if vaddr \<ge> 0xFFFFF78000000000 \<and> vaddr < 0xFFFFF78000000000 + 0x200000
         then Some ((vaddr - 0xFFFFF78000000000) + KUSER_PBASE)
         else if unat vaddr < MEM_SIZE then Some vaddr
         else None)"

definition safe_read_bytes :: "'k vm \<Rightarrow> u64 \<Rightarrow> nat \<Rightarrow> u8 list res" where
  "safe_read_bytes vm paddr n =
     bind_r (add_chk paddr (of_nat n)) (\<lambda>e.
     if unat e > MEM_SIZE then Err '''' else Ok (load (mem_ptr vm) (unat paddr) n))"

definition safe_read_u64 :: "'k vm \<Rightarrow> u64 \<Rightarrow> u64 res" where
  "safe_read_u64 vm paddr =
     bind_r (add_chk paddr 8) (\<lambda>e.
     if unat e > MEM_SIZE then Err '''' else Ok (from_le (load (mem_ptr vm) (unat paddr) 8)))"

text \<open>\<open>unwrap_or(0)\<close>.\<close>

primrec unwrap_or :: "'a \<Rightarrow> 'a res \<Rightarrow> 'a res" where
  "unwrap_or d (Ok x) = Ok x"
| "unwrap_or d (Err e) = Ok d"
| "unwrap_or d Panic = Panic"

section \<open>Skipping breakpoints\<close>

text \<open>The loop over \<open>CC\<close> bytes. The address grows with every round and an overflow panics, so the loop
  ends.\<close>

function skip_cc :: "'k vm \<Rightarrow> u64 \<Rightarrow> u64 res" where
  "skip_cc vm final_rip =
     (case dbg_virt_to_phys final_rip of
        None \<Rightarrow> Ok final_rip
      | Some p \<Rightarrow>
          (case safe_read_bytes vm p 1 of
             Panic \<Rightarrow> Panic
           | Err e \<Rightarrow> Ok final_rip
           | Ok b \<Rightarrow> if b ! 0 = 0xCC then bind_r (add_chk final_rip 1) (skip_cc vm) else Ok final_rip))"
  by pat_completeness auto
termination
proof (relation "measure (\<lambda>(vm, r). 2 ^ 64 - unat r)")
  fix vm :: "'k vm" and r r' p :: u64 and b :: "u8 list"
  assume "add_chk r 1 = Ok r'"
  then have "unat r' = unat r + 1" using add_chk_unat by fastforce
  then show "((vm, r'), (vm, r)) \<in> measure (\<lambda>(vm, r). 2 ^ 64 - unat r)"
    using unat_lt_64 [of r'] by simp
qed simp

declare skip_cc.simps [simp del]

section \<open>Dumps\<close>

text \<open>What \<open>hex_dump_bytes\<close> prints: two digits and a space for each byte, sixteen to a line. The sum \<open>paddr as
  usize + size\<close> panics when it overflows.\<close>

definition hex_dump_bytes :: "'k vm \<Rightarrow> u64 \<Rightarrow> nat \<Rightarrow> rstring res" where
  "hex_dump_bytes vm paddr n =
     (if unat paddr + n \<ge> 2 ^ 64 then Panic
      else if unat paddr + n > MEM_SIZE
      then Ok (lit ''  [Error] Address 0x'' @ lower_hex 0 (unat paddr) @ lit '' out of bounds.'' @ [10])
      else Ok (concat (map (\<lambda>i. lower_hex 2 (unat (mem_ptr vm (unat paddr + i))) @ [32] @
                              (if (i + 1) mod 16 = 0 then [10] else [])) [0..<n]) @
               (if n mod 16 \<noteq> 0 then [10] else [])))"

text \<open>A line of \<open>NAME: 0x{:016x}\<close> entries, two spaces apart.\<close>

fun dump_row :: "(string \<times> u64) list \<Rightarrow> rstring" where
  "dump_row [] = [10]"
| "dump_row [(n, v)] = lit n @ lit '': 0x'' @ lower_hex 16 (unat v) @ [10]"
| "dump_row ((n, v) # rest) = lit n @ lit '': 0x'' @ lower_hex 16 (unat v) @ lit ''  '' @ dump_row rest"

definition table_row :: "string \<Rightarrow> kvm_dtable \<Rightarrow> rstring" where
  "table_row n t =
     lit n @ lit '': Base=0x'' @ lower_hex 16 (unat (dt_base t)) @ lit '' Limit=0x'' @ lower_hex 4 (unat (dt_limit t)) @ [10]"

definition dump_text :: "kvm_regs \<Rightarrow> kvm_sregs \<Rightarrow> (u32 \<Rightarrow> u64) option \<Rightarrow> rstring" where
  "dump_text r s msrs =
     lit ''------------------ CPU FULL DUMP ------------------'' @ [10] @
     dump_row [(''RIP'', rip r), (''RSP'', rsp r), (''RBP'', rbp r)] @
     dump_row [(''RAX'', rax r), (''RCX'', rcx r), (''RDX'', rdx r)] @
     dump_row [(''RBX'', rbx r), (''RSI'', rsi r), (''RDI'', rdi r)] @
     dump_row [(''R8 '', r8 r), (''R9 '', r9 r), (''R10'', r10 r)] @
     dump_row [(''R11'', r11 r), (''R12'', r12 r), (''R13'', r13 r)] @
     dump_row [(''R14'', r14 r), (''R15'', r15 r)] @
     dump_row [(''CR0'', cr0 s), (''CR2'', cr2 s), (''CR3'', cr3 s)] @
     dump_row [(''CR4'', cr4 s), (''EFER'', efer s)] @
     table_row ''GDT'' (gdt s) @ table_row ''IDT'' (idt s) @
     lit ''TR : Base=0x'' @ lower_hex 16 (unat (seg_base (tr s))) @ lit '' Limit=0x'' @
       lower_hex 8 (unat (seg_limit (tr s))) @ lit '' Type='' @ dec (unat (seg_type (tr s))) @ [10] @
     (case msrs of
        None \<Rightarrow> []
      | Some v \<Rightarrow> dump_row [(''GS_BASE'', v 0xc0000101), (''KGS_BASE'', v 0xc0000102)] @ dump_row [(''LSTAR  '', v 0xc0000082)]) @
     lit ''CS: 0x'' @ lower_hex 0 (unat (selector (cs s))) @ lit ''  SS: 0x'' @ lower_hex 0 (unat (selector (ss s))) @
       lit ''  DS: 0x'' @ lower_hex 0 (unat (selector (ds s))) @ [10] @
     lit ''---------------------------------------------------'' @ [10]"

text \<open>The text of a dump, and the function itself: the text goes to the console, the machine stays as it is.
  A failing read of the registers ends it with nothing printed; one of the MSRs only leaves their lines out.\<close>

definition dump_output :: "'k vcpu_ops \<Rightarrow> 'k vm \<Rightarrow> rstring res" where
  "dump_output K vm =
     bind_r (get_regs K (kvm_fd vm)) (\<lambda>r.
     bind_r (get_sregs K (kvm_fd vm)) (\<lambda>s.
     bind_r (case get_msrs K [0xc0000101, 0xc0000102, 0xc0000082] (kvm_fd vm) of
               Ok v \<Rightarrow> Ok (Some v) | Err e \<Rightarrow> Ok None | Panic \<Rightarrow> Panic) (\<lambda>msrs.
     bind_r (hex_dump_bytes vm 0x4000000 0x100) (\<lambda>d.
     Ok (dump_text r s msrs @ lit ''Hex Dump of LPB at 0x4000000:'' @ [10] @ d @ lit ''END------------'' @ [10])))))"

definition dump_all_registers :: "'k vcpu_ops \<Rightarrow> 'k vm \<Rightarrow> 'k vm res" where
  "dump_all_registers K vm = bind_r (dump_output K vm) (\<lambda>text. Ok vm)"

definition put_regs :: "'k vcpu_ops \<Rightarrow> kvm_regs \<Rightarrow> 'k vm \<Rightarrow> 'k vm res" where
  "put_regs K r vm = bind_r (set_regs K r (kvm_fd vm)) (\<lambda>k. Ok (vm\<lparr>kvm_fd := k\<rparr>))"

section \<open>Debug exits\<close>

text \<open>The length of the breakpoint instruction that an opcode is, 0 for anything else.\<close>

definition break_length :: "u8 list \<Rightarrow> u64" where
  "break_length opcode =
     (if opcode ! 0 = 0xCC then 1
      else if opcode ! 0 = 0xCD \<and> opcode ! 1 = 0x03 then 2
      else if opcode ! 0 = 0xCD \<and> opcode ! 1 = 0x2D then 2
      else 0)"

definition skip_one :: "'k vcpu_ops \<Rightarrow> kvm_regs \<Rightarrow> 'k vm \<Rightarrow> 'k vm res" where
  "skip_one K r vm = bind_r (add_chk (rip r) 1) (\<lambda>n. put_regs K (r\<lparr>rip := n\<rparr>) vm)"

definition handle_guest_debug :: "'k vcpu_ops \<Rightarrow> 'k vm \<Rightarrow> 'k vm res" where
  "handle_guest_debug K vm =
     bind_r (get_regs K (kvm_fd vm)) (\<lambda>r.
     let start_rip = rip r;
         guess = start_rip AND 0x1FFFFFFF
     in case (case dbg_virt_to_phys start_rip of
                Some p \<Rightarrow> Some p
              | None \<Rightarrow> if unat guess < MEM_SIZE then Some guess else None) of
          None \<Rightarrow> skip_one K r vm
        | Some phys_rip \<Rightarrow>
            (case safe_read_bytes vm phys_rip 2 of
               Panic \<Rightarrow> Panic
             | Err e \<Rightarrow> skip_one K r vm
             | Ok opcode \<Rightarrow>
                 if break_length opcode = 0 then Ok vm
                 else bind_r (add_chk start_rip (break_length opcode)) (\<lambda>f.
                      bind_r (skip_cc vm f) (\<lambda>final_rip.
                      if final_rip \<noteq> start_rip then put_regs K (r\<lparr>rip := final_rip\<rparr>) vm else Ok vm))))"

section \<open>The diagnostic port\<close>

definition has_error_code :: "u8 \<Rightarrow> bool" where
  "has_error_code vector \<longleftrightarrow> vector \<in> {8, 10, 11, 12, 13, 14, 17, 30}"

definition handle_diagnostic_trap :: "'k vcpu_ops \<Rightarrow> 'k vm \<Rightarrow> u8 \<Rightarrow> 'k vm res" where
  "handle_diagnostic_trap K vm vector =
     (let save_area_phys = SYSTEM_BASE + 0x60000
      in bind_r (get_regs K (kvm_fd vm)) (\<lambda>r.
      case dbg_virt_to_phys (rsp r) of
        None \<Rightarrow> dump_all_registers K vm
      | Some rsp_phys \<Rightarrow>
      bind_r (if has_error_code vector then unwrap_or 0 (safe_read_u64 vm rsp_phys) else Ok 0) (\<lambda>error_code.
      let offset = (if has_error_code vector then 8 else 0)
      in
      bind_r (add_chk rsp_phys offset) (\<lambda>frame.
      bind_r (unwrap_or 0 (safe_read_u64 vm frame)) (\<lambda>pushed_rip.
      bind_r (add_chk frame 16) (\<lambda>flags_p.
      bind_r (unwrap_or 0 (safe_read_u64 vm flags_p)) (\<lambda>old_rflags.
      bind_r (add_chk frame 24) (\<lambda>rsp_p.
      bind_r (unwrap_or 0 (safe_read_u64 vm rsp_p)) (\<lambda>old_rsp.
      bind_r (unwrap_or 0 (safe_read_u64 vm save_area_phys)) (\<lambda>orig_rax.
      bind_r (unwrap_or 0 (safe_read_u64 vm (save_area_phys + 8))) (\<lambda>orig_rcx.
      bind_r (unwrap_or 0 (safe_read_u64 vm (save_area_phys + 16))) (\<lambda>orig_rdx.
      if vector = 3 \<or> vector = 0x2d then
        bind_r (skip_cc vm pushed_rip) (\<lambda>final_rip.
        put_regs K
          (r\<lparr>rax := (if vector = 0x2d then 0 else orig_rax), rcx := orig_rcx, rdx := orig_rdx,
             rip := final_rip, rsp := old_rsp, rflags := old_rflags AND NOT 0x100\<rparr>) vm)
      else dump_all_registers K vm))))))))))))"

text \<open>What the handler prints on the standard output: nothing for a breakpoint, the vector with the exception
  frame and a dump for the others, the dump alone when the stack is in no window.\<close>

definition trap_output :: "'k vcpu_ops \<Rightarrow> 'k vm \<Rightarrow> u8 \<Rightarrow> rstring" where
  "trap_output K vm vector =
     (let text = (\<lambda>m. case m of Ok t \<Rightarrow> t | Err e \<Rightarrow> [] | Panic \<Rightarrow> []);
          value = (\<lambda>m. case m of Ok v \<Rightarrow> v | Err e \<Rightarrow> 0 | Panic \<Rightarrow> 0);
          save_area_phys = SYSTEM_BASE + 0x60000;
          offset = (if has_error_code vector then 8 else 0)
      in case get_regs K (kvm_fd vm) of
           Panic \<Rightarrow> []
         | Err e \<Rightarrow> []
         | Ok r \<Rightarrow>
      case dbg_virt_to_phys (rsp r) of
        None \<Rightarrow> text (dump_output K vm)
      | Some rsp_phys \<Rightarrow>
          if vector = 3 \<or> vector = 0x2d then []
          else
            [10] @ lit ''[DIAGNOSTIC] Trap triggered! Vector Number: '' @ dec (unat vector) @ [10] @
            (if has_error_code vector
             then lit ''Error Code   : 0x'' @ lower_hex 0 (unat (value (safe_read_u64 vm rsp_phys))) @ [10] else []) @
            lit ''------------------ EXCEPTION FRAME ------------------'' @ [10] @
            dump_row [(''FAULTING RIP'', value (safe_read_u64 vm (rsp_phys + offset)))] @
            lit ''STACK DUMP   : 0x'' @ lower_hex 16 (unat (rsp r)) @ lit '' (Phys: 0x'' @ lower_hex 0 (unat rsp_phys) @ lit '')'' @ [10] @
            dump_row [(''KERNEL RAX   '', value (safe_read_u64 vm save_area_phys))] @
            dump_row [(''KERNEL RCX   '', value (safe_read_u64 vm (save_area_phys + 8)))] @
            dump_row [(''KERNEL RDX   '', value (safe_read_u64 vm (save_area_phys + 16)))] @
            text (dump_output K vm))"

section \<open>The diagnostic interrupt table\<close>

definition idt_pbase :: u64 where "idt_pbase = SYSTEM_BASE + 0x20000"
definition stub_base_p :: u64 where "stub_base_p = SYSTEM_BASE + 0x10000"
definition stub_base_v :: u64 where "stub_base_v = 0xFFFFF80000000000 + stub_base_p"
definition save_area_v :: u64 where "save_area_v = 0xFFFFF80000000000 + (SYSTEM_BASE + 0x60000)"

definition idt_stub :: "nat \<Rightarrow> u8 list" where
  "idt_stub i =
     [0x48, 0xA3] @ le64 save_area_v @ [0x48, 0x89, 0xC8, 0x48, 0xA3] @ le64 (save_area_v + 8) @
     [0x48, 0x89, 0xD0, 0x48, 0xA3] @ le64 (save_area_v + 16) @ [0xB0, of_nat i, 0xE6, 0xF9, 0xF4]"

definition idt_entry :: "u64 \<Rightarrow> u8 list" where
  "idt_entry h =
     fold (\<lambda>(off, v). poke off v)
       [(0, le16 (ucast h)), (2, le16 0x10), (5, [0x8E]), (6, le16 (ucast (drop_bit 16 h))),
        (8, le32 (ucast (drop_bit 32 h)))]
       (replicate 16 0)"

definition idt_step :: "nat \<Rightarrow> 'k vm \<Rightarrow> 'k vm res" where
  "idt_step i vm =
     bind_r (write_memory vm (stub_base_p + of_nat i * 64) (idt_stub i)) (\<lambda>vm.
     write_memory vm (idt_pbase + of_nat i * 16) (idt_entry (stub_base_v + of_nat i * 64)))"

definition setup_diagnostic_idt :: "'k vm \<Rightarrow> 'k vm res" where
  "setup_diagnostic_idt vm = for_r idt_step [0..<256] vm"

section \<open>The interrupt table\<close>

text \<open>How the processor reads a 64-bit gate: the handler address in three parts.\<close>

definition gate_handler :: "u8 list \<Rightarrow> u64" where
  "gate_handler e =
     ucast (from_le (peek e 0 2) :: u16) OR push_bit 16 (ucast (from_le (peek e 6 2) :: u16)) OR
     push_bit 32 (ucast (from_le (peek e 8 4) :: u32))"

lemma idt_entry_parts:
  "length (idt_entry h) = 16" "peek (idt_entry h) 0 2 = le16 (ucast h)" "peek (idt_entry h) 2 2 = le16 0x10"
  "peek (idt_entry h) 5 1 = [0x8E]" "peek (idt_entry h) 6 2 = le16 (ucast (drop_bit 16 h))"
  "peek (idt_entry h) 8 4 = le32 (ucast (drop_bit 32 h))"
  by (simp_all add: idt_entry_def length_poke peek_poke_same peek_poke_other)

lemma gate_handler_entry: "gate_handler (idt_entry h) = h"
proof -
  have "gate_handler (idt_entry h) =
      ucast (ucast h :: u16) OR push_bit 16 (ucast (ucast (drop_bit 16 h) :: u16)) OR
      push_bit 32 (ucast (ucast (drop_bit 32 h) :: u32))"
    by (simp add: gate_handler_def idt_entry_parts)
  also have "\<dots> = h"
  proof (rule bit_word_eqI)
    fix n assume "n < LENGTH(64)"
    then show "bit (ucast (ucast h :: u16) OR push_bit 16 (ucast (ucast (drop_bit 16 h) :: u16)) OR
      push_bit 32 (ucast (ucast (drop_bit 32 h) :: u32)) :: u64) n = bit h n"
      by (cases "n < 16"; cases "n < 32") (auto simp: bit_simps)
  qed
  finally show ?thesis .
qed

lemma length_idt_stub [simp]: "length (idt_stub i) = 41"
  by (simp add: idt_stub_def)

lemma idt_addresses:
  assumes "i < 256"
  shows "unat (stub_base_p + of_nat i * 64) = 0x8010000 + 64 * i" "unat (idt_pbase + of_nat i * 16) = 0x8020000 + 16 * i"
  using assms
  by (simp_all add: stub_base_p_def idt_pbase_def layout_defs unat_word_ariths unsigned_of_nat take_bit_nat_eq_self)

lemma idt_step_mem:
  assumes "i < 256"
  shows "idt_step i vm = Ok (vm\<lparr>mem_ptr := store (store (mem_ptr vm) (0x8010000 + 64 * i) (idt_stub i))
    (0x8020000 + 16 * i) (idt_entry (stub_base_v + of_nat i * 64))\<rparr>)"
  using assms by (simp add: idt_step_def write_memory_ok idt_addresses idt_entry_parts MEM_SIZE_def)

lemma idt_upto:
  assumes "n \<le> 256"
  shows "\<exists>vm'. for_r idt_step [0..<n] vm = Ok vm' \<and> kvm_fd vm' = kvm_fd vm \<and>
    (\<forall>i<n. load (mem_ptr vm') (0x8010000 + 64 * i) 41 = idt_stub i \<and>
       load (mem_ptr vm') (0x8020000 + 16 * i) 16 = idt_entry (stub_base_v + of_nat i * 64)) \<and>
    (\<forall>a. (a < 0x8010000 \<or> 0x8014000 \<le> a) \<and> (a < 0x8020000 \<or> 0x8021000 \<le> a) \<longrightarrow> mem_ptr vm' a = mem_ptr vm a)"
  using assms
proof (induction n)
  case (Suc n)
  then obtain v where v: "for_r idt_step [0..<n] vm = Ok v" "kvm_fd v = kvm_fd vm"
    "\<And>i. i < n \<Longrightarrow> load (mem_ptr v) (0x8010000 + 64 * i) 41 = idt_stub i"
    "\<And>i. i < n \<Longrightarrow> load (mem_ptr v) (0x8020000 + 16 * i) 16 = idt_entry (stub_base_v + of_nat i * 64)"
    "\<And>a. (a < 0x8010000 \<or> 0x8014000 \<le> a) \<and> (a < 0x8020000 \<or> 0x8021000 \<le> a) \<Longrightarrow> mem_ptr v a = mem_ptr vm a"
    by auto
  let ?m = "store (store (mem_ptr v) (0x8010000 + 64 * n) (idt_stub n)) (0x8020000 + 16 * n)
    (idt_entry (stub_base_v + of_nat n * 64))"
  have n: "n < 256" using Suc.prems by simp
  have "load ?m (0x8010000 + 64 * i) 41 = idt_stub i \<and>
      load ?m (0x8020000 + 16 * i) 16 = idt_entry (stub_base_v + of_nat i * 64)" if "i < Suc n" for i
  proof (cases "i = n")
    case True
    then show ?thesis
      using n by (simp add: load_store_other load_store_same_n idt_entry_parts)
  next
    case False
    then have "i < n" using that by simp
    then show ?thesis using n v(3) [of i] v(4) [of i] by (simp add: load_store_other idt_entry_parts)
  qed
  moreover have "?m a = mem_ptr vm a"
    if "(a < 0x8010000 \<or> 0x8014000 \<le> a) \<and> (a < 0x8020000 \<or> 0x8021000 \<le> a)" for a
    using v(5) [OF that] that n by (auto simp: store_def idt_entry_parts)
  ultimately show ?case using v(1,2) by (simp add: for_r_append idt_step_mem [OF n])
qed simp

text \<open>The stub's physical address is where the address windows take its virtual address.\<close>

lemma stub_window:
  assumes "i < 256"
  shows "dbg_virt_to_phys (stub_base_v + of_nat i * 64) = Some (stub_base_p + of_nat i * 64)"
proof -
  have u: "unat (stub_base_v + of_nat i * 64) = 0xFFFFF80008010000 + 64 * i"
    using assms by (simp add: stub_base_v_def stub_base_p_def layout_defs unat_word_ariths unsigned_of_nat take_bit_nat_eq_self)
  then show ?thesis
    using assms
    by (simp add: dbg_virt_to_phys_def layout_defs Let_def word_le_nat_alt word_less_nat_alt)
      (simp add: stub_base_v_def stub_base_p_def layout_defs)
qed

section \<open>Skipping\<close>

text \<open>The byte that the windows show at a virtual address.\<close>

definition byte_at :: "'k vm \<Rightarrow> u64 \<Rightarrow> u8 option" where
  "byte_at vm v =
     (case dbg_virt_to_phys v of
        None \<Rightarrow> None
      | Some p \<Rightarrow> if unat p + 1 \<le> MEM_SIZE then Some (mem_ptr vm (unat p)) else None)"

lemma dbg_phys_bound: "dbg_virt_to_phys v = Some p \<Longrightarrow> unat p < MEM_SIZE"
  by (auto simp: dbg_virt_to_phys_def layout_defs MEM_SIZE_def Let_def word_le_nat_alt word_less_nat_alt
      unat_word_ariths unat_sub_if_size word_size split: if_splits)

lemma skip_cc_step:
  "skip_cc vm r = (if byte_at vm r = Some 0xCC then bind_r (add_chk r 1) (skip_cc vm) else Ok r)"
proof (cases "dbg_virt_to_phys r")
  case None
  then show ?thesis by (simp add: skip_cc.simps byte_at_def)
next
  case (Some p)
  have b: "unat p < MEM_SIZE" by (rule dbg_phys_bound [OF Some])
  then have "unat p + 1 < 2 ^ 64" by (simp add: MEM_SIZE_def)
  then have "add_chk p 1 = Ok (p + 1)" "unat (p + 1) = unat p + 1"
    by (simp_all add: add_chk_def unat_plus_lt)
  then have "safe_read_bytes vm p 1 = Ok [mem_ptr vm (unat p)]"
    using b by (simp add: safe_read_bytes_def load_def)
  then show ?thesis using Some b by (subst skip_cc.simps) (simp add: byte_at_def)
qed

text \<open>The last address is in no window, so the step over a breakpoint byte cannot overflow.\<close>

lemma byte_at_next:
  assumes "byte_at vm r = Some b"
  shows "add_chk r 1 = Ok (r + 1) \<and> unat (r + 1) = unat r + 1"
proof -
  have "byte_at vm 0xFFFFFFFFFFFFFFFF = None"
    by (simp add: byte_at_def dbg_virt_to_phys_def layout_defs MEM_SIZE_def Let_def)
  then have "r \<noteq> 0xFFFFFFFFFFFFFFFF" using assms by auto
  then have "unat r \<noteq> unat (0xFFFFFFFFFFFFFFFF :: u64)" unfolding word_unat_eq_iff .
  then have "unat r \<noteq> 0xFFFFFFFFFFFFFFFF" by simp
  then have "unat r + 1 < 2 ^ 64" using unat_lt_64 [of r] by (simp del: unat_lt_64)
  then show ?thesis by (simp add: add_chk_def unat_plus_lt)
qed

lemma skip_cc_spec:
  "\<exists>f. skip_cc vm r = Ok f \<and> unat r \<le> unat f \<and>
     (\<forall>a. unat r \<le> unat a \<and> unat a < unat f \<longrightarrow> byte_at vm a = Some 0xCC) \<and> byte_at vm f \<noteq> Some 0xCC"
proof (induction "18446744073709551616 - unat r" arbitrary: r rule: less_induct)
  case less
  show ?case
  proof (cases "byte_at vm r = Some 0xCC")
    case True
    note n = byte_at_next [OF True]
    have "18446744073709551616 - unat (r + 1) < 18446744073709551616 - unat r" using n unat_lt_64 [of "r + 1"] by linarith
    from less.hyps [OF this] obtain f where f: "skip_cc vm (r + 1) = Ok f" "unat (r + 1) \<le> unat f"
      "\<And>a. unat (r + 1) \<le> unat a \<and> unat a < unat f \<Longrightarrow> byte_at vm a = Some 0xCC" "byte_at vm f \<noteq> Some 0xCC"
      by blast
    have "byte_at vm a = Some 0xCC" if "unat r \<le> unat a" "unat a < unat f" for a
    proof (cases "unat a = unat r")
      case True
      then have "a = r" by (simp add: word_unat_eq_iff)
      with \<open>byte_at vm r = Some 0xCC\<close> show ?thesis by simp
    next
      case False
      then show ?thesis using f(3) that n by simp
    qed
    moreover have "skip_cc vm r = Ok f" using True n f(1) by (subst skip_cc_step) simp
    moreover have "unat r \<le> unat f" using f(2) n by simp
    ultimately show ?thesis using f(4) by blast
  next
    case False
    then show ?thesis by (intro exI [of _ r]) (auto simp: skip_cc_step)
  qed
qed

section \<open>Properties\<close>

text \<open>Property C25: building the diagnostic interrupt table always succeeds. Afterwards each of the 256
  gates is a present ring-0 interrupt gate for the code selector \<open>0x10\<close>, whose handler address, read
  the way the processor reads it, is the stub of its own vector; the stub's bytes are in memory at the
  physical address that the address windows give to the handler, and it reports its vector number on
  port \<open>0xF9\<close>. Nothing outside the stubs and the table changes.\<close>

theorem diagnostic_idt_correct:
  "\<exists>vm'. setup_diagnostic_idt vm = Ok vm' \<and>
     (\<forall>i. i < 256 \<longrightarrow>
       (let gate = load (mem_ptr vm') (unat idt_pbase + 16 * i) 16; h = gate_handler gate
        in peek gate 2 2 = le16 0x10 \<and> peek gate 5 1 = [0x8E] \<and>
           (\<exists>p. dbg_virt_to_phys h = Some p \<and> load (mem_ptr vm') (unat p) 41 = idt_stub i \<and>
              peek (idt_stub i) 36 5 = [0xB0, of_nat i, 0xE6, 0xF9, 0xF4]))) \<and>
     (\<forall>a. (a < 0x8010000 \<or> 0x8014000 \<le> a) \<and> (a < 0x8020000 \<or> 0x8021000 \<le> a) \<longrightarrow> mem_ptr vm' a = mem_ptr vm a)"
proof -
  obtain vm' where v: "setup_diagnostic_idt vm = Ok vm'"
    and st: "\<And>i. i < 256 \<Longrightarrow> load (mem_ptr vm') (0x8010000 + 64 * i) 41 = idt_stub i"
    and en: "\<And>i. i < 256 \<Longrightarrow> load (mem_ptr vm') (0x8020000 + 16 * i) 16 = idt_entry (stub_base_v + of_nat i * 64)"
    and fr: "\<forall>a. (a < 0x8010000 \<or> 0x8014000 \<le> a) \<and> (a < 0x8020000 \<or> 0x8021000 \<le> a) \<longrightarrow> mem_ptr vm' a = mem_ptr vm a"
    using idt_upto [of 256 vm] by (auto simp: setup_diagnostic_idt_def)
  have "unat idt_pbase = 0x8020000" by (simp add: idt_pbase_def layout_defs)
  moreover have "peek (idt_entry h) 5 (Suc 0) = [0x8E]" for h using idt_entry_parts(4) [of h] by simp
  moreover have "peek (idt_stub i) 36 5 = [0xB0, of_nat i, 0xE6, 0xF9, 0xF4]" for i
    by (simp add: idt_stub_def peek_def)
  ultimately show ?thesis
    using v fr by (auto simp: en gate_handler_entry idt_entry_parts stub_window idt_addresses st Let_def)
qed

theorem diagnostic_idt_correct_witness:
  "\<exists>vm' p. setup_diagnostic_idt (plain_vm sregs0) = Ok vm' \<and>
     dbg_virt_to_phys (gate_handler (load (mem_ptr vm') 0x80200E0 16)) = Some p \<and>
     load (mem_ptr vm') (unat p) 41 = idt_stub 14"
proof -
  from diagnostic_idt_correct [of "plain_vm sregs0"] obtain vm' where
    v: "setup_diagnostic_idt (plain_vm sregs0) = Ok vm'"
    and g: "\<forall>i. i < 256 \<longrightarrow>
       (let gate = load (mem_ptr vm') (unat idt_pbase + 16 * i) 16; h = gate_handler gate
        in peek gate 2 2 = le16 0x10 \<and> peek gate 5 1 = [0x8E] \<and>
           (\<exists>p. dbg_virt_to_phys h = Some p \<and> load (mem_ptr vm') (unat p) 41 = idt_stub i \<and>
              peek (idt_stub i) 36 5 = [0xB0, of_nat i, 0xE6, 0xF9, 0xF4]))" by blast
  have "unat idt_pbase + 16 * 14 = 0x80200E0" by (simp add: idt_pbase_def layout_defs)
  then show ?thesis using v g [rule_format, of 14] by (auto simp: Let_def)
qed

text \<open>Property C24: a breakpoint reported through the diagnostic port resumes the guest. When the stack
  pointer is in a window and the registers can be set, the handler for vectors 3 and \<open>0x2d\<close> always
  returns, and then the instruction pointer is the first address from the pushed one on that does not
  hold a \<open>CC\<close> byte, every address skipped holds one, the stack pointer is the pushed one, the trap flag
  is clear, and \<open>rcx\<close> and \<open>rdx\<close> are the saved ones (\<open>rax\<close> too, except that a debug service returns 0).\<close>

theorem diagnostic_trap_resumes:
  assumes "regs_law K" and "get_regs K (kvm_fd vm) = Ok r" and "dbg_virt_to_phys (rsp r) = Some sp"
    and "unat sp + 32 \<le> MEM_SIZE" and "vector = 3 \<or> vector = 0x2d"
    and "\<And>r'. \<exists>k. set_regs K r' (kvm_fd vm) = Ok k"
  shows "\<exists>vm' r'. handle_diagnostic_trap K vm vector = Ok vm' \<and> get_regs K (kvm_fd vm') = Ok r' \<and>
    mem_ptr vm' = mem_ptr vm \<and>
    (let pushed = q64 (mem_ptr vm) (unat sp)
     in unat pushed \<le> unat (rip r') \<and>
        (\<forall>a. unat pushed \<le> unat a \<and> unat a < unat (rip r') \<longrightarrow> byte_at vm a = Some 0xCC) \<and>
        byte_at vm (rip r') \<noteq> Some 0xCC) \<and>
    rsp r' = q64 (mem_ptr vm) (unat sp + 24) \<and> \<not> bit (rflags r') 8 \<and>
    rcx r' = q64 (mem_ptr vm) 0x8060008 \<and> rdx r' = q64 (mem_ptr vm) 0x8060010 \<and>
    rax r' = (if vector = 3 then q64 (mem_ptr vm) 0x8060000 else 0)"
proof -
  have ne: "\<not> has_error_code vector" using assms(5) by (auto simp: has_error_code_def)
  have rd: "safe_read_u64 vm p = Ok (q64 (mem_ptr vm) (unat p))" if "unat p + 8 \<le> MEM_SIZE" for p
    using that by (simp add: safe_read_u64_def near_addr MEM_SIZE_def q64_def)
  have sp: "unat (sp + 16) = unat sp + 16" "unat (sp + 24) = unat sp + 24" "add_chk sp 0 = Ok sp"
    "add_chk sp 16 = Ok (sp + 16)" "add_chk sp 24 = Ok (sp + 24)"
    using assms(4) by (simp_all add: near_addr MEM_SIZE_def) (simp add: add_chk_def)
  obtain f where f: "skip_cc vm (q64 (mem_ptr vm) (unat sp)) = Ok f" "unat (q64 (mem_ptr vm) (unat sp)) \<le> unat f"
    "\<forall>a. unat (q64 (mem_ptr vm) (unat sp)) \<le> unat a \<and> unat a < unat f \<longrightarrow> byte_at vm a = Some 0xCC"
    "byte_at vm f \<noteq> Some 0xCC"
    using skip_cc_spec [of vm "q64 (mem_ptr vm) (unat sp)"] by blast
  let ?r = "r\<lparr>rax := (if vector = 0x2d then 0 else q64 (mem_ptr vm) 0x8060000), rcx := q64 (mem_ptr vm) 0x8060008,
    rdx := q64 (mem_ptr vm) 0x8060010, rip := f, rsp := q64 (mem_ptr vm) (unat sp + 24),
    rflags := q64 (mem_ptr vm) (unat sp + 16) AND NOT 0x100\<rparr>"
  have u: "unat (SYSTEM_BASE + 0x60000) = 0x8060000" "unat (SYSTEM_BASE + 0x60000 + 8) = 0x8060008"
    "unat (SYSTEM_BASE + 0x60000 + 16) = 0x8060010" by (simp_all add: layout_defs)
  obtain k where k: "set_regs K ?r (kvm_fd vm) = Ok k" using assms(6) by blast
  have "handle_diagnostic_trap K vm vector = put_regs K ?r vm"
    unfolding handle_diagnostic_trap_def assms(2) bind_r.simps Let_def
    using assms(3-5) ne f(1) sp u by (simp add: rd MEM_SIZE_def)
  then have "handle_diagnostic_trap K vm vector = Ok (vm\<lparr>kvm_fd := k\<rparr>)" using k by (simp add: put_regs_def)
  moreover have "get_regs K k = Ok ?r" by (rule regs_lawD [OF assms(1) k])
  moreover have "\<not> bit (q64 (mem_ptr vm) (unat sp + 16) AND NOT 0x100) 8" by (simp add: bit_simps)
  ultimately show ?thesis using f assms(5) by (auto simp: Let_def)
qed


text \<open>A machine stopped at a breakpoint: the stack holds the pushed frame, the code two \<open>CC\<close> bytes.\<close>

definition trapped_vm :: "(kvm_regs \<times> kvm_sregs) vm" where
  "trapped_vm = \<lparr>kvm_fd = (regs0\<lparr>rsp := 0xFFFFFE8000000100\<rparr>, sregs0),
     mem_ptr = store (store (\<lambda>_. 0) 0xA000100 (le64 0xFFFFF80000300000)) 0x300000 [0xCC, 0xCC],
     mem_size = MEM_SIZE\<rparr>"

theorem diagnostic_trap_resumes_witness:
  "\<exists>vm' r'. handle_diagnostic_trap plain_vcpu trapped_vm 3 = Ok vm' \<and> get_regs plain_vcpu (kvm_fd vm') = Ok r' \<and>
     0xFFFFF80000300000 \<le> rip r' \<and> byte_at trapped_vm (rip r') \<noteq> Some 0xCC \<and> \<not> bit (rflags r') 8"
proof -
  have w: "dbg_virt_to_phys (rsp (regs0\<lparr>rsp := 0xFFFFFE8000000100\<rparr>)) = Some 0xA000100"
    by (simp add: dbg_virt_to_phys_def layout_defs)
  have g: "get_regs plain_vcpu (kvm_fd trapped_vm) = Ok (regs0\<lparr>rsp := 0xFFFFFE8000000100\<rparr>)"
    by (simp add: trapped_vm_def)
  have q: "q64 (mem_ptr trapped_vm) 0xA000100 = 0xFFFFF80000300000"
    by (simp add: trapped_vm_def q64_store_other q64_store_same)
  have "\<exists>k. set_regs plain_vcpu r' (kvm_fd trapped_vm) = Ok k" for r' by (simp add: trapped_vm_def)
  from diagnostic_trap_resumes [OF plain_regs_law g w _ _ this, of 3]
  show ?thesis using q by (auto simp: MEM_SIZE_def Let_def word_le_nat_alt)
qed

lemma window_below_top: "dbg_virt_to_phys v = Some p \<Longrightarrow> unat v < 0xFFFFFE8008000000"
  by (auto simp: dbg_virt_to_phys_def layout_defs MEM_SIZE_def Let_def word_le_nat_alt word_less_nat_alt
      split: if_splits)

text \<open>A debug exit moves the guest past breakpoints and nothing else. With the instruction
  pointer in a window, an instruction that is not \<open>int3\<close> (either encoding) or \<open>int 2d\<close> leaves the machine
  as it is; otherwise the handler sets the instruction pointer to the first address after the
  instruction that does not hold a \<open>CC\<close> byte, and changes no other register.\<close>

theorem guest_debug_correct:
  assumes "get_regs K (kvm_fd vm) = Ok r" and "dbg_virt_to_phys (rip r) = Some p" and "unat p + 2 \<le> MEM_SIZE"
  shows "let n = break_length (load (mem_ptr vm) (unat p) 2)
    in (n = 0 \<longrightarrow> handle_guest_debug K vm = Ok vm) \<and>
       (n \<noteq> 0 \<longrightarrow> (\<exists>f. handle_guest_debug K vm = put_regs K (r\<lparr>rip := f\<rparr>) vm \<and>
          unat (rip r) + unat n \<le> unat f \<and>
          (\<forall>a. unat (rip r) + unat n \<le> unat a \<and> unat a < unat f \<longrightarrow> byte_at vm a = Some 0xCC) \<and>
          byte_at vm f \<noteq> Some 0xCC))"
proof -
  let ?n = "break_length (load (mem_ptr vm) (unat p) 2)"
  have rd: "safe_read_bytes vm p 2 = Ok (load (mem_ptr vm) (unat p) 2)"
    using assms(3) by (simp add: safe_read_bytes_def near_addr MEM_SIZE_def)
  have n: "unat ?n \<le> 2" "?n = 0 \<longleftrightarrow> unat ?n = 0" by (simp_all add: break_length_def)
  have r: "unat (rip r) + unat ?n < 2 ^ 64"
    using window_below_top [OF assms(2)] n(1) by simp
  then have a: "add_chk (rip r) ?n = Ok (rip r + ?n)" "unat (rip r + ?n) = unat (rip r) + unat ?n"
    by (simp_all add: add_chk_def unat_plus_lt)
  obtain f where f: "skip_cc vm (rip r + ?n) = Ok f" "unat (rip r + ?n) \<le> unat f"
    "\<forall>a. unat (rip r + ?n) \<le> unat a \<and> unat a < unat f \<longrightarrow> byte_at vm a = Some 0xCC" "byte_at vm f \<noteq> Some 0xCC"
    using skip_cc_spec [of vm "rip r + ?n"] by blast
  have "f \<noteq> rip r" if "?n \<noteq> 0" using f(2) a(2) n(2) that by auto
  then show ?thesis
    using assms(1,2) rd a f by (auto simp: handle_guest_debug_def Let_def)
qed

theorem guest_debug_correct_witness:
  "\<exists>f. handle_guest_debug plain_vcpu (trapped_vm\<lparr>kvm_fd := (regs0\<lparr>rip := 0xFFFFF80000300000\<rparr>, sregs0)\<rparr>) =
     put_regs plain_vcpu (regs0\<lparr>rip := f\<rparr>) (trapped_vm\<lparr>kvm_fd := (regs0\<lparr>rip := 0xFFFFF80000300000\<rparr>, sregs0)\<rparr>) \<and>
     0xFFFFF80000300001 \<le> unat f"
proof -
  let ?vm = "trapped_vm\<lparr>kvm_fd := (regs0\<lparr>rip := 0xFFFFF80000300000\<rparr>, sregs0)\<rparr>"
  have w: "dbg_virt_to_phys (rip (regs0\<lparr>rip := 0xFFFFF80000300000\<rparr>)) = Some 0x300000"
    by (simp add: dbg_virt_to_phys_def layout_defs)
  have g: "get_regs plain_vcpu (kvm_fd ?vm) = Ok (regs0\<lparr>rip := 0xFFFFF80000300000\<rparr>)" by simp
  have b: "unat (0x300000 :: u64) + 2 \<le> MEM_SIZE" by (simp add: MEM_SIZE_def)
  have "load (mem_ptr ?vm) 0x300000 2 = [0xCC, 0xCC]"
    by (simp add: trapped_vm_def load_store_same_n)
  then have "break_length (load (mem_ptr ?vm) (unat (0x300000 :: u64)) 2) = 1" by (simp add: break_length_def)
  with guest_debug_correct [OF g w b] show ?thesis by (auto simp: Let_def)
qed

section \<open>Dumps read back\<close>

text \<open>Reading a dump back: two digits make a byte, spaces and line ends are skipped.\<close>

definition hex_value :: "nat \<Rightarrow> nat" where
  "hex_value c = (if 97 \<le> c then c - 87 else c - 48)"

fun undump :: "rstring \<Rightarrow> u8 list" where
  "undump (c # d # rest) =
     (if c = 32 \<or> c = 10 then undump (d # rest) else of_nat (hex_value c * 16 + hex_value d) # undump rest)"
| "undump _ = []"

lemma lower_hex_byte:
  fixes b :: u8
  defines "digit \<equiv> \<lambda>d. if d < 10 then 48 + d else 87 + d"
  shows "lower_hex 2 (unat b) = [digit (unat b div 16), digit (unat b mod 16)]"
proof -
  have "unat b div 16 < 16" using unat_lt_8 [of b] by linarith
  moreover have "unat b mod 16 < 16" by simp
  ultimately show ?thesis
    by (cases "unat b < 16") (auto simp: lower_hex_def hex_pad_def hex.simps [of "unat b"] hex.simps [of "unat b div 16"]
        hex_digit_def digit_def)
qed

lemma undump_byte: "undump (lower_hex 2 (unat b) @ 32 # rest) = b # undump (32 # rest)"
proof -
  have "unat b div 16 < 16" using unat_lt_8 [of b] by linarith
  moreover have "unat b mod 16 < 16" by simp
  moreover have "of_nat (unat b div 16 * 16 + unat b mod 16) = b" unfolding div_mult_mod_eq by simp
  then have "of_nat (unat b div 16) * 16 + of_nat (unat b mod 16) = b" by (simp only: of_nat_add of_nat_mult of_nat_numeral)
  ultimately show ?thesis by (simp add: lower_hex_byte hex_value_def)
qed

lemma undump_blank: "c = 32 \<or> c = 10 \<Longrightarrow> undump (c # rest) = undump rest"
  by (cases rest) auto

lemma undump_bytes:
  "undump (concat (map (\<lambda>i. lower_hex 2 (unat (f i)) @ [32] @ (if g i then [10] else [])) is) @ rest) = map f is @ undump rest"
  by (induction "is") (auto simp: undump_byte undump_blank)

text \<open>Property C36: a hex dump shows the memory. For any range inside guest memory \<open>hex_dump_bytes\<close> prints a text
  from which exactly the bytes of the range are read back, line breaks notwithstanding; a range that reaches beyond the
  memory is refused with a message, and the sum overflows with a panic only beyond 64 bits.\<close>

theorem hex_dump_roundtrip:
  "(unat paddr + n \<le> MEM_SIZE \<longrightarrow>
     (\<exists>txt. hex_dump_bytes vm paddr n = Ok txt \<and> undump txt = load (mem_ptr vm) (unat paddr) n)) \<and>
   (unat paddr + n > MEM_SIZE \<and> unat paddr + n < 2 ^ 64 \<longrightarrow>
     hex_dump_bytes vm paddr n = Ok (lit ''  [Error] Address 0x'' @ lower_hex 0 (unat paddr) @ lit '' out of bounds.'' @ [10])) \<and>
   (hex_dump_bytes vm paddr n = Panic) = (2 ^ 64 \<le> unat paddr + n)"
proof -
  have m: "MEM_SIZE < 2 ^ 64" by (simp add: MEM_SIZE_def)
  have "map (\<lambda>i. mem_ptr vm (unat paddr + i)) [0..<n] = load (mem_ptr vm) (unat paddr) n"
    by (rule nth_equalityI) (simp_all add: nth_load)
  then show ?thesis using m undump_bytes [of "\<lambda>i. mem_ptr vm (unat paddr + i)"]
    by (auto simp: hex_dump_bytes_def)
qed

theorem hex_dump_roundtrip_witness:
  "\<exists>txt. hex_dump_bytes (plain_vm sregs0) 0x1000 20 = Ok txt \<and> undump txt = replicate 20 0"
proof -
  have "load (mem_ptr (plain_vm sregs0)) 0x1000 20 = replicate 20 0"
    by (rule nth_equalityI) (simp_all add: nth_load plain_vm_def)
  with hex_dump_roundtrip [of "0x1000" 20 "plain_vm sregs0"] show ?thesis by (simp add: MEM_SIZE_def)
qed

end
