(* ===== verification/Cpu.thy ===== *)
theory Cpu
  imports Debug
begin

unbundle bit_operations_syntax

text \<open>
  The virtual processor of \<open>src/cpu.rs\<close>: the emulated local APIC and HPET registers behind MMIO exits,
  the serial port with its input queue, the clock in the shared user page, and the long-mode state in
  which \<open>run\<close> starts the kernel. The event loop that drives them is in \<open>EventLoop\<close>, the threads that share
  the serial queue in \<open>Bridge\<close>, the rest of \<open>run\<close> in \<open>Server\<close>.
\<close>

section \<open>Devices\<close>

record apic_state =
  tpr :: u32
  svr :: u32
  lvt_timer :: u32
  init_count :: u32

record hpet_state =
  hpet_config :: u64
  hpet_counter :: u64

text \<open>The stream to WinDbg: the connection it belongs to and the bytes written to it.\<close>

record tcp_stream =
  conn :: nat
  written :: "u8 list"

record devices =
  APIC :: apic_state
  HPET :: hpet_state
  START_TIME :: "nat option"
  SERIAL_IN_QUEUE :: "u8 list"
  WINDBG_STREAM :: "tcp_stream option"

definition devices0 :: devices where
  "devices0 = \<lparr>APIC = \<lparr>tpr = 0, svr = 0x1FF, lvt_timer = 0x10000, init_count = 0\<rparr>,
     HPET = \<lparr>hpet_config = 0, hpet_counter = 0\<rparr>, START_TIME = None, SERIAL_IN_QUEUE = [], WINDBG_STREAM = None\<rparr>"

text \<open>The value of an APIC register; the current count is derived from the number of loop rounds.\<close>

definition apic_read :: "apic_state \<Rightarrow> u64 \<Rightarrow> u64 \<Rightarrow> u32" where
  "apic_read a off loop_count =
     (if off = 0x20 then 0x0
      else if off = 0x30 then 0x50014
      else if off = 0x80 then tpr a
      else if off = 0xF0 then svr a
      else if off = 0x320 then lvt_timer a
      else if off = 0x380 then init_count a
      else if off = 0x390 then
        (if init_count a > 0 then init_count a - ucast (loop_count AND 0xFFFF) else 0x100000)
      else 0)"

text \<open>\<open>now\<close> is the time of the call in nanoseconds; \<open>as u64\<close> cuts the elapsed time to 64 bits.\<close>

definition hpet_read :: "devices \<Rightarrow> nat \<Rightarrow> u64 \<Rightarrow> u64 \<Rightarrow> u64 res" where
  "hpet_read dev now off loop_count =
     (if off = 0x00 then Ok 0x8086a20100000001
      else if off = 0x10 then Ok (hpet_config (HPET dev))
      else if off = 0xF0 then
        (case START_TIME dev of
           Some start \<Rightarrow> mul_chk (of_nat (now - start)) 1000000
         | None \<Rightarrow> mul_chk loop_count 100000)
      else Ok 0)"

definition handle_mmio_read :: "devices \<Rightarrow> nat \<Rightarrow> u64 \<Rightarrow> u8 list \<Rightarrow> u64 \<Rightarrow> u8 list res" where
  "handle_mmio_read dev now addr data loop_count =
     (if addr \<ge> 0xfee00000 \<and> addr \<le> 0xfee00fff then
        (let bytes = le32 (apic_read (APIC dev) (addr AND 0xFFF) loop_count);
             len = min (length data) 4
         in Ok (take len bytes @ drop len data))
      else if addr \<ge> 0xfed00000 \<and> addr \<le> 0xfed003ff then
        bind_r (hpet_read dev now (addr AND 0x3FF) loop_count) (\<lambda>val.
        Ok (if length data = 8 then le64 val
            else if length data = 4 then le32 (ucast val)
            else data))
      else Ok data)"

definition handle_mmio_write :: "u64 \<Rightarrow> u8 list \<Rightarrow> devices \<Rightarrow> devices res" where
  "handle_mmio_write addr data dev =
     (if addr \<ge> 0xfee00000 \<and> addr \<le> 0xfee00fff then
        bind_r (rd_u32 data 0) (\<lambda>val.
        let off = addr AND 0xFFF; a = APIC dev
        in Ok (dev\<lparr>APIC :=
             (if off = 0x80 then a\<lparr>tpr := val\<rparr>
              else if off = 0xF0 then a\<lparr>svr := val\<rparr>
              else if off = 0x320 then a\<lparr>lvt_timer := val\<rparr>
              else if off = 0x380 then a\<lparr>init_count := val\<rparr>
              else a)\<rparr>))
      else if addr \<ge> 0xfed00000 \<and> addr \<le> 0xfed003ff then
        (if length data \<ge> 4 then
           bind_r (rd_u32 data 0) (\<lambda>val.
           let off = addr AND 0x3FF; h = HPET dev
           in Ok (dev\<lparr>HPET :=
                (if off = 0x10 then h\<lparr>hpet_config := ucast val\<rparr>
                 else if off = 0xF0 then h\<lparr>hpet_counter := ucast val\<rparr>
                 else h)\<rparr>))
         else Ok dev)
      else Ok dev)"

section \<open>The serial port\<close>

definition serial_in :: "u16 \<Rightarrow> u8 list \<Rightarrow> devices \<Rightarrow> (u8 list \<times> devices) res" where
  "serial_in addr data dev =
     (let q = SERIAL_IN_QUEUE dev
      in if addr = 0x3F8 then
           bind_r (set_r data 0 (if q = [] then 0 else hd q)) (\<lambda>d. Ok (d, dev\<lparr>SERIAL_IN_QUEUE := tl q\<rparr>))
         else if addr = 0x3FD then
           bind_r (set_r data 0 (if q = [] then 0x60 else 0x61)) (\<lambda>d. Ok (d, dev))
         else Ok (data, dev))"

definition windbg_send :: "bool \<Rightarrow> u8 \<Rightarrow> devices \<Rightarrow> devices" where
  "windbg_send sent val dev =
     dev\<lparr>WINDBG_STREAM := map_option (\<lambda>s. if sent then s\<lparr>written := written s @ [val]\<rparr> else s) (WINDBG_STREAM dev)\<rparr>"

section \<open>The guest clock\<close>

definition update_windows_time :: "'k vm \<Rightarrow> u64 \<Rightarrow> 'k vm res" where
  "update_windows_time vm count =
     (let kuser_p = 0x9000000;
          virtual_time = count * 10000;
          high = (ucast (drop_bit 32 virtual_time) :: u32)
      in bind_r (ok_or_keep vm (write_memory vm (kuser_p + 0x08) (le64 virtual_time))) (\<lambda>vm.
         bind_r (ok_or_keep vm (write_memory vm (kuser_p + 0x10) (le32 high))) (\<lambda>vm.
         bind_r (ok_or_keep vm (write_memory vm (kuser_p + 0x14) (le64 virtual_time))) (\<lambda>vm.
         ok_or_keep vm (write_memory vm (kuser_p + 0x1C) (le32 high))))))"

section \<open>Long mode\<close>

definition hide_hypervisor :: "kvm_cpuid_entry \<Rightarrow> kvm_cpuid_entry" where
  "hide_hypervisor e =
     (let e = (if cpuid_function e = 0x1
               then e\<lparr>cpuid_ecx := cpuid_ecx e AND NOT (push_bit 31 1) AND NOT (push_bit 21 1)\<rparr> else e)
      in if cpuid_function e = 0x40000000 then e\<lparr>cpuid_ebx := 0, cpuid_ecx := 0, cpuid_edx := 0\<rparr> else e)"

definition tss_vbase :: u64 where
  "tss_vbase = 0xFFFFF80000000000 + (0x8000000 + 0x1000)"

definition gdt_entries :: "u64 list" where
  "gdt_entries =
     (let tss_limit = 104 - 1;
          tss_low = push_bit 16 (tss_vbase AND 0xffffff) OR push_bit 32 (tss_vbase AND 0xff000000) OR
                    0x0000890000000000 OR tss_limit;
          tss_high = drop_bit 32 tss_vbase
      in (replicate 32 0)[1 := 0x00af9a000000ffff, 2 := 0x00af9a000000ffff, 3 := 0x00cf92000000ffff,
           4 := 0x00affb000000ffff, 5 := 0x00cff3000000ffff, 10 := 0x00cff3000000ffff,
           8 := tss_low, 9 := tss_high])"

definition seg_64 :: "u16 \<Rightarrow> bool \<Rightarrow> kvm_segment" where
  "seg_64 sel is_code =
     \<lparr>seg_base = 0, seg_limit = 0xffffffff, selector = sel, seg_type = (if is_code then 11 else 3),
      present = 1, dpl = 0, seg_db = 0, seg_s = 1, seg_l = (if is_code then 1 else 0), seg_g = 1\<rparr>"

text \<open>The shifts of the source on unsigned 64-bit values.\<close>

definition flags_of :: "nat list \<Rightarrow> u64" where
  "flags_of ns = fold (\<lambda>n w. w OR push_bit n 1) ns 0"

definition long_mode_sregs :: "u64 \<Rightarrow> kvm_sregs \<Rightarrow> kvm_sregs" where
  "long_mode_sregs kpcr_vaddr s =
     (let d = seg_64 0x18 False
      in s\<lparr>cr3 := 0x8000000 + 0x100000 + 0x2000,
           cr4 := flags_of [5, 7, 9, 10, 16],
           efer := flags_of [0, 8, 10, 11],
           cr0 := flags_of [31, 0, 1, 5, 16, 18],
           gdt := \<lparr>dt_base = 0xFFFFF80000000000 + 0x8000000, dt_limit = 32 * 8 - 1\<rparr>,
           idt := \<lparr>dt_base = 0xFFFFF80000000000 + 0x8000000 + 0x20000, dt_limit = 0x0FFF\<rparr>,
           cs := seg_64 0x10 True, ds := d, es := d, ss := d, gs := d\<lparr>seg_base := kpcr_vaddr\<rparr>,
           tr := \<lparr>seg_base = tss_vbase, seg_limit = 103, selector = 0x40, seg_type = 9, present = 1,
                  dpl = 0, seg_db = 0, seg_s = 0, seg_l = 0, seg_g = 0\<rparr>\<rparr>)"

definition on_kvm :: "('k \<Rightarrow> 'k res) \<Rightarrow> 'k vm \<Rightarrow> 'k vm res" where
  "on_kvm f vm = bind_r (f (kvm_fd vm)) (\<lambda>k. Ok (vm\<lparr>kvm_fd := k\<rparr>))"

definition setup_long_mode :: "'k vcpu_ops \<Rightarrow> 'k vm \<Rightarrow> u64 \<Rightarrow> u64 \<Rightarrow> u64 \<Rightarrow> 'k vm res" where
  "setup_long_mode K vm krnl_entry_v stack_v lpb_v =
     bind_r (add_chk lpb_v 0x10000) (\<lambda>kpcr_vaddr.
     bind_r (get_supported_cpuid K (kvm_fd vm)) (\<lambda>cpuid.
     bind_r (on_kvm (set_cpuid2 K (map hide_hypervisor cpuid)) vm) (\<lambda>vm.
     bind_r (write_memory vm 0x8000000 (concat (map le64 gdt_entries))) (\<lambda>vm.
     bind_r (put_slice (replicate 104 0) 4 (le64 stack_v)) (\<lambda>tss.
     bind_r (write_memory vm (0x8000000 + 0x1000) tss) (\<lambda>vm.
     bind_r (get_sregs K (kvm_fd vm)) (\<lambda>s.
     let s = long_mode_sregs kpcr_vaddr s
     in
     bind_r (on_kvm (set_sregs K s) vm) (\<lambda>vm.
     bind_r (ok_or_keep vm (on_kvm (set_msrs K [(0xc0000080, efer s), (0xc0000101, kpcr_vaddr),
               (0x1b, 0xfee00000 OR 0x900)]) vm)) (\<lambda>vm.
     bind_r (get_regs K (kvm_fd vm)) (\<lambda>r.
     bind_r (sub_chk stack_v 0x100) (\<lambda>sp.
     on_kvm (set_regs K (r\<lparr>rip := krnl_entry_v, rsp := sp, rflags := 0x2, rcx := lpb_v, rdx := lpb_v\<rparr>)) vm)))))))))))"

text \<open>The function \<open>run\<close> up to the GDB server: the clock starts, then the processor is set up.\<close>

definition run_start :: "'k vcpu_ops \<Rightarrow> nat \<Rightarrow> 'k vm \<Rightarrow> devices \<Rightarrow> u64 \<Rightarrow> u64 \<Rightarrow> u64 \<Rightarrow> ('k vm \<times> devices) res" where
  "run_start K now vm dev krnl_entry_v stack_v lpb_v =
     (let dev = dev\<lparr>START_TIME := Some now\<rparr>
      in bind_r (setup_long_mode K vm krnl_entry_v stack_v lpb_v) (\<lambda>vm. Ok (vm, dev)))"

section \<open>The clock page\<close>

lemma update_windows_time_mem:
  "update_windows_time vm count =
   Ok (vm\<lparr>mem_ptr := store (store (store (store (mem_ptr vm) 0x9000008 (le64 (count * 10000)))
     0x9000010 (le32 (ucast (drop_bit 32 (count * 10000))))) 0x9000014 (le64 (count * 10000)))
     0x900001C (le32 (ucast (drop_bit 32 (count * 10000))))\<rparr>)"
  by (simp add: update_windows_time_def write_memory_ok MEM_SIZE_def Let_def)

lemma update_windows_time_frame:
  "update_windows_time vm count = Ok vm' \<Longrightarrow> a < 0x9000008 \<or> 0x9000020 \<le> a \<Longrightarrow> mem_ptr vm' a = mem_ptr vm a"
  by (auto simp: update_windows_time_mem store_def)

lemma update_windows_time_fd: "update_windows_time vm count = Ok vm' \<Longrightarrow> kvm_fd vm' = kvm_fd vm"
  by (auto simp: update_windows_time_mem)

lemma on_kvm_mem: "on_kvm f vm = Ok vm' \<Longrightarrow> mem_ptr vm' = mem_ptr vm"
  by (auto simp: on_kvm_def)

lemma ok_or_keep_mem:
  "ok_or_keep vm m = Ok vm' \<Longrightarrow> (\<And>v. m = Ok v \<Longrightarrow> mem_ptr v = mem_ptr vm) \<Longrightarrow> mem_ptr vm' = mem_ptr vm"
  by (cases m) auto

section \<open>Properties of the devices\<close>

text \<open>An APIC register that the guest writes reads back what was written, for each of the
  four registers the emulation keeps, and the write changes none of the other three.\<close>

theorem apic_register_roundtrip:
  assumes "off \<in> {0x80, 0xF0, 0x320, 0x380}"
  shows "\<exists>dev'. handle_mmio_write (0xfee00000 + off) (le32 v) dev = Ok dev' \<and>
    handle_mmio_read dev' now (0xfee00000 + off) [0, 0, 0, 0] n = Ok (le32 v) \<and>
    (\<forall>off'. off' \<in> {0x80, 0xF0, 0x320, 0x380} \<and> off' \<noteq> off \<longrightarrow>
       handle_mmio_read dev' now (0xfee00000 + off') [0, 0, 0, 0] n = handle_mmio_read dev now (0xfee00000 + off') [0, 0, 0, 0] n)"
proof -
  have v: "rd_u32 (le32 v) 0 = Ok v" by (simp add: rd_u32_def slice_r_def)
  have rd: "handle_mmio_read d now (0xfee00000 + o') [0, 0, 0, 0] n = Ok (le32 (apic_read (APIC d) o' n))"
    if "o' \<in> {0x80, 0xF0, 0x320, 0x380}" for d o'
    using that by (elim insertE emptyE) (simp_all add: handle_mmio_read_def)
  let ?a = "APIC dev"
  let ?a' = "if off = 0x80 then ?a\<lparr>tpr := v\<rparr> else if off = 0xF0 then ?a\<lparr>svr := v\<rparr>
    else if off = 0x320 then ?a\<lparr>lvt_timer := v\<rparr> else ?a\<lparr>init_count := v\<rparr>"
  have wr: "handle_mmio_write (0xfee00000 + off) (le32 v) dev = Ok (dev\<lparr>APIC := ?a'\<rparr>)"
    using assms by (elim insertE emptyE) (simp_all add: handle_mmio_write_def v)
  have same: "apic_read ?a' off n = v" using assms by (elim insertE emptyE) (simp_all add: apic_read_def)
  have other: "apic_read ?a' o' n = apic_read ?a o' n" if "o' \<in> {0x80, 0xF0, 0x320, 0x380}" "o' \<noteq> off" for o'
    using assms that by (elim insertE emptyE) (simp_all add: apic_read_def)
  define d' where "d' = dev\<lparr>APIC := ?a'\<rparr>"
  have a: "APIC d' = ?a'" by (simp add: d'_def)
  have "handle_mmio_read d' now (0xfee00000 + off) [0, 0, 0, 0] n = Ok (le32 v)"
    by (simp only: rd [OF assms] a same)
  moreover have "handle_mmio_read d' now (0xfee00000 + o') [0, 0, 0, 0] n = handle_mmio_read dev now (0xfee00000 + o') [0, 0, 0, 0] n"
    if "o' \<in> {0x80, 0xF0, 0x320, 0x380} \<and> o' \<noteq> off" for o'
  proof -
    have "apic_read ?a' o' n = apic_read ?a o' n" using that by (intro other) auto
    then show ?thesis using that by (simp only: rd a)
  qed
  ultimately show ?thesis using wr unfolding d'_def [symmetric] by blast
qed

theorem apic_register_roundtrip_witness:
  "\<exists>dev'. handle_mmio_write 0xfee00380 (le32 77) devices0 = Ok dev' \<and>
     handle_mmio_read dev' 0 0xfee00380 [0, 0, 0, 0] 0 = Ok (le32 77)"
  using apic_register_roundtrip [of "0x380" 77 devices0 0 0] by auto

text \<open>The guest's time counters are consistent. After an update both the interrupt time at
  \<open>0x08\<close> and the system time at \<open>0x14\<close> hold ten thousand units per loop round, and each has its two copies
  of the high part equal, which is what the guest checks for a torn read. Only these 24 bytes change.\<close>

theorem windows_time_consistent:
  "\<exists>vm'. update_windows_time vm count = Ok vm' \<and>
     (\<forall>base. base = 0x9000008 \<or> base = 0x9000014 \<longrightarrow>
        q64 (mem_ptr vm') base = count * 10000 \<and> load (mem_ptr vm') (base + 4) 4 = load (mem_ptr vm') (base + 8) 4) \<and>
     (\<forall>a. a < 0x9000008 \<or> 0x9000020 \<le> a \<longrightarrow> mem_ptr vm' a = mem_ptr vm a)"
proof -
  let ?t = "count * 10000" and ?h = "le32 (ucast (drop_bit 32 (count * 10000)))"
  let ?m = "store (store (store (store (mem_ptr vm) 0x9000008 (le64 ?t)) 0x9000010 ?h) 0x9000014 (le64 ?t)) 0x900001C ?h"
  have hi: "take 4 (drop 4 (le64 ?t)) = ?h"
  proof (rule nth_equalityI)
    fix i assume "i < length (take 4 (drop 4 (le64 ?t)))"
    then have "i < 4" by simp
    then show "take 4 (drop 4 (le64 ?t)) ! i = ?h ! i"
      by (auto simp: nth_to_le bit_simps add.assoc intro!: bit_word_eqI)
  qed simp
  have "load ?m 0x900000C 4 = ?h" "load ?m 0x9000010 4 = ?h" "load ?m 0x9000018 4 = ?h" "load ?m 0x900001C 4 = ?h"
    using hi by (simp_all add: load_store_other load_store_inside load_store_same_n)
  moreover have "q64 ?m 0x9000008 = ?t" "q64 ?m 0x9000014 = ?t"
    by (simp_all add: q64_store_other q64_store_same)
  moreover have "?m a = mem_ptr vm a" if "a < 0x9000008 \<or> 0x9000020 \<le> a" for a
    using that by (auto simp: store_def)
  ultimately show ?thesis by (auto simp: update_windows_time_mem)
qed

theorem windows_time_consistent_witness:
  "\<exists>vm'. update_windows_time (plain_vm sregs0) 3 = Ok vm' \<and> q64 (mem_ptr vm') 0x9000014 = 30000"
  using windows_time_consistent [of "plain_vm sregs0" 3] by auto

text \<open>Reading the HPET main counter brings the machine down a little over five hours after
  the start: the multiplication overflows exactly when more than \<open>18446744073709\<close> nanoseconds have passed.\<close>

theorem hpet_counter_overflow:
  assumes "START_TIME dev = Some start" and "now - start < 2 ^ 64"
  shows "(handle_mmio_read dev now 0xfed000F0 data n = Panic) = (18446744073709 < now - start)"
proof -
  have "unat (of_nat (now - start) :: u64) = now - start"
    using assms(2) by (simp add: unsigned_of_nat take_bit_nat_eq_self)
  then show ?thesis
    using assms(1) by (simp add: handle_mmio_read_def hpet_read_def mul_chk_def bind_r_eq_Panic)
qed

theorem hpet_counter_overflow_witness:
  "handle_mmio_read (devices0\<lparr>START_TIME := Some 0\<rparr>) 18446744073710 0xfed000F0 (replicate 8 0) 1 = Panic"
  using hpet_counter_overflow [of "devices0\<lparr>START_TIME := Some 0\<rparr>" 0 18446744073710 "replicate 8 0" 1] by simp

section \<open>The start state\<close>

lemma peek_concat_le64:
  "i < length xs \<Longrightarrow> peek (concat (map le64 xs)) (8 * i) 8 = le64 (xs ! i)"
proof (induction xs arbitrary: i)
  case (Cons x xs)
  show ?case
  proof (cases i)
    case (Suc k)
    have "peek (le64 x @ concat (map le64 xs)) (8 * Suc k) 8 = peek (concat (map le64 xs)) (8 * k) 8"
      by (simp add: peek_def)
    then show ?thesis using Cons Suc by simp
  qed (simp add: peek_def)
qed simp

lemma length_concat_le64: "length (concat (map le64 xs)) = 8 * length xs"
  by (induction xs) auto

text \<open>Documented behaviour of the special registers: what is set is read back, and neither the general
  registers nor the MSR writes that repeat their values change them.\<close>

definition msrs_agree :: "(u32 \<times> u64) list \<Rightarrow> kvm_sregs \<Rightarrow> bool" where
  "msrs_agree ms s \<longleftrightarrow>
     (\<forall>v. (0xc0000080, v) \<in> set ms \<longrightarrow> v = efer s) \<and> (\<forall>v. (0xc0000101, v) \<in> set ms \<longrightarrow> v = seg_base (gs s))"

definition sregs_law :: "'k vcpu_ops \<Rightarrow> bool" where
  "sregs_law K \<longleftrightarrow>
     (\<forall>s k k'. set_sregs K s k = Ok k' \<longrightarrow> get_sregs K k' = Ok s) \<and>
     (\<forall>r k k'. set_regs K r k = Ok k' \<longrightarrow> get_sregs K k' = get_sregs K k) \<and>
     (\<forall>ms k k' s. set_msrs K ms k = Ok k' \<and> get_sregs K k = Ok s \<and> msrs_agree ms s \<longrightarrow> get_sregs K k' = Ok s)"

lemma sregs_lawD:
  assumes "sregs_law K"
  shows "set_sregs K s k = Ok k' \<Longrightarrow> get_sregs K k' = Ok s"
    "set_regs K r k = Ok k' \<Longrightarrow> get_sregs K k' = get_sregs K k"
    "set_msrs K ms k = Ok k' \<Longrightarrow> get_sregs K k = Ok s \<Longrightarrow> msrs_agree ms s \<Longrightarrow> get_sregs K k' = Ok s"
  using assms unfolding sregs_law_def by blast+

lemma plain_sregs_law: "sregs_law plain_vcpu"
  by (auto simp: sregs_law_def plain_vcpu_def)

text \<open>How the processor reads the base of a 16-byte system descriptor.\<close>

definition descriptor_base :: "u64 \<Rightarrow> u64 \<Rightarrow> u64" where
  "descriptor_base low high =
     (drop_bit 16 low AND 0xFFFFFF) OR push_bit 24 (drop_bit 56 low) OR push_bit 32 (high AND 0xFFFFFFFF)"

lemma gdt_facts:
  "length gdt_entries = 32" "gdt_entries ! 2 = 0x00af9a000000ffff" "gdt_entries ! 3 = 0x00cf92000000ffff"
  "descriptor_base (gdt_entries ! 8) (gdt_entries ! 9) = tss_vbase"
  "gdt_entries ! 8 AND 0xFFFF = 103"
  by code_simp+

lemma start_flags:
  "flags_of [5, 7, 9, 10, 16] = 0x106A0" "flags_of [0, 8, 10, 11] = 0xD01" "flags_of [31, 0, Suc 0, 5, 16, 18] = 0x80050023"
  by code_simp+

lemma setup_long_mode_steps:
  assumes "setup_long_mode K vm e sv lv = Ok vm'"
  obtains k1 k2 k3 k4 s0 r0 where
    "get_sregs K k1 = Ok s0" "set_sregs K (long_mode_sregs (lv + 0x10000) s0) k1 = Ok k2"
    "k3 = k2 \<or> set_msrs K [(0xc0000080, efer (long_mode_sregs (lv + 0x10000) s0)), (0xc0000101, lv + 0x10000),
       (0x1b, 0xfee00000 OR 0x900)] k2 = Ok k3"
    "get_regs K k3 = Ok r0"
    "set_regs K (r0\<lparr>rip := e, rsp := sv - 0x100, rflags := 0x2, rcx := lv, rdx := lv\<rparr>) k3 = Ok k4"
    "kvm_fd vm' = k4"
    "mem_ptr vm' = store (store (mem_ptr vm) 0x8000000 (concat (map le64 gdt_entries))) 0x8001000
       (poke 4 (le64 sv) (replicate 104 0))"
proof -
  have tss: "put_slice (replicate 104 0) 4 (le64 sv) = Ok (poke 4 (le64 sv) (replicate 104 0))"
    by (simp add: put_slice_def poke_def)
  from assms obtain cpuid v1 v2 v3 s0 v4 v5 r0 where
    v1: "on_kvm (set_cpuid2 K (map hide_hypervisor cpuid)) vm = Ok v1"
    and v2: "write_memory v1 0x8000000 (concat (map le64 gdt_entries)) = Ok v2"
    and v3: "write_memory v2 0x8001000 (poke 4 (le64 sv) (replicate 104 0)) = Ok v3"
    and s0: "get_sregs K (kvm_fd v3) = Ok s0"
    and v4: "on_kvm (set_sregs K (long_mode_sregs (lv + 0x10000) s0)) v3 = Ok v4"
    and v5: "ok_or_keep v4 (on_kvm (set_msrs K [(0xc0000080, efer (long_mode_sregs (lv + 0x10000) s0)),
       (0xc0000101, lv + 0x10000), (0x1b, 0xfee00000 OR 0x900)]) v4) = Ok v5"
    and r0: "get_regs K (kvm_fd v5) = Ok r0"
    and vm': "on_kvm (set_regs K (r0\<lparr>rip := e, rsp := sv - 0x100, rflags := 0x2, rcx := lv, rdx := lv\<rparr>)) v5 = Ok vm'"
    by (auto simp: setup_long_mode_def tss add_chk_Ok_iff sub_chk_Ok_iff Let_def)
  have m5: "mem_ptr v5 = mem_ptr v4" using v5 by (rule ok_or_keep_mem) (rule on_kvm_mem)
  have k5: "kvm_fd v5 = kvm_fd v4 \<or> set_msrs K [(0xc0000080, efer (long_mode_sregs (lv + 0x10000) s0)),
       (0xc0000101, lv + 0x10000), (0x1b, 0xfee00000 OR 0x900)] (kvm_fd v4) = Ok (kvm_fd v5)"
    using v5 by (cases "set_msrs K [(0xc0000080, efer (long_mode_sregs (lv + 0x10000) s0)),
       (0xc0000101, lv + 0x10000), (0x1b, 0xfee00000 OR 0x900)] (kvm_fd v4)") (auto simp: on_kvm_def)
  have mem: "mem_ptr vm' = store (store (mem_ptr vm) 0x8000000 (concat (map le64 gdt_entries))) 0x8001000
       (poke 4 (le64 sv) (replicate 104 0))"
    using on_kvm_mem [OF v1] on_kvm_mem [OF v4] on_kvm_mem [OF vm'] m5 v2 v3
    by (auto simp: write_memory_Ok_iff)
  have "set_sregs K (long_mode_sregs (lv + 0x10000) s0) (kvm_fd v3) = Ok (kvm_fd v4)"
    "set_regs K (r0\<lparr>rip := e, rsp := sv - 0x100, rflags := 0x2, rcx := lv, rdx := lv\<rparr>) (kvm_fd v5) = Ok (kvm_fd vm')"
    using v4 vm' by (auto simp: on_kvm_def)
  then show thesis using that [OF s0 _ k5 r0 _ refl mem] by blast
qed

text \<open>The registers after a successful set-up.\<close>

text \<open>The bits of the control registers and of the descriptors of the table.\<close>

lemma start_bits:
  "bit (0x80050023 :: u64) 31" "bit (0x80050023 :: u64) 0" "bit (0x106A0 :: u64) 5" "bit (0xD01 :: u64) 8"
  "bit (0xD01 :: u64) 10" "bit (0xD01 :: u64) 11" "bit (0x00af9a000000ffff :: u64) 53" "bit (0x00af9a000000ffff :: u64) 47"
  "\<not> bit (0x00af9a000000ffff :: u64) 54" "bit (0x00cf92000000ffff :: u64) 47"
  "drop_bit 40 (0x00af9a000000ffff :: u64) AND 0x7F = 0x1A" "drop_bit 40 (0x00cf92000000ffff :: u64) AND 0x7F = 0x12"
  "drop_bit 40 (gdt_entries ! 8) AND 0xFF = 0x89"
  by code_simp+

lemma long_mode_registers:
  assumes "setup_long_mode K vm krnl_entry_v stack_v lpb_v = Ok vm'" and "regs_law K" and "sregs_law K"
  shows "\<exists>r0 s0. get_regs K (kvm_fd vm') =
      Ok (r0\<lparr>rip := krnl_entry_v, rsp := stack_v - 0x100, rflags := 0x2, rcx := lpb_v, rdx := lpb_v\<rparr>) \<and>
    get_sregs K (kvm_fd vm') = Ok (long_mode_sregs (lpb_v + 0x10000) s0)"
proof -
  from setup_long_mode_steps [OF assms(1)] obtain k1 k2 k3 k4 s0 r0 where
    s: "set_sregs K (long_mode_sregs (lpb_v + 0x10000) s0) k1 = Ok k2"
    and m: "k3 = k2 \<or> set_msrs K [(0xc0000080, efer (long_mode_sregs (lpb_v + 0x10000) s0)), (0xc0000101, lpb_v + 0x10000),
       (0x1b, 0xfee00000 OR 0x900)] k2 = Ok k3"
    and r: "set_regs K (r0\<lparr>rip := krnl_entry_v, rsp := stack_v - 0x100, rflags := 0x2, rcx := lpb_v, rdx := lpb_v\<rparr>) k3 = Ok k4"
    and k4: "kvm_fd vm' = k4" by metis
  let ?s = "long_mode_sregs (lpb_v + 0x10000) s0"
  have s2: "get_sregs K k2 = Ok ?s" by (rule sregs_lawD(1) [OF assms(3) s])
  have ag: "msrs_agree [(0xc0000080, efer ?s), (0xc0000101, lpb_v + 0x10000), (0x1b, 0xfee00000 OR 0x900)] ?s"
    by (simp add: msrs_agree_def long_mode_sregs_def Let_def)
  from m have "get_sregs K k3 = Ok ?s"
  proof
    assume "set_msrs K [(0xc0000080, efer ?s), (0xc0000101, lpb_v + 0x10000), (0x1b, 0xfee00000 OR 0x900)] k2 = Ok k3"
    then show ?thesis using s2 ag by (rule sregs_lawD(3) [OF assms(3)])
  qed (simp add: s2)
  then have "get_sregs K k4 = Ok ?s" using sregs_lawD(2) [OF assms(3) r] by simp
  then show ?thesis using regs_lawD [OF assms(2) r] k4 by blast
qed

text \<open>Property C22: the processor starts the kernel in 64-bit mode with the state it expects. After a
  successful set-up the general registers have the entry point, a stack \<open>0x100\<close> below the given top,
  interrupts off and the loader block as first and second argument; paging, protection, PAE, long mode and
  no-execute are on with the page-table root \<open>0x8102000\<close>; \<open>CS\<close> is a present ring-0 code segment with the long
  bit set and the default-size bit clear, which is 64-bit and not compatibility mode, and \<open>DS\<close>, \<open>ES\<close>, \<open>SS\<close> and \<open>GS\<close> are
  present ring-0 writable data segments; \<open>GS\<close> points to the processor region and the others to zero. The
  descriptor table is the one in guest memory at \<open>0x8000000\<close>, 32 entries long, and the interrupt table that at
  \<open>0x8020000\<close>, 256 gates long, both in the kernel window. In the descriptor table the selectors loaded are what
  the registers hold: \<open>0x10\<close> is a 64-bit ring-0 code segment, \<open>0x18\<close> a ring-0 writable data segment, and \<open>0x40\<close> an
  available task segment whose base and limit are those loaded into \<open>TR\<close>; its ring-0 stack is the given one.\<close>

theorem long_mode_correct:
  assumes "setup_long_mode K vm krnl_entry_v stack_v lpb_v = Ok vm'" and "regs_law K" and "sregs_law K"
  shows "\<exists>r s. get_regs K (kvm_fd vm') = Ok r \<and> get_sregs K (kvm_fd vm') = Ok s \<and>
    rip r = krnl_entry_v \<and> rsp r = stack_v - 0x100 \<and> rflags r = 2 \<and> rcx r = lpb_v \<and> rdx r = lpb_v \<and>
    cr3 s = 0x8102000 \<and> cr0 s = 0x80050023 \<and> cr4 s = 0x106A0 \<and> efer s = 0xD01 \<and>
    bit (cr0 s) 31 \<and> bit (cr0 s) 0 \<and> bit (cr4 s) 5 \<and>
    bit (efer s) 8 \<and> bit (efer s) 10 \<and> bit (efer s) 11 \<and> seg_base (gs s) = lpb_v + 0x10000 \<and>
    seg_l (cs s) = 1 \<and> seg_db (cs s) = 0 \<and> seg_s (cs s) = 1 \<and> seg_type (cs s) = 11 \<and> present (cs s) = 1 \<and>
    dpl (cs s) = 0 \<and> seg_base (cs s) = 0 \<and>
    (\<forall>d. d = ds s \<or> d = es s \<or> d = ss s \<or> d = gs s \<longrightarrow> selector d = 0x18 \<and> seg_s d = 1 \<and> seg_type d = 3 \<and>
       present d = 1 \<and> dpl d = 0 \<and> seg_l d = 0) \<and>
    seg_base (ds s) = 0 \<and> seg_base (es s) = 0 \<and> seg_base (ss s) = 0 \<and>
    dt_limit (gdt s) = 0xFF \<and> dt_base (idt s) = 0xFFFFF80008020000 \<and> dt_limit (idt s) = 0xFFF \<and>
    (let m = mem_ptr vm'; g = 0x8000000
     in dt_base (gdt s) = 0xFFFFF80000000000 + of_nat g \<and> selector (cs s) = 0x10 \<and>
        bit (q64 m (g + 0x10)) 53 \<and> bit (q64 m (g + 0x10)) 47 \<and> \<not> bit (q64 m (g + 0x10)) 54 \<and>
        drop_bit 40 (q64 m (g + 0x10)) AND 0x7F = 0x1A \<and>
        bit (q64 m (g + 0x18)) 47 \<and> drop_bit 40 (q64 m (g + 0x18)) AND 0x7F = 0x12 \<and>
        selector (tr s) = 0x40 \<and> seg_type (tr s) = 9 \<and> seg_s (tr s) = 0 \<and> present (tr s) = 1 \<and>
        drop_bit 40 (q64 m (g + 0x40)) AND 0xFF = 0x89 \<and>
        descriptor_base (q64 m (g + 0x40)) (q64 m (g + 0x48)) = seg_base (tr s) \<and>
        q64 m (g + 0x40) AND 0xFFFF = ucast (seg_limit (tr s)) \<and> q64 m (g + 0x1004) = stack_v)"
proof -
  obtain r0 s0 where rr: "get_regs K (kvm_fd vm') =
      Ok (r0\<lparr>rip := krnl_entry_v, rsp := stack_v - 0x100, rflags := 0x2, rcx := lpb_v, rdx := lpb_v\<rparr>)"
    and sr: "get_sregs K (kvm_fd vm') = Ok (long_mode_sregs (lpb_v + 0x10000) s0)"
    using long_mode_registers [OF assms] by blast
  have mem: "mem_ptr vm' = store (store (mem_ptr vm) 0x8000000 (concat (map le64 gdt_entries))) 0x8001000
       (poke 4 (le64 stack_v) (replicate 104 0))"
    using setup_long_mode_steps [OF assms(1)] by metis
  have g: "q64 (mem_ptr vm') (0x8000000 + 8 * i) = gdt_entries ! i" if "i < 32" for i
  proof -
    have "load (mem_ptr vm') (0x8000000 + 8 * i) 8 = peek (concat (map le64 gdt_entries)) (8 * i) 8"
      using that by (simp add: mem load_store_other load_struct length_concat_le64 gdt_facts)
    then show ?thesis using that by (simp add: q64_def peek_concat_le64 gdt_facts)
  qed
  have t: "q64 (mem_ptr vm') 0x8001004 = stack_v"
    by (simp add: mem q64_def load_store_peek length_poke peek_poke_same)
  show ?thesis
    using rr sr start_bits t g [of 2] g [of 3] g [of 8] g [of 9] gdt_facts
    by (simp add: long_mode_sregs_def start_flags seg_64_def Let_def)
qed

theorem long_mode_correct_witness:
  "\<exists>vm' r s. setup_long_mode plain_vcpu (plain_vm sregs0) 0xFFFFF80000B92010 0xFFFFFE8000010000 0xFFFFF80004000000 = Ok vm' \<and>
     get_regs plain_vcpu (kvm_fd vm') = Ok r \<and> rip r = 0xFFFFF80000B92010 \<and> get_sregs plain_vcpu (kvm_fd vm') = Ok s \<and>
     cr3 s = 0x8102000 \<and> seg_l (cs s) = 1 \<and> dt_base (idt s) = 0xFFFFF80008020000"
proof -
  have "\<exists>vm'. setup_long_mode plain_vcpu (plain_vm sregs0) 0xFFFFF80000B92010 0xFFFFFE8000010000 0xFFFFF80004000000 = Ok vm'"
    by (simp add: setup_long_mode_def add_chk_def sub_chk_def on_kvm_def write_memory_ok MEM_SIZE_def
        length_concat_le64 gdt_facts put_slice_def plain_vm_def Let_def)
  then obtain vm' where v: "setup_long_mode plain_vcpu (plain_vm sregs0) 0xFFFFF80000B92010 0xFFFFFE8000010000 0xFFFFF80004000000 = Ok vm'"
    by blast
  from long_mode_correct [OF v plain_regs_law plain_sregs_law] v show ?thesis by blast
qed

end
