(* ===== verification/Boot.thy ===== *)
theory Boot
  imports Loader LoaderBlock Acpi GuestMap Cpu
begin

unbundle bit_operations_syntax

text \<open>
  The boot sequence of \<open>main\<close> in \<open>src/main.rs\<close>, up to the start of the processor: the shared user page,
  the modules, the patched \<open>MmPteBase\<close>, page tables, the SYSTEM hive, the national-language tables, the
  processor and loader blocks, ACPI, the API-set schema, the module lists, the import binding, the
  descriptor table and the memory descriptor list. Each step is a definition of its own, and \<open>boot\<close>
  composes them in the order of the source. A step whose result the source drops with \<open>.ok()\<close> keeps the
  machine as it was before the step when it fails; all addresses of these steps are constants within
  guest memory. The printing and the read-backs that only feed it are left out.
\<close>

section \<open>Small helpers\<close>

definition wr_ok :: "u64 \<Rightarrow> u8 list \<Rightarrow> 'k vm \<Rightarrow> 'k vm res" where
  "wr_ok a d vm = ok_or_keep vm (write_memory vm a d)"

definition upcase :: "nat \<Rightarrow> u16" where
  "upcase i =
     (let c = (of_nat i :: u32)
      in ucast (if c \<ge> 0x0061 \<and> c \<le> 0x007A then c - 0x20
                else if c \<ge> 0x00E0 \<and> c \<le> 0x00FE \<and> c \<noteq> 0x00F7 then c - 0x20
                else if c \<ge> 0x0100 \<and> c \<le> 0x012E \<and> c mod 2 \<noteq> 0 then c - 1
                else if c \<ge> 0x0132 \<and> c \<le> 0x0148 \<and> c mod 2 \<noteq> 0 then c - 1
                else c))"

definition generate_windows_upcase_table :: "u8 list" where
  "generate_windows_upcase_table = concat (map (\<lambda>i. le16 (upcase i)) [0..<65536])"

definition kuser_page :: "u8 list res" where
  "kuser_page = edit [(0x26c, le32 19041), (0x270, le32 10)] (replicate 4096 0)"

definition pte_base_vaddr :: u64 where
  "pte_base_vaddr = 0xFFFF000000000000 OR push_bit 39 493"

definition mm_pte_base_paddr :: u64 where
  "mm_pte_base_paddr = KRNL_PBASE + 0xCFB358"

section \<open>Fixed addresses\<close>

definition stack_v :: u64 where "stack_v = STACK_VBASE + 0x10000"
definition gdt_v :: u64 where "gdt_v = K_VIRT_ANY + SYSTEM_BASE"
definition idt_v :: u64 where "idt_v = gdt_v + 0x20000"
definition tss_v :: u64 where "tss_v = gdt_v + 0x1000"
definition nls_p_base :: u64 where "nls_p_base = LPB_PBASE + 0x30000"
definition nls_v_base :: u64 where "nls_v_base = LPB_VBASE + 0x30000"
definition hive_p :: u64 where "hive_p = 0x4200000"
definition hive_v :: u64 where "hive_v = 0xFFFFF80045000000"
definition ext_p :: u64 where "ext_p = LPB_PBASE + OFFSET_IN_LPB"
definition ext_v :: u64 where "ext_v = LPB_VBASE + OFFSET_IN_LPB"
definition apiset_p :: u64 where "apiset_p = LPB_PBASE + 0x60000"
definition apiset_v :: u64 where "apiset_v = LPB_VBASE + 0x60000"

section \<open>National-language tables and fixed structures\<close>

definition nls_image :: "u8 list" where
  "nls_image =
     fold (\<lambda>(f, v). assign NLS_DATA_BLOCK [f] v)
       [(''AnsiCodePageData'', le64 (nls_v_base + 0x1000 + 0x20)),
        (''OemCodePageData'', le64 (nls_v_base + 0x11000 + 0x20)),
        (''UnicodeCaseTableData'', le64 (nls_v_base + 0x21000)),
        (''AppXDefaultRegion'', le64 0), (''DefaultLocale'', le64 0)]
       (zeroed NLS_DATA_BLOCK)"

definition setup_nls :: "u8 list \<Rightarrow> u8 list \<Rightarrow> 'k vm \<Rightarrow> 'k vm res" where
  "setup_nls ansi_data oem_data vm =
     bind_r (wr_ok (nls_p_base + 0x1000) ansi_data vm) (\<lambda>vm.
     bind_r (wr_ok (nls_p_base + 0x11000) oem_data vm) (\<lambda>vm.
     bind_r (wr_ok (nls_p_base + 0x21000) generate_windows_upcase_table vm) (\<lambda>vm.
     wr_ok nls_p_base nls_image vm)))"

definition setup_blocks :: "u32 \<Rightarrow> 'k vm \<Rightarrow> 'k vm res" where
  "setup_blocks hive_size vm =
     bind_r (expect_r (Kpcr_setup vm KPCR_VBASE KPCR_PBASE gdt_v idt_v tss_v stack_v)) (\<lambda>vm.
     bind_r (expect_r (Lpb_setup vm LPB_VBASE LPB_PBASE (KPCR_VBASE + 0x180) stack_v 0x10000 hive_v hive_size
               nls_v_base)) (\<lambda>vm.
     bind_r (expect_r (Acpi_setup vm ACPI_PBASE ACPI_VBASE)) (\<lambda>(rsdp_v, vm).
     bind_r (expect_r (Extension_setup vm ext_p ext_v)) (\<lambda>vm.
     ok_or_keep vm (set_acpi vm ext_p rsdp_v)))))"

definition setup_apiset :: "u8 list \<Rightarrow> 'k vm \<Rightarrow> 'k vm res" where
  "setup_apiset apiset_buf vm =
     bind_r (wr_ok apiset_p apiset_buf vm) (\<lambda>vm.
     bind_r (sub_chk (of_nat (length apiset_buf)) 0x2000) (\<lambda>actual_schema_size.
     ok_or_keep vm (set_apiset vm ext_p (apiset_v + 0x2000) actual_schema_size)))"

section \<open>Module lists\<close>

text \<open>The list node of module \<open>i\<close>: its virtual and its physical address.\<close>

definition module_node :: "nat \<Rightarrow> u64 \<times> u64" where
  "module_node i = (LPB_VBASE + (0x40000 + of_nat i * 0x1000), LPB_PBASE + (0x40000 + of_nat i * 0x1000))"

definition module_nodes :: "'a list \<Rightarrow> (u64 \<times> u64) list" where
  "module_nodes ms = map module_node [0..<length ms]"

text \<open>The end of a module is computed for the printed map, and panics when it overflows.\<close>

definition register_module :: "nat \<times> loaded_module \<Rightarrow> 'k vm \<Rightarrow> 'k vm res" where
  "register_module im vm =
     (let (i, m) = im; (node_v, node_p) = module_node i
      in bind_r (add_chk (v_base m) (ucast (mod_size m))) (\<lambda>_.
         ok_or_keep vm (add_module vm node_v node_p (v_base m) (mod_entry m) (mod_size m) (mod_name m))))"

definition register_modules :: "loaded_module list \<Rightarrow> 'k vm \<Rightarrow> 'k vm res" where
  "register_modules ms vm = for_r register_module (enumerate 0 ms) vm"

definition contains :: "rstring \<Rightarrow> rstring \<Rightarrow> bool" where
  "contains s pat = list_ex (\<lambda>i. take (length pat) (drop i s) = pat) [0..<Suc (length s)]"

definition hal_ext_nodes :: "unicode \<Rightarrow> loaded_module list \<Rightarrow> (u64 \<times> u64) list" where
  "hal_ext_nodes U ms =
     map (\<lambda>(i, m). module_node i)
       (filter (\<lambda>(i, m). contains (to_lowercase U (mod_name m)) (lit ''halext'')) (enumerate 0 ms))"

text \<open>Linking the nodes \<open>ns\<close> at the entry \<open>off\<close> bytes inside each, into the list with the head \<open>head_v\<close>.\<close>

definition link_hal_ext_node :: "(u64 \<times> u64) list \<Rightarrow> nat \<Rightarrow> 'k vm \<Rightarrow> 'k vm res" where
  "link_hal_ext_node ns i vm =
     (let head_v = ext_v + 0xA18;
          next_v = (if i = length ns - 1 then head_v else fst (ns ! (i + 1)) + 0x20);
          prev_v = (if i = 0 then head_v else fst (ns ! (i - 1)) + 0x20)
      in bind_r (wr_ok (snd (ns ! i) + 0x20) (le64 next_v) vm) (wr_ok (snd (ns ! i) + 0x20 + 8) (le64 prev_v)))"

definition link_hal_ext :: "(u64 \<times> u64) list \<Rightarrow> 'k vm \<Rightarrow> 'k vm res" where
  "link_hal_ext ns vm =
     (if ns \<noteq> [] then
        bind_r (wr_ok (ext_p + 0xA18) (le64 (fst (hd ns) + 0x20)) vm) (\<lambda>vm.
        bind_r (wr_ok (ext_p + 0xA18 + 8) (le64 (fst (last ns) + 0x20)) vm) (\<lambda>vm.
        for_r (link_hal_ext_node ns) [0..<length ns] vm))
      else Ok vm)"

definition link_node :: "(u64 \<times> u64) list \<Rightarrow> nat \<Rightarrow> 'k vm \<Rightarrow> 'k vm res" where
  "link_node ns i vm =
     (let head_v1 = LPB_VBASE + 0x10;
          next_v1 = (if i = length ns - 1 then head_v1 else fst (ns ! (i + 1)));
          prev_v1 = (if i = 0 then head_v1 else fst (ns ! (i - 1)));
          next_v2 = (if i = length ns - 1 then fst (hd ns) + 0x10 else fst (ns ! (i + 1)) + 0x10);
          prev_v2 = (if i = 0 then fst (last ns) + 0x10 else fst (ns ! (i - 1)) + 0x10);
          p = snd (ns ! i)
      in bind_r (wr_ok p (le64 next_v1) vm) (\<lambda>vm.
         bind_r (wr_ok (p + 8) (le64 prev_v1) vm) (\<lambda>vm.
         bind_r (wr_ok (p + 0x10) (le64 next_v2) vm) (\<lambda>vm.
         wr_ok (p + 0x18) (le64 prev_v2) vm))))"

text \<open>\<open>nodes[0]\<close> and \<open>nodes.last().unwrap()\<close> panic on an empty list.\<close>

definition link_modules :: "(u64 \<times> u64) list \<Rightarrow> 'k vm \<Rightarrow> 'k vm res" where
  "link_modules ns vm =
     (if ns = [] then Panic
      else
      let boot_head_v = LPB_VBASE + 0x30
      in bind_r (wr_ok (LPB_PBASE + 0x10) (le64 (fst (hd ns))) vm) (\<lambda>vm.
         bind_r (wr_ok (LPB_PBASE + 0x18) (le64 (fst (last ns))) vm) (\<lambda>vm.
         bind_r (wr_ok (LPB_PBASE + 0x30) (le64 boot_head_v) vm) (\<lambda>vm.
         bind_r (wr_ok (LPB_PBASE + 0x38) (le64 boot_head_v) vm) (\<lambda>vm.
         for_r (link_node ns) [0..<length ns] vm)))))"

section \<open>Descriptor table\<close>

definition boot_gdt :: "u64 list" where
  "boot_gdt =
     (let tss_low = push_bit 40 0x89 OR push_bit 16 (tss_v AND 0xFFFFFF) OR 0x67;
          tss_high = drop_bit 32 tss_v
      in (replicate 32 0)[2 := 0x00AF9A000000FFFF, 3 := 0x00CF92000000FFFF, 4 := 0x00AFFA000000FFFF,
           5 := 0x00CFF2000000FFFF, 6 := 0x00AFFA000000FFFF, 10 := 0x00CFF3000000FFFF,
           8 := tss_low, 9 := tss_high])"

definition setup_gdt :: "'k vm \<Rightarrow> 'k vm res" where
  "setup_gdt vm =
     bind_r (expect_r (write_memory vm (SYSTEM_BASE + 0x1000) (replicate 104 0))) (\<lambda>vm.
     for_r (\<lambda>(i, e). wr_ok (SYSTEM_BASE + of_nat i * 8) (le64 e)) (enumerate 0 boot_gdt) vm)"

section \<open>Memory descriptors\<close>

definition md_node :: "nat \<Rightarrow> u64 \<times> u64" where
  "md_node i = (LPB_VBASE + (0x20000 + of_nat i * 0x1000), LPB_PBASE + (0x20000 + of_nat i * 0x1000))"

definition hive_end :: "u32 \<Rightarrow> u64" where
  "hive_end hive_size = 0x4200000 + ((ucast hive_size + 0xFFF) AND NOT 0xFFF)"

definition base_map :: "u32 \<Rightarrow> u64 list" where
  "base_map hive_size =
     [0x0, 0x1000, 0x200000, 0x2000000, 0x4000000, 0x4200000, hive_end hive_size, 0x8000000, 0xC000000]"

definition size_map :: "u32 \<Rightarrow> u64 list" where
  "size_map hive_size =
     [0x1000, 0x1FF000, 0x1E00000, 0x2000000, 0x200000, ucast hive_size,
      of_nat MEM_SIZE - hive_end hive_size, 0x4000000, of_nat MEM_SIZE - 0xC000000]"

definition type_map :: "u32 list" where
  "type_map = [1, 0, 7, 8, 15, 15, 0, 15, 0]"

definition link_descriptor :: "u32 \<Rightarrow> nat \<Rightarrow> 'k vm \<Rightarrow> 'k vm res" where
  "link_descriptor hive_size i vm =
     (let mem_head_v = LPB_VBASE + 0x20;
          n_v = (if i = 6 then mem_head_v else fst (md_node (i + 1)));
          p_v = (if i = 0 then mem_head_v else fst (md_node (i - 1)));
          p = snd (md_node i)
      in bind_r (ok_or_keep vm (add_memory vm p (base_map hive_size ! i) (size_map hive_size ! i) (type_map ! i))) (\<lambda>vm.
         bind_r (wr_ok p (le64 n_v) vm) (wr_ok (p + 8) (le64 p_v))))"

definition setup_descriptors :: "u32 \<Rightarrow> 'k vm \<Rightarrow> 'k vm res" where
  "setup_descriptors hive_size vm =
     bind_r (for_r (link_descriptor hive_size) [0..<7] vm) (\<lambda>vm.
     bind_r (wr_ok (LPB_PBASE + 0x20) (le64 (fst (md_node 0))) vm)
       (wr_ok (LPB_PBASE + 0x28) (le64 (fst (md_node 6)))))"

section \<open>The whole sequence\<close>

definition boot ::
  "unicode \<Rightarrow> (u8 list \<Rightarrow> parsed option) \<Rightarrow> filesystem \<Rightarrow> rstring \<Rightarrow> 'k vm res \<Rightarrow> (u64 \<times> 'k vm) res" where
  "boot U obj files sys32_path new_vm =
     bind_r (expect_r new_vm) (\<lambda>vm.
     bind_r kuser_page (\<lambda>kuser_data.
     bind_r (wr_ok KUSER_PBASE kuser_data vm) (\<lambda>vm.
     bind_r (expect_r (load_directory U obj files vm sys32_path KRNL_PBASE 0xFFFFF80000200000 [])) (\<lambda>(ms, vm).
     bind_r (get_r ms 0) (\<lambda>krnl_mod.
     bind_r (get_r ms 1) (\<lambda>hal_mod.
     bind_r (expect_r (write_memory vm mm_pte_base_paddr (le64 pte_base_vaddr))) (\<lambda>vm.
     bind_r (expect_r (setup_kernel_paging vm (v_base krnl_mod) (v_base hal_mod))) (\<lambda>vm.
     bind_r (expect_r (fs_read files (sys32_path @ lit ''/config/SYSTEM''))) (\<lambda>sys_hive.
     bind_r (expect_r (write_memory vm hive_p sys_hive)) (\<lambda>vm.
     bind_r (expect_r (fs_read files (sys32_path @ lit ''/C_1252.NLS''))) (\<lambda>ansi_data.
     bind_r (expect_r (fs_read files (sys32_path @ lit ''/C_437.NLS''))) (\<lambda>oem_data.
     bind_r (setup_nls ansi_data oem_data vm) (\<lambda>vm.
     let hive_size = of_nat (length sys_hive)
     in
     bind_r (setup_blocks hive_size vm) (\<lambda>vm.
     bind_r (case fs_read files (sys32_path @ lit ''/apisetschema.dll'') of
               Ok apiset_buf \<Rightarrow> setup_apiset apiset_buf vm
             | Err _ \<Rightarrow> Ok vm
             | Panic \<Rightarrow> Panic) (\<lambda>vm.
     bind_r (register_modules ms vm) (\<lambda>vm.
     bind_r (link_hal_ext (hal_ext_nodes U ms) vm) (\<lambda>vm.
     bind_r (link_modules (module_nodes ms) vm) (\<lambda>vm.
     bind_r (expect_r (bind_all U ms vm)) (\<lambda>vm.
     bind_r (setup_gdt vm) (\<lambda>vm.
     bind_r (setup_descriptors hive_size vm) (\<lambda>vm.
     bind_r (expect_r (setup_diagnostic_idt vm)) (\<lambda>vm.
     Ok (mod_entry krnl_mod, vm)))))))))))))))))))))))"

definition boot_and_start ::
  "'k vcpu_ops \<Rightarrow> unicode \<Rightarrow> (u8 list \<Rightarrow> parsed option) \<Rightarrow> filesystem \<Rightarrow> rstring \<Rightarrow> 'k vm res \<Rightarrow> 'k vm res" where
  "boot_and_start K U obj files sys32_path new_vm =
     bind_r (boot U obj files sys32_path new_vm) (\<lambda>(krnl_entry_v, vm).
     setup_long_mode K vm krnl_entry_v stack_v LPB_VBASE)"

end
