(* ===== verification/ListRings.thy ===== *)
theory ListRings
  imports Layout
begin

text \<open>
  The circular doubly linked lists of the Windows kernel (\<open>LIST_ENTRY\<close> in \<open>src/nt_types.rs\<close>), which the
  boot code lays out in guest memory: the memory descriptors, the loaded modules in load order and in
  memory order. The locale \<open>linked_ring\<close> states what such a list promises to the code that walks it; its
  lemmas are what walking it gives.
\<close>

section \<open>The contract of a circular list\<close>

locale linked_ring =
  fixes next_of prev_of :: "'a \<Rightarrow> 'a" and ring :: "'a list"
  assumes ring_nonempty: "ring \<noteq> []"
    and next_nth: "i < length ring \<Longrightarrow> next_of (ring ! i) = ring ! (Suc i mod length ring)"
    and prev_nth: "i < length ring \<Longrightarrow> prev_of (ring ! (Suc i mod length ring)) = ring ! i"
begin

lemma next_pow: "i < length ring \<Longrightarrow> (next_of ^^ k) (ring ! i) = ring ! ((i + k) mod length ring)"
proof (induction k)
  case (Suc k)
  then have "(next_of ^^ Suc k) (ring ! i) = next_of (ring ! ((i + k) mod length ring))" by simp
  also have "\<dots> = ring ! (Suc ((i + k) mod length ring) mod length ring)"
    using ring_nonempty by (intro next_nth) simp
  finally show ?case by (simp add: mod_Suc_eq)
qed simp

lemma walk: "map (\<lambda>k. (next_of ^^ k) (hd ring)) [0..<length ring] = ring"
  using next_pow [of 0] ring_nonempty by (intro nth_equalityI) (simp_all add: hd_conv_nth)

lemma walk_returns: "(next_of ^^ length ring) (hd ring) = hd ring"
  using next_pow [of 0 "length ring"] ring_nonempty by (simp add: hd_conv_nth)

lemma prev_next: "x \<in> set ring \<Longrightarrow> prev_of (next_of x) = x"
  by (auto simp: in_set_conv_nth next_nth prev_nth)

lemma next_in: "x \<in> set ring \<Longrightarrow> next_of x \<in> set ring"
  using ring_nonempty by (auto simp: in_set_conv_nth next_nth intro: mod_less_divisor)

lemma next_prev: "x \<in> set ring \<Longrightarrow> next_of (prev_of x) = x"
proof -
  assume "x \<in> set ring"
  then obtain j where j: "j < length ring" "x = ring ! j" by (auto simp: in_set_conv_nth)
  define i where "i = (j + length ring - 1) mod length ring"
  have i: "i < length ring" using j unfolding i_def by (intro mod_less_divisor) auto
  have "Suc (j + length ring - 1) = j + length ring" using j by linarith
  then have "Suc i mod length ring = (j + length ring) mod length ring"
    unfolding i_def by (metis mod_Suc_eq)
  then have "Suc i mod length ring = j" using j by simp
  then show ?thesis using next_nth [OF i] prev_nth [OF i] j by simp
qed

end

section \<open>Lists in guest memory\<close>

definition window :: "u64 \<Rightarrow> nat" where
  "window v = unat (v - K_VIRT_ANY)"

definition flink :: "(nat \<Rightarrow> u8) \<Rightarrow> u64 \<Rightarrow> u64" where
  "flink m v = q64 m (window v)"

definition blink :: "(nat \<Rightarrow> u8) \<Rightarrow> u64 \<Rightarrow> u64" where
  "blink m v = q64 m (window v + 8)"

text \<open>A list in guest memory is a ring when each entry holds its two neighbours.\<close>

lemma memory_ringI:
  assumes "vs \<noteq> []"
    and "\<And>i. Suc i < length vs \<Longrightarrow> q64 m (window (vs ! i)) = vs ! Suc i \<and> q64 m (window (vs ! Suc i) + 8) = vs ! i"
    and "q64 m (window (last vs)) = hd vs" and "q64 m (window (hd vs) + 8) = last vs"
  shows "linked_ring (flink m) (blink m) vs"
proof unfold_locales
  fix i assume i: "i < length vs"
  have "flink m (vs ! i) = vs ! (Suc i mod length vs) \<and> blink m (vs ! (Suc i mod length vs)) = vs ! i"
  proof (cases "Suc i < length vs")
    case True
    then show ?thesis using assms(2) [of i] by (simp add: flink_def blink_def)
  next
    case False
    then have "Suc i = length vs" using i by simp
    moreover then have "vs ! i = last vs" by (metis assms(1) diff_Suc_1 last_conv_nth)
    ultimately show ?thesis using assms by (simp add: flink_def blink_def hd_conv_nth)
  qed
  then show "flink m (vs ! i) = vs ! (Suc i mod length vs)" "blink m (vs ! (Suc i mod length vs)) = vs ! i"
    by auto
qed (use assms in auto)

end
