(* ===== verification/BootLists.thy ===== *)
theory BootLists
  imports Boot ListRings
begin

unbundle bit_operations_syntax

text \<open>
  The lists that \<open>main\<close> in \<open>src/main.rs\<close> leaves in guest memory for the kernel: the memory descriptors and
  the loaded modules. Each is shown to be a ring in the sense of \<open>linked_ring\<close>, read through the kernel's
  mapping, with the entries the code meant to put there.
\<close>

section \<open>Writes whose errors are dropped\<close>

lemma wr_ok_in: "unat a + length d \<le> MEM_SIZE \<Longrightarrow> wr_ok a d vm = write_memory vm a d"
  by (simp add: wr_ok_def write_memory_ok)

lemma wr_ok_total: "unat a + length d < 2 ^ 64 \<Longrightarrow> \<exists>vm'. wr_ok a d vm = Ok vm'"
  using write_memory_no_panic [of a d vm] by (cases "write_memory vm a d") (auto simp: wr_ok_def)

lemma wr_ok_frame:
  "\<lbrakk>wr_ok a d vm = Ok vm'; b < unat a \<or> unat a + length d \<le> b\<rbrakk> \<Longrightarrow> mem_ptr vm' b = mem_ptr vm b"
  by (cases "write_memory vm a d") (auto simp: wr_ok_def write_memory_Ok_iff store_def)

section \<open>Memory descriptor list\<close>

definition mdl_ring :: "u64 list" where
  "mdl_ring = (LPB_VBASE + 0x20) # map (\<lambda>i. fst (md_node i)) [0..<7]"

lemma mdl_ring_eq: "mdl_ring = [0xFFFFF80004000020, 0xFFFFF80004020000, 0xFFFFF80004021000, 0xFFFFF80004022000,
   0xFFFFF80004023000, 0xFFFFF80004024000, 0xFFFFF80004025000, 0xFFFFF80004026000]"
  by (simp add: mdl_ring_def md_node_def layout_defs upt_rec)


lemma link_descriptor_mem:
  assumes "i < 7"
  shows "link_descriptor hs i vm =
    Ok (vm\<lparr>mem_ptr := store (store (store (mem_ptr vm) (0x4020000 + 0x1000 * i)
         (descriptor_image (base_map hs ! i) (size_map hs ! i) (type_map ! i)))
         (0x4020000 + 0x1000 * i) (le64 (mdl_ring ! ((i + 2) mod 8)))) (0x4020008 + 0x1000 * i) (le64 (mdl_ring ! i))\<rparr>)"
proof -
  consider "i = 0" | "i = 1" | "i = 2" | "i = 3" | "i = 4" | "i = 5" | "i = 6" using assms by linarith
  then show ?thesis
    by cases (simp_all add: link_descriptor_def md_node_def layout_defs wr_ok_def add_memory_mem write_memory_ok MEM_SIZE_def mdl_ring_eq)
qed


definition descriptor_mem :: "u32 \<Rightarrow> nat \<Rightarrow> (nat \<Rightarrow> u8) \<Rightarrow> nat \<Rightarrow> u8" where
  "descriptor_mem hs i m =
     store (store (store m (0x4020000 + 0x1000 * i)
         (descriptor_image (base_map hs ! i) (size_map hs ! i) (type_map ! i)))
         (0x4020000 + 0x1000 * i) (le64 (mdl_ring ! ((i + 2) mod 8)))) (0x4020008 + 0x1000 * i) (le64 (mdl_ring ! i))"

definition mdl_mem :: "u32 \<Rightarrow> (nat \<Rightarrow> u8) \<Rightarrow> nat \<Rightarrow> u8" where
  "mdl_mem hs m =
     store (store (fold (descriptor_mem hs) [0..<7] m) 0x4000020 (le64 (mdl_ring ! 1))) 0x4000028 (le64 (mdl_ring ! 7))"

lemma mdl_fold_mem:
  "(\<And>i. i \<in> set is \<Longrightarrow> i < 7) \<Longrightarrow>
   for_r (link_descriptor hs) is vm = Ok (vm\<lparr>mem_ptr := fold (descriptor_mem hs) is (mem_ptr vm)\<rparr>)"
  by (induction "is" arbitrary: vm) (simp_all add: link_descriptor_mem descriptor_mem_def)

lemma setup_descriptors_mem:
  "setup_descriptors hs vm = Ok (vm\<lparr>mem_ptr := mdl_mem hs (mem_ptr vm)\<rparr>)"
  unfolding setup_descriptors_def mdl_mem_def
  by (subst mdl_fold_mem) (simp_all add: md_node_def layout_defs wr_ok_def write_memory_ok MEM_SIZE_def mdl_ring_eq)

text \<open>What the list holds for node \<open>i\<close>.\<close>

lemma descriptor_mem_same:
  "load (descriptor_mem hs i m) (0x4020010 + 0x1000 * i) 24 =
     drop 16 (descriptor_image (base_map hs ! i) (size_map hs ! i) (type_map ! i))"
  "q64 (descriptor_mem hs i m) (0x4020000 + 0x1000 * i) = mdl_ring ! ((i + 2) mod 8)"
  "q64 (descriptor_mem hs i m) (0x4020008 + 0x1000 * i) = mdl_ring ! i"
  by (simp_all add: descriptor_mem_def mem_simps load_store_other load_store_inside descriptor_image_fields)

lemma descriptor_mem_other:
  "i \<noteq> j \<Longrightarrow> k + n \<le> 0x1000 \<Longrightarrow> load (descriptor_mem hs j m) (0x4020000 + 0x1000 * i + k) n = load m (0x4020000 + 0x1000 * i + k) n"
  unfolding descriptor_mem_def
  by (subst load_store_other, force simp: descriptor_image_fields)+ simp


lemma fold_descriptor_other:
  "i \<notin> set is \<Longrightarrow> k + n \<le> 0x1000 \<Longrightarrow>
   load (fold (descriptor_mem hs) is m) (0x4020000 + 0x1000 * i + k) n = load m (0x4020000 + 0x1000 * i + k) n"
  by (induction "is" arbitrary: m) (simp_all add: descriptor_mem_other)

lemma mdl_mem_node:
  assumes "i < 7" and "k + n \<le> 0x1000"
  shows "\<exists>m0. load (mdl_mem hs m) (0x4020000 + 0x1000 * i + k) n = load (descriptor_mem hs i m0) (0x4020000 + 0x1000 * i + k) n"
proof -
  have "[0..<7] = [0..<i] @ i # [Suc i..<7]" 
    using assms(1) upt_add_eq_append [of 0 i "7 - i"] by (simp add: upt_conv_Cons)
  then have "load (mdl_mem hs m) (0x4020000 + 0x1000 * i + k) n =
      load (fold (descriptor_mem hs) [Suc i..<7] (descriptor_mem hs i (fold (descriptor_mem hs) [0..<i] m))) (0x4020000 + 0x1000 * i + k) n"
    by (simp add: mdl_mem_def load_store_other)
  also have "\<dots> = load (descriptor_mem hs i (fold (descriptor_mem hs) [0..<i] m)) (0x4020000 + 0x1000 * i + k) n"
    using assms(2) by (intro fold_descriptor_other) auto
  finally show ?thesis by blast
qed

lemma mdl_mem_links:
  assumes "i < 7"
  shows "q64 (mdl_mem hs m) (0x4020000 + 0x1000 * i) = mdl_ring ! ((i + 2) mod 8)"
    and "q64 (mdl_mem hs m) (0x4020008 + 0x1000 * i) = mdl_ring ! i"
  using mdl_mem_node [OF assms, of 0 8 hs m] mdl_mem_node [OF assms, of 8 8 hs m] descriptor_mem_same(2,3) [of hs i]
  by (auto simp: q64_def add.commute add.left_commute)

lemma mdl_mem_content:
  assumes "i < 7"
  shows "load (mdl_mem hs m) (0x4020010 + 0x1000 * i) 24 =
     drop 16 (descriptor_image (base_map hs ! i) (size_map hs ! i) (type_map ! i))"
  using mdl_mem_node [OF assms, of 16 24 hs m] descriptor_mem_same(1) [of hs i]
  by (auto simp: add.commute add.left_commute)

interpretation mdl: linked_ring "flink (mdl_mem hs m)" "blink (mdl_mem hs m)" mdl_ring
  for hs :: u32 and m :: "nat \<Rightarrow> u8"
proof (rule memory_ringI)
  fix i assume "Suc i < length mdl_ring"
  then have "i < 7" by (simp add: mdl_ring_eq)
  then consider "i = 0" | "i = 1" | "i = 2" | "i = 3" | "i = 4" | "i = 5" | "i = 6" by linarith
  then show "q64 (mdl_mem hs m) (window (mdl_ring ! i)) = mdl_ring ! Suc i \<and>
      q64 (mdl_mem hs m) (window (mdl_ring ! Suc i) + 8) = mdl_ring ! i"
    using mdl_mem_links [of 0 hs m] mdl_mem_links [of 1 hs m] mdl_mem_links [of 2 hs m] mdl_mem_links [of 3 hs m]
      mdl_mem_links [of 4 hs m] mdl_mem_links [of 5 hs m] mdl_mem_links [of 6 hs m]
    by cases (simp_all add: mdl_ring_eq window_def layout_defs mdl_mem_def mem_simps)
qed (use mdl_mem_links [of 6 hs m] in \<open>simp_all add: mdl_ring_eq window_def layout_defs mdl_mem_def mem_simps\<close>)


lemma md_node_window: "i < 7 \<Longrightarrow> window (fst (md_node i)) = 0x4020000 + 0x1000 * i"
proof -
  assume "i < 7"
  then consider "i = 0" | "i = 1" | "i = 2" | "i = 3" | "i = 4" | "i = 5" | "i = 6" by linarith
  then show ?thesis by cases (simp_all add: window_def md_node_def layout_defs)
qed

lemma mdl_fields:
  fixes hs :: u32
  assumes "i < 7"
  defines "d \<equiv> descriptor_image (base_map hs ! i) (size_map hs ! i) (type_map ! i)"
  shows "field32 (mdl_mem hs m) (window (fst (md_node i))) MEMORY_ALLOCATION_DESCRIPTOR [''MemoryType''] = type_map ! i"
    and "field64 (mdl_mem hs m) (window (fst (md_node i))) MEMORY_ALLOCATION_DESCRIPTOR [''BasePage''] = drop_bit 12 (base_map hs ! i)"
    and "field64 (mdl_mem hs m) (window (fst (md_node i))) MEMORY_ALLOCATION_DESCRIPTOR [''PageCount''] = drop_bit 12 (size_map hs ! i)"
proof -
  have l: "load (mdl_mem hs m) (0x4020010 + 0x1000 * i) 24 = drop 16 d"
    unfolding d_def by (rule mdl_mem_content [OF assms(1)])
  have sub: "load (mdl_mem hs m) (0x4020010 + 0x1000 * i + k) n = peek d (16 + k) n" if "k + n \<le> 24" for k n
  proof -
    have "load (mdl_mem hs m) (0x4020010 + 0x1000 * i + k) n = take n (drop k (load (mdl_mem hs m) (0x4020010 + 0x1000 * i) 24))"
      using that by (intro nth_equalityI) (simp_all add: nth_load add.assoc)
    then show ?thesis unfolding l peek_def by (simp add: add.commute)
  qed
  show "field32 (mdl_mem hs m) (window (fst (md_node i))) MEMORY_ALLOCATION_DESCRIPTOR [''MemoryType''] = type_map ! i"
    "field64 (mdl_mem hs m) (window (fst (md_node i))) MEMORY_ALLOCATION_DESCRIPTOR [''BasePage''] = drop_bit 12 (base_map hs ! i)"
    "field64 (mdl_mem hs m) (window (fst (md_node i))) MEMORY_ALLOCATION_DESCRIPTOR [''PageCount''] = drop_bit 12 (size_map hs ! i)"
    using sub [of 0 4] sub [of 8 8] sub [of 16 8]
    by (simp_all add: field_defs descriptor_layout md_node_window [OF assms(1)] d_def descriptor_image_fields add.commute add.left_commute)
qed

text \<open>Property C9: building the memory descriptor list always succeeds, and the kernel can walk it. From the
  head in the loader block the forward links pass through the seven descriptors in order and come back
  to the head after eight steps, the backward links undo the forward ones, and each descriptor holds its
  type, first page and number of pages.\<close>

theorem memory_descriptor_list:
  "\<exists>vm'. setup_descriptors hs vm = Ok vm' \<and>
     (let m = mem_ptr vm'; head = LPB_VBASE + 0x20; node = (\<lambda>i. fst (md_node i))
      in map (\<lambda>k. (flink m ^^ k) head) [0..<8] = head # map node [0..<7] \<and>
         (flink m ^^ 8) head = head \<and>
         (\<forall>x. x \<in> set (head # map node [0..<7]) \<longrightarrow> blink m (flink m x) = x) \<and>
         (\<forall>i. i < 7 \<longrightarrow>
            field32 m (window (node i)) MEMORY_ALLOCATION_DESCRIPTOR [''MemoryType''] = type_map ! i \<and>
            field64 m (window (node i)) MEMORY_ALLOCATION_DESCRIPTOR [''BasePage''] = drop_bit 12 (base_map hs ! i) \<and>
            field64 m (window (node i)) MEMORY_ALLOCATION_DESCRIPTOR [''PageCount''] = drop_bit 12 (size_map hs ! i)))"
proof -
  have hd: "hd mdl_ring = LPB_VBASE + 0x20" "length mdl_ring = 8" by (simp_all add: mdl_ring_def)
  show ?thesis
    unfolding setup_descriptors_mem
    using mdl.walk [of hs "mem_ptr vm"] mdl.walk_returns [of hs "mem_ptr vm"] mdl.prev_next [of _ hs "mem_ptr vm"]
    unfolding hd by (simp add: Let_def mdl_fields mdl_ring_def)
qed

theorem memory_descriptor_list_witness:
  "\<exists>vm'. setup_descriptors 0x1000 (plain_vm sregs0) = Ok vm' \<and>
     (flink (mem_ptr vm') ^^ 8) 0xFFFFF80004000020 = 0xFFFFF80004000020 \<and>
     field64 (mem_ptr vm') (window (fst (md_node 3))) MEMORY_ALLOCATION_DESCRIPTOR [''BasePage''] = 0x2000"
proof -
  from memory_descriptor_list [of "0x1000" "plain_vm sregs0"] obtain vm' where
    v: "setup_descriptors 0x1000 (plain_vm sregs0) = Ok vm'" "(flink (mem_ptr vm') ^^ 8) (LPB_VBASE + 0x20) = LPB_VBASE + 0x20"
    and g: "\<forall>i. i < 7 \<longrightarrow> field64 (mem_ptr vm') (window (fst (md_node i))) MEMORY_ALLOCATION_DESCRIPTOR [''BasePage''] =
      drop_bit 12 (base_map 0x1000 ! i)" unfolding Let_def by blast
  have "drop_bit 12 (base_map 0x1000 ! 3) = 0x2000" by (simp add: base_map_def)
  then show ?thesis using v g [rule_format, of 3] by (auto simp: layout_defs)
qed

text \<open>The pages of the descriptors. The last page of a hive that does not end at a page boundary is counted
  in the base of the next descriptor but not in the hive's page count.\<close>

lemma hive_end_unat: "unat (hive_end hs) = 0x4200000 + 4096 * ((unat hs + 4095) div 4096)"
proof -
  let ?w = "ucast hs + 0xFFF :: u64"
  have h: "unat hs < 4294967296" by simp
  then have "unat hs + 0xFFF < 18446744073709551616" by linarith
  then have "unat ?w = unat hs + 4095" by (subst unat_plus_lt) (simp_all add: unat_ucast_up)
  moreover have "?w AND NOT 0xFFF = ?w AND NOT (mask 12)" by (simp add: mask_eq_exp_minus_1)
  ultimately have a: "unat (?w AND NOT 0xFFF) = (unat hs + 4095) div 4096 * 4096" by (simp add: unat_and_not_mask)
  have "(unat hs + 4095) div 4096 * 4096 \<le> unat hs + 4095" by (rule div_times_less_eq_dividend)
  then have "unat (?w AND NOT 0xFFF) + 0x4200000 < 18446744073709551616" unfolding a using h by linarith
  from near_addr(2) [OF this] show ?thesis unfolding hive_end_def a by linarith
qed

lemma mdl_pages:
  fixes hs :: u32
  defines "h \<equiv> unat hs" and "up \<equiv> (unat hs + 4095) div 4096"
  shows "map (\<lambda>i. unat (drop_bit 12 (base_map hs ! i))) [0..<7] = [0, 1, 0x200, 0x2000, 0x4000, 0x4200, 0x4200 + up]"
    and "map (\<lambda>i. unat (drop_bit 12 (size_map hs ! i))) [0..<7] =
      [1, 0x1FF, 0x1E00, 0x2000, 0x200, h div 4096, 0x200000 - (0x4200 + up)]"
proof -
  have e: "unat (hive_end hs) = 4096 * (0x4200 + up)" by (simp add: hive_end_unat up_def)
  have "unat hs < 4294967296" by simp
  then have "(unat hs + 4095) div 4096 \<le> 4294971391 div 4096" by (intro div_le_mono) linarith
  then have "up \<le> 0x100000" unfolding up_def by simp
  then have "hive_end hs \<le> of_nat MEM_SIZE" by (simp add: word_le_nat_alt e MEM_SIZE_def)
  then have f: "unat (of_nat MEM_SIZE - hive_end hs) = 4096 * (0x200000 - (0x4200 + up))"
    by (simp add: unat_sub e MEM_SIZE_def)
  have u: "unat (ucast hs :: u64) = unat hs" by (rule unat_ucast_up) simp
  have d: "unat (drop_bit 12 w) = unat w div 4096" for w :: u64 by (simp add: unat_drop_bit_eq drop_bit_nat_def)
  show "map (\<lambda>i. unat (drop_bit 12 (base_map hs ! i))) [0..<7] = [0, 1, 0x200, 0x2000, 0x4000, 0x4200, 0x4200 + up]"
    by (simp add: upt_rec base_map_def d e del: drop_bit_numeral_bit0 drop_bit_numeral_bit1)
  show "map (\<lambda>i. unat (drop_bit 12 (size_map hs ! i))) [0..<7] =
      [1, 0x1FF, 0x1E00, 0x2000, 0x200, h div 4096, 0x200000 - (0x4200 + up)]"
    by (simp add: upt_rec size_map_def d f u h_def del: drop_bit_numeral_bit0 drop_bit_numeral_bit1)
qed


lemma mdl_page:
  fixes hs :: u32
  assumes "i < 7"
  shows "unat (drop_bit 12 (base_map hs ! i)) =
      [0, 1, 0x200, 0x2000, 0x4000, 0x4200, 0x4200 + (unat hs + 4095) div 4096] ! i"
    and "unat (drop_bit 12 (size_map hs ! i)) =
      [1, 0x1FF, 0x1E00, 0x2000, 0x200, unat hs div 4096, 0x200000 - (0x4200 + (unat hs + 4095) div 4096)] ! i"
  using arg_cong [OF mdl_pages(1) [of hs], of "\<lambda>xs. xs ! i"] arg_cong [OF mdl_pages(2) [of hs], of "\<lambda>xs. xs ! i"] assms
  by (simp_all only: nth_map length_upt nth_upt diff_zero add_0)

lemma round_up_page: "(n + 4095) div 4096 = n div 4096 + (if 4096 dvd n then 0 else 1)" for n :: nat
proof (cases "4096 dvd n")
  case True
  then obtain k where "n = 4096 * k" by blast
  then show ?thesis by simp
next
  case False
  then obtain r where r: "n mod 4096 = Suc r" using not0_implies_Suc by (metis dvd_eq_mod_eq_0)
  moreover have "n mod 4096 < 4096" by simp
  ultimately have "r < 4096" by simp
  moreover have "n + 4095 = r + 4096 * (n div 4096 + 1)" using r mult_div_mod_eq [of 4096 n] by simp
  ultimately have "(n + 4095) div 4096 = n div 4096 + 1" by simp
  then show ?thesis using False by simp
qed

text \<open>The types of the nine descriptors the source lists, by name: each is a type the kernel knows, and they
  are not the ones that the comments beside the codes name for the first, third and fourth.\<close>

lemma type_map_types:
  "\<exists>ts. type_map = map type_code ts \<and> list_all (\<lambda>t. t < LoaderMemoryMax) ts \<and>
     take 4 ts = [LoaderBad, LoaderFree, LoaderSystemCode, LoaderHalCode]"
  by (rule exI [of _ "[LoaderBad, LoaderFree, LoaderSystemCode, LoaderHalCode, LoaderMemoryData, LoaderMemoryData, LoaderFree,
      LoaderMemoryData, LoaderFree]"]) (simp add: type_map_def less_TYPE_OF_MEMORY_def)

text \<open>Property C27: the descriptors read back from memory cover physical memory from page 0 to its end with no
  overlap, and with one page left out: the last page of the hive, when the hive does not fill it. The last
  descriptor calls the rest of memory free, and for a hive of up to 62 MB this includes the descriptor tables
  and the page tables the kernel runs on.\<close>

theorem memory_map_tiles:
  assumes "setup_descriptors hs vm = Ok vm'"
  shows "let f = (\<lambda>s i. unat (field64 (mem_ptr vm') (window (fst (md_node i))) MEMORY_ALLOCATION_DESCRIPTOR [s]));
      base = f ''BasePage''; pages = f ''PageCount''
    in base 0 = 0 \<and> (\<forall>i. i < 5 \<longrightarrow> base i + pages i = base (Suc i)) \<and>
       base 5 + pages 5 + (if 4096 dvd unat hs then 0 else 1) = base 6 \<and> base 6 + pages 6 = MEM_SIZE div 4096 \<and>
       type_map ! 6 = type_code LoaderFree \<and>
       (unat hs \<le> 0x3E00000 \<longrightarrow> base 6 * 4096 \<le> unat SYSTEM_BASE \<and> unat pml4_p < (base 6 + pages 6) * 4096)"
proof -
  let ?up = "(unat hs + 4095) div 4096"
  have m: "mem_ptr vm' = mdl_mem hs (mem_ptr vm)" using assms by (auto simp: setup_descriptors_mem)
  have up: "?up \<le> 0x100000"
  proof -
    have "unat hs < 4294967296" by simp
    then have "?up \<le> 4294971391 div 4096" by (intro div_le_mono) linarith
    then show ?thesis by simp
  qed
  have small: "?up \<le> 0x3E00" if "unat hs \<le> 0x3E00000"
  proof -
    have "?up \<le> (0x3E00000 + 4095) div 4096" using that by (intro div_le_mono) linarith
    then show ?thesis by simp
  qed
  have step: "[0, 1, 0x200, 0x2000, 0x4000, 0x4200, 0x4200 + ?up] ! i +
      [1, 0x1FF, 0x1E00, 0x2000, 0x200, unat hs div 4096, 0x200000 - (0x4200 + ?up)] ! i =
      [0, 1, 0x200, 0x2000, 0x4000, 0x4200, 0x4200 + ?up] ! Suc i" if i: "i < 5" for i
  proof -
    consider "i = 0" | "i = 1" | "i = 2" | "i = 3" | "i = 4" using i by linarith
    then show ?thesis by cases simp_all
  qed
  have l: "type_map ! 6 = type_code LoaderFree" by (simp add: type_map_def)
  have sm: "(0x4200 + ?up) * 4096 \<le> unat SYSTEM_BASE" if "unat hs \<le> 0x3E00000"
    using small [OF that] by (simp add: layout_defs)
  let ?f = "\<lambda>s i. unat (field64 (mem_ptr vm') (window (fst (md_node i))) MEMORY_ALLOCATION_DESCRIPTOR [s])"
  let ?B = "[0, 1, 0x200, 0x2000, 0x4000, 0x4200, 0x4200 + ?up]"
  let ?P = "[1, 0x1FF, 0x1E00, 0x2000, 0x200, unat hs div 4096, 0x200000 - (0x4200 + ?up)]"
  have b: "?f ''BasePage'' i = ?B ! i" and p: "?f ''PageCount'' i = ?P ! i" if "i < 7" for i
    using that by (simp_all only: m mdl_fields mdl_page)
  have "?f ''BasePage'' 0 = 0" by (simp add: b)
  moreover have "?f ''BasePage'' i + ?f ''PageCount'' i = ?f ''BasePage'' (Suc i)" if "i < 5" for i
    using step [OF that] that by (simp only: b p)
  moreover have "?f ''BasePage'' 5 + ?f ''PageCount'' 5 + (if 4096 dvd unat hs then 0 else 1) = ?f ''BasePage'' 6"
    by (simp add: b p round_up_page)
  moreover have e: "?f ''BasePage'' 6 + ?f ''PageCount'' 6 = MEM_SIZE div 4096"
    using up by (simp add: b p MEM_SIZE_def)
  moreover have "?f ''BasePage'' 6 * 4096 \<le> unat SYSTEM_BASE" if "unat hs \<le> 0x3E00000"
    using sm [OF that] by (simp add: b)
  moreover have "unat pml4_p < MEM_SIZE div 4096 * 4096"
    by (simp add: MEM_SIZE_def pml4_p_def paging_pbase_def layout_defs)
  ultimately show ?thesis unfolding Let_def using l by simp
qed

theorem memory_map_tiles_witness:
  "\<exists>vm'. setup_descriptors 0x1001 (plain_vm sregs0) = Ok vm' \<and>
     (let f = (\<lambda>s i. unat (field64 (mem_ptr vm') (window (fst (md_node i))) MEMORY_ALLOCATION_DESCRIPTOR [s]))
      in f ''BasePage'' 5 + f ''PageCount'' 5 + 1 = f ''BasePage'' 6)"
proof -
  obtain vm' where v: "setup_descriptors 0x1001 (plain_vm sregs0) = Ok vm'" by (simp add: setup_descriptors_mem)
  have "\<not> 4096 dvd unat (0x1001 :: u32)" by simp
  with memory_map_tiles [OF v] v show ?thesis unfolding Let_def by simp
qed

section \<open>Module lists\<close>

definition node_writes :: "(u64 \<times> u64) list \<Rightarrow> nat \<Rightarrow> (u64 \<times> u8 list) list" where
  "node_writes ns i =
     (let p = snd (ns ! i); n = length ns
      in [(p, le64 (if i = n - 1 then LPB_VBASE + 0x10 else fst (ns ! (i + 1)))),
          (p + 8, le64 (if i = 0 then LPB_VBASE + 0x10 else fst (ns ! (i - 1)))),
          (p + 0x10, le64 (if i = n - 1 then fst (hd ns) + 0x10 else fst (ns ! (i + 1)) + 0x10)),
          (p + 0x18, le64 (if i = 0 then fst (last ns) + 0x10 else fst (ns ! (i - 1)) + 0x10))])"

definition list_writes :: "(u64 \<times> u64) list \<Rightarrow> (u64 \<times> u8 list) list" where
  "list_writes ns =
     [(LPB_PBASE + 0x10, le64 (fst (hd ns))), (LPB_PBASE + 0x18, le64 (fst (last ns))),
      (LPB_PBASE + 0x30, le64 (LPB_VBASE + 0x30)), (LPB_PBASE + 0x38, le64 (LPB_VBASE + 0x30))] @
     concat (map (node_writes ns) [0..<length ns])"

lemma module_node_addr:
  assumes "i < 0x10000"
  shows "unat (snd (module_node i)) = 0x4040000 + 0x1000 * i" "window (fst (module_node i)) = 0x4040000 + 0x1000 * i"
    "fst (module_node i) = K_VIRT_ANY + snd (module_node i)"
proof -
  have o: "unat (of_nat i * 0x1000 :: u64) = 0x1000 * i"
    using assms by (simp add: unat_word_ariths unsigned_of_nat take_bit_nat_eq_self)
  show p: "unat (snd (module_node i)) = 0x4040000 + 0x1000 * i"
    using assms o by (simp add: module_node_def layout_defs near_addr)
  show k: "fst (module_node i) = K_VIRT_ANY + snd (module_node i)"
    by (simp add: module_node_def layout_defs)
  show "window (fst (module_node i)) = 0x4040000 + 0x1000 * i"
    by (simp add: window_def k p)
qed

lemma nth_module_nodes: "i < length ms \<Longrightarrow> module_nodes ms ! i = module_node i"
  by (simp add: module_nodes_def)

lemma length_module_nodes [simp]: "length (module_nodes ms) = length ms"
  by (simp add: module_nodes_def)

lemma node_writes_range:
  assumes "i < length ms" and "length ms \<le> 0x10000" and "(a, d) \<in> set (node_writes (module_nodes ms) i)"
  shows "0x4040000 + 0x1000 * i \<le> unat a \<and> unat a + length d \<le> 0x4040020 + 0x1000 * i"
  using assms module_node_addr(1) [of i]
  by (auto simp: node_writes_def Let_def nth_module_nodes near_addr)

lemma list_writes_cases:
  assumes "(a, d) \<in> set (list_writes (module_nodes ms))" and "length ms \<le> 0x10000"
  obtains (head) "unat a + length d \<le> 0x4000040"
  | (node) i where "i < length ms" "0x4040000 + 0x1000 * i \<le> unat a" "unat a + length d \<le> 0x4040020 + 0x1000 * i"
proof -
  consider "unat a + length d \<le> 0x4000040" | i where "i < length ms" "(a, d) \<in> set (node_writes (module_nodes ms) i)"
    using assms(1) by (auto simp: list_writes_def layout_defs)
  then show thesis
  proof cases
    case (2 i)
    then show ?thesis using node_writes_range [OF 2(1) assms(2) 2(2)] node by auto
  qed (rule head)
qed

lemma list_writes_range:
  "length ms \<le> 0x10000 \<Longrightarrow> (a, d) \<in> set (list_writes (module_nodes ms)) \<Longrightarrow> unat a + length d \<le> MEM_SIZE"
  by (erule list_writes_cases) (simp_all add: MEM_SIZE_def)

lemma four_links:
  "unat p + 0x20 \<le> MEM_SIZE \<Longrightarrow>
   bind_r (wr_ok p (le64 a) vm) (\<lambda>vm. bind_r (wr_ok (p + 8) (le64 b) vm) (\<lambda>vm.
     bind_r (wr_ok (p + 0x10) (le64 c) vm) (\<lambda>vm. wr_ok (p + 0x18) (le64 d) vm))) =
   for_r (\<lambda>(a, d) vm. write_memory vm a d) [(p, le64 a), (p + 8, le64 b), (p + 0x10, le64 c), (p + 0x18, le64 d)] vm"
  by (simp add: wr_ok_def write_memory_ok near_addr MEM_SIZE_def)

lemma link_node_writes:
  assumes "i < length ms" and "length ms \<le> 0x10000"
  shows "link_node (module_nodes ms) i vm = for_r (\<lambda>(a, d) vm. write_memory vm a d) (node_writes (module_nodes ms) i) vm"
proof -
  have "unat (snd (module_nodes ms ! i)) + 0x20 \<le> MEM_SIZE"
    using module_node_addr(1) [of i] assms by (simp add: nth_module_nodes MEM_SIZE_def)
  from four_links [OF this] show ?thesis
    unfolding link_node_def node_writes_def Let_def length_module_nodes .
qed

lemma link_modules_writes:
  fixes vm :: "'k vm"
  assumes "ms \<noteq> []" and "length ms \<le> 0x10000"
  shows "link_modules (module_nodes ms) vm = for_r (\<lambda>(a, d) vm. write_memory vm a d) (list_writes (module_nodes ms)) vm"
proof -
  have n: "module_nodes ms \<noteq> []" using assms(1) by (simp add: module_nodes_def)
  have l: "for_r (link_node (module_nodes ms)) [0..<length ms] s =
      for_r (\<lambda>i. for_r (\<lambda>(a, d) vm. write_memory vm a d) (node_writes (module_nodes ms) i)) [0..<length ms] s" for s :: "'k vm"
    using assms(2) by (intro for_r_cong) (simp add: link_node_writes)
  show ?thesis
    using n by (simp add: link_modules_def list_writes_def for_r_concat l wr_ok_def write_memory_ok layout_defs MEM_SIZE_def)
qed

lemma list_writes_separate:
  assumes "length ms \<le> 0x10000"
  shows "sorted_wrt separate (list_writes (module_nodes ms))"
proof -
  let ?ns = "module_nodes ms"
  have "sorted_wrt separate (node_writes ?ns i)" if "i < length ms" for i
    using that assms module_node_addr(1) [of i] by (simp add: node_writes_def Let_def nth_module_nodes near_addr)
  moreover have "separate x y" if "i < j" "j < length ms" "x \<in> set (node_writes ?ns i)" "y \<in> set (node_writes ?ns j)" for i j x y
    using node_writes_range [of i ms "fst x" "snd x"] node_writes_range [of j ms "fst y" "snd y"] that assms
    by (cases x; cases y) auto
  ultimately have c: "sorted_wrt separate (concat (map (node_writes ?ns) [0..<length ms]))"
    by (rule sorted_wrt_concat_upt)
  have "separate (a, d) y" if "unat a + length d \<le> 0x4000040" "y \<in> set (concat (map (node_writes ?ns) [0..<length ms]))" for a d y
    using node_writes_range [of _ ms "fst y" "snd y"] that assms by (cases y) fastforce
  then show ?thesis using c by (simp add: list_writes_def sorted_wrt_append layout_defs)
qed


lemma link_modules_done:
  fixes vm :: "'k vm"
  assumes "ms \<noteq> []" and "length ms \<le> 0x10000"
  shows "\<exists>vm'. link_modules (module_nodes ms) vm = Ok vm' \<and>
     (\<forall>a v. (a, le64 v) \<in> set (list_writes (module_nodes ms)) \<longrightarrow> q64 (mem_ptr vm') (unat a) = v)"
proof -
  obtain vm' where v: "for_r (\<lambda>(a, d) (vm :: 'k vm). write_memory vm a d) (list_writes (module_nodes ms)) vm = Ok vm'"
    using guest.batch_in_bounds list_writes_range [OF assms(2)] by blast
  have "q64 (mem_ptr vm') (unat a) = w" if "(a, le64 w) \<in> set (list_writes (module_nodes ms))" for a w
    using guest.batch_reads_back [OF v list_writes_separate [OF assms(2)] that] by (intro q64_read) simp
  then show ?thesis unfolding link_modules_writes [OF assms] using v by blast
qed

definition load_ring :: "nat \<Rightarrow> u64 list" where
  "load_ring n = (LPB_VBASE + 0x10) # map (\<lambda>i. fst (module_node i)) [0..<n]"

definition memory_ring :: "nat \<Rightarrow> u64 list" where
  "memory_ring n = map (\<lambda>i. fst (module_node i) + 0x10) [0..<n]"

lemma node_links:
  fixes m :: "nat \<Rightarrow> u8"
  assumes w: "\<And>a v. (a, le64 v) \<in> set (list_writes (module_nodes ms)) \<Longrightarrow> q64 m (unat a) = v"
    and n: "length ms \<le> 0x10000" and i: "i < length ms"
  shows "q64 m (0x4040000 + 0x1000 * i) = (if Suc i = length ms then LPB_VBASE + 0x10 else fst (module_node (Suc i)))"
    and "q64 m (0x4040008 + 0x1000 * i) = (if i = 0 then LPB_VBASE + 0x10 else fst (module_node (i - 1)))"
    and "q64 m (0x4040010 + 0x1000 * i) = (if Suc i = length ms then fst (module_node 0) else fst (module_node (Suc i))) + 0x10"
    and "q64 m (0x4040018 + 0x1000 * i) = (if i = 0 then fst (module_node (length ms - 1)) else fst (module_node (i - 1))) + 0x10"
proof -
  let ?p = "snd (module_node i)"
  have u: "unat ?p = 0x4040000 + 0x1000 * i" using module_node_addr(1) [of i] n i by simp
  have ne: "module_nodes ms \<noteq> []" using i by (auto simp: module_nodes_def)
  have e: "hd (module_nodes ms) = module_node 0" "last (module_nodes ms) = module_node (length ms - 1)"
    using i ne nth_module_nodes [of 0 ms] by (cases ms; auto simp: hd_conv_nth last_conv_nth nth_module_nodes)+
  have sub: "set (node_writes (module_nodes ms) i) \<subseteq> set (list_writes (module_nodes ms))"
    using i by (auto simp: list_writes_def)
  have nx: "module_nodes ms ! (i + 1) = module_node (Suc i)" if "Suc i \<noteq> length ms"
    using that i by (simp add: nth_module_nodes)
  have pv: "module_nodes ms ! (i - 1) = module_node (i - 1)" using i by (simp add: nth_module_nodes)
  have k: "(i = length ms - 1) = (Suc i = length ms)" using i by auto
  have el: "(?p, le64 (if Suc i = length ms then LPB_VBASE + 0x10 else fst (module_node (Suc i)))) \<in> set (node_writes (module_nodes ms) i)"
    "(?p + 8, le64 (if i = 0 then LPB_VBASE + 0x10 else fst (module_node (i - 1)))) \<in> set (node_writes (module_nodes ms) i)"
    "(?p + 0x10, le64 ((if Suc i = length ms then fst (module_node 0) else fst (module_node (Suc i))) + 0x10)) \<in> set (node_writes (module_nodes ms) i)"
    "(?p + 0x18, le64 ((if i = 0 then fst (module_node (length ms - 1)) else fst (module_node (i - 1))) + 0x10)) \<in> set (node_writes (module_nodes ms) i)"
    unfolding node_writes_def Let_def length_module_nodes k using i nx by (simp_all add: nth_module_nodes pv e)
  show "q64 m (0x4040000 + 0x1000 * i) = (if Suc i = length ms then LPB_VBASE + 0x10 else fst (module_node (Suc i)))"
    "q64 m (0x4040008 + 0x1000 * i) = (if i = 0 then LPB_VBASE + 0x10 else fst (module_node (i - 1)))"
    "q64 m (0x4040010 + 0x1000 * i) = (if Suc i = length ms then fst (module_node 0) else fst (module_node (Suc i))) + 0x10"
    "q64 m (0x4040018 + 0x1000 * i) = (if i = 0 then fst (module_node (length ms - 1)) else fst (module_node (i - 1))) + 0x10"
    using w [OF subsetD [OF sub el(1)]] w [OF subsetD [OF sub el(2)]] w [OF subsetD [OF sub el(3)]] w [OF subsetD [OF sub el(4)]] u n i
    by (simp_all add: near_addr add.commute)
qed


lemma head_links:
  fixes m :: "nat \<Rightarrow> u8"
  assumes w: "\<And>a v. (a, le64 v) \<in> set (list_writes (module_nodes ms)) \<Longrightarrow> q64 m (unat a) = v"
    and ne: "ms \<noteq> []"
  shows "q64 m 0x4000010 = fst (module_node 0)" "q64 m 0x4000018 = fst (module_node (length ms - 1))"
    "q64 m 0x4000030 = LPB_VBASE + 0x30" "q64 m 0x4000038 = LPB_VBASE + 0x30"
proof -
  have e: "hd (module_nodes ms) = module_node 0" "last (module_nodes ms) = module_node (length ms - 1)"
    using ne by (auto simp: hd_conv_nth last_conv_nth nth_module_nodes module_nodes_def)
  show "q64 m 0x4000010 = fst (module_node 0)" "q64 m 0x4000018 = fst (module_node (length ms - 1))"
    "q64 m 0x4000030 = LPB_VBASE + 0x30" "q64 m 0x4000038 = LPB_VBASE + 0x30"
    using w [of "LPB_PBASE + 0x10" "fst (module_node 0)"] w [of "LPB_PBASE + 0x18" "fst (module_node (length ms - 1))"]
      w [of "LPB_PBASE + 0x30" "LPB_VBASE + 0x30"] w [of "LPB_PBASE + 0x38" "LPB_VBASE + 0x30"]
    by (simp_all add: list_writes_def e layout_defs)
qed

lemma load_order_ring:
  assumes w: "\<And>a v. (a, le64 v) \<in> set (list_writes (module_nodes ms)) \<Longrightarrow> q64 m (unat a) = v"
    and n: "length ms \<le> 0x10000" and ne: "ms \<noteq> []"
  shows "linked_ring (flink m) (blink m) (load_ring (length ms))"
proof (rule memory_ringI)
  note links = node_links [OF w n] and heads = head_links [OF w ne]
  have h: "window (LPB_VBASE + 0x10) = 0x4000010" by (simp add: window_def layout_defs)
  have l: "length (load_ring (length ms)) = Suc (length ms)" by (simp add: load_ring_def)
  have last: "last (load_ring (length ms)) = fst (module_node (length ms - 1))"
    using ne by (simp add: load_ring_def last_map)
  have wd: "window (fst (module_node i)) = 0x4040000 + 0x1000 * i" if "i < length ms" for i
    using module_node_addr(2) [of i] that n by simp
  fix i assume i: "Suc i < length (load_ring (length ms))"
  show "q64 m (window (load_ring (length ms) ! i)) = load_ring (length ms) ! Suc i \<and>
      q64 m (window (load_ring (length ms) ! Suc i) + 8) = load_ring (length ms) ! i"
  proof (cases i)
    case 0
    then show ?thesis using links(2) [of 0] heads(1) i wd [of 0] by (simp add: load_ring_def h)
  next
    case (Suc k)
    then show ?thesis using links(1) [of k] links(2) [of "Suc k"] i wd [of k] wd [of "Suc k"] by (simp add: load_ring_def)
  qed
next
  have "length ms - 1 < length ms" using ne by simp
  then show "q64 m (window (last (load_ring (length ms)))) = hd (load_ring (length ms))"
    using node_links(1) [OF w n, of "length ms - 1"] module_node_addr(2) [of "length ms - 1"] n ne
    by (simp add: load_ring_def last_map)
  show "q64 m (window (hd (load_ring (length ms))) + 8) = last (load_ring (length ms))"
    using head_links(2) [OF w ne] ne by (simp add: load_ring_def last_map window_def layout_defs)
qed (simp add: load_ring_def)

lemma memory_order_ring:
  assumes w: "\<And>a v. (a, le64 v) \<in> set (list_writes (module_nodes ms)) \<Longrightarrow> q64 m (unat a) = v"
    and n: "length ms \<le> 0x10000" and ne: "ms \<noteq> []"
  shows "linked_ring (flink m) (blink m) (memory_ring (length ms))"
proof (rule memory_ringI)
  have wd: "window (fst (module_node i) + 0x10) = 0x4040010 + 0x1000 * i" if "i < length ms" for i
  proof -
    have "fst (module_node i) + 0x10 - K_VIRT_ANY = snd (module_node i) + 0x10"
      by (simp add: module_node_def layout_defs)
    then have "window (fst (module_node i) + 0x10) = unat (snd (module_node i) + 0x10)" by (simp only: window_def)
    then show ?thesis using module_node_addr(1) [of i] that n by (simp add: near_addr)
  qed
  show "q64 m (window (memory_ring (length ms) ! i)) = memory_ring (length ms) ! Suc i \<and>
      q64 m (window (memory_ring (length ms) ! Suc i) + 8) = memory_ring (length ms) ! i"
    if "Suc i < length (memory_ring (length ms))" for i
    using that node_links(3) [OF w n, of i] node_links(4) [OF w n, of "Suc i"] by (simp add: memory_ring_def wd)
  have "length ms - 1 < length ms" using ne by simp
  then show "q64 m (window (last (memory_ring (length ms)))) = hd (memory_ring (length ms))"
      "q64 m (window (hd (memory_ring (length ms))) + 8) = last (memory_ring (length ms))"
    using node_links(3) [OF w n, of "length ms - 1"] node_links(4) [OF w n, of 0] wd [of "length ms - 1"] wd [of 0] ne
    by (simp_all add: memory_ring_def last_map hd_map)
qed (use ne in \<open>simp add: memory_ring_def\<close>)

text \<open>The page of the module entry \<open>i\<close>, and its part that holds the entry's own data.\<close>

definition entry_data :: "nat \<Rightarrow> nat set" where
  "entry_data i = {0x4040030 + 0x1000 * i..<0x4041000 + 0x1000 * i}"

definition entry_at :: "(nat \<Rightarrow> u8) \<Rightarrow> nat \<Rightarrow> loaded_module \<Rightarrow> bool" where
  "entry_at m i md \<longleftrightarrow>
     (let a = 0x4040000 + 0x1000 * i; nb = name_bytes (mod_name md)
      in load m (a + 0x30) 8 = le64 (v_base md) \<and> load m (a + 0x38) 8 = le64 (mod_entry md) \<and>
         load m (a + 0x40) 4 = le32 (mod_size md) \<and> load m (a + 0x58) 2 = le16 (of_nat (length nb)) \<and>
         load m (a + 0x60) 8 = le64 (fst (module_node i) + 0x150) \<and> load m (a + 0x150) (length nb) = nb)"

lemma load_cong_data:
  "\<lbrakk>\<And>b. b \<in> entry_data i \<Longrightarrow> m' b = m b; 0x4040030 + 0x1000 * i \<le> a; a + n \<le> 0x4041000 + 0x1000 * i\<rbrakk> \<Longrightarrow>
   load m' a n = load m a n"
  by (rule load_cong) (auto simp: entry_data_def)

lemma entry_at_frame:
  "\<lbrakk>entry_at m i md; \<And>b. b \<in> entry_data i \<Longrightarrow> m' b = m b; length (name_bytes (mod_name md)) \<le> 0xEB0\<rbrakk> \<Longrightarrow>
   entry_at m' i md"
  by (simp add: entry_at_def Let_def load_cong_data [of i m' m])

definition fits :: "loaded_module \<Rightarrow> bool" where
  "fits md \<longleftrightarrow> unat (v_base md) + unat (mod_size md) < 2 ^ 64 \<and> length (name_bytes (mod_name md)) \<le> 0xEB0"

lemma register_module_entry:
  assumes "i < 0x10000" and "fits md"
  shows "\<exists>vm'. register_module (i, md) vm = Ok vm' \<and> entry_at (mem_ptr vm') i md \<and>
    (\<forall>b. b < 0x4040000 + 0x1000 * i \<or> 0x4041000 + 0x1000 * i \<le> b \<longrightarrow> mem_ptr vm' b = mem_ptr vm b)"
proof -
  obtain nv np where nd: "module_node i = (nv, np)" by (cases "module_node i")
  let ?nb = "name_bytes (mod_name md)"
  have np: "unat np = 0x4040000 + 0x1000 * i" using module_node_addr(1) [OF assms(1)] nd by simp
  have "nv = K_VIRT_ANY + np" using module_node_addr(3) [OF assms(1)] nd by simp
  then have nv: "unat nv = 0xFFFFF80000000000 + unat np"
    using np assms(1) by (simp add: layout_defs near_addr)
  have len: "length ?nb \<le> 0xEB0" using assms(2) by (simp add: fits_def)
  have ov: "\<exists>x. add_chk (v_base md) (ucast (mod_size md)) = Ok x"
    using assms(2) by (simp add: fits_def add_chk_def unat_ucast_up)
  let ?img = "ldr_image (v_base md) (mod_entry md) (mod_size md) (of_nat (length ?nb)) (of_nat (length ?nb) + 2) (nv + 0x150)"
  let ?m = "store (store (mem_ptr vm) (unat np) ?img) (unat np + 0x150) ?nb"
  have r: "register_module (i, md) vm = Ok (vm\<lparr>mem_ptr := ?m\<rparr>)"
    using ov len np nv assms(1)
    by (auto simp: register_module_def nd add_module_mem MEM_SIZE_def)
  have f: "load ?m (unat np + k) n = peek ?img k n" if "k + n \<le> 0x120" for k n
    using that len by (simp add: load_store_other load_store_peek ldr_image_fields)
  have "entry_at ?m i md"
    using f [of "0x30" 8] f [of "0x38" 8] f [of "0x40" 4] f [of "0x58" 2] f [of "0x60" 8]
    by (simp add: entry_at_def Let_def nd ldr_image_fields np [symmetric] load_store_same)
  moreover have "?m b = mem_ptr vm b" if "b < 0x4040000 + 0x1000 * i \<or> 0x4041000 + 0x1000 * i \<le> b" for b
    using that len np by (auto simp: store_def ldr_image_fields)
  ultimately show ?thesis using r by auto
qed


lemma register_modules_entries:
  "\<lbrakk>k + length ms \<le> 0x10000; list_all fits ms\<rbrakk> \<Longrightarrow>
   \<exists>vm'. for_r register_module (enumerate k ms) vm = Ok vm' \<and>
     (\<forall>j. j < length ms \<longrightarrow> entry_at (mem_ptr vm') (k + j) (ms ! j)) \<and>
     (\<forall>b. b < 0x4040000 + 0x1000 * k \<or> 0x4040000 + 0x1000 * (k + length ms) \<le> b \<longrightarrow> mem_ptr vm' b = mem_ptr vm b)"
proof (induction ms arbitrary: k vm)
  case (Cons md ms)
  obtain vm1 where 1: "register_module (k, md) vm = Ok vm1" "entry_at (mem_ptr vm1) k md"
    "\<forall>b. b < 0x4040000 + 0x1000 * k \<or> 0x4041000 + 0x1000 * k \<le> b \<longrightarrow> mem_ptr vm1 b = mem_ptr vm b"
    using register_module_entry [of k md vm] Cons.prems by auto
  obtain vm2 where 2: "for_r register_module (enumerate (Suc k) ms) vm1 = Ok vm2"
    "\<forall>j. j < length ms \<longrightarrow> entry_at (mem_ptr vm2) (Suc k + j) (ms ! j)"
    "\<forall>b. b < 0x4040000 + 0x1000 * Suc k \<or> 0x4040000 + 0x1000 * (Suc k + length ms) \<le> b \<longrightarrow> mem_ptr vm2 b = mem_ptr vm1 b"
    using Cons.IH [of "Suc k" vm1] Cons.prems by auto
  have "entry_at (mem_ptr vm2) k md"
    using 1(2) by (rule entry_at_frame) (use 2(3) Cons.prems in \<open>auto simp: entry_data_def fits_def\<close>)
  then have "entry_at (mem_ptr vm2) (k + j) ((md # ms) ! j)" if "j < length (md # ms)" for j
    using that 2(2) by (cases j) auto
  then show ?case using 1 2 by auto
qed simp

lemma link_modules_frame:
  assumes "link_modules (module_nodes ms) vm = Ok vm'" and "ms \<noteq> []" and "length ms \<le> 0x10000"
    and "i < length ms" and "b \<in> entry_data i"
  shows "mem_ptr vm' b = mem_ptr vm b"
proof -
  have "b < unat a \<or> unat a + length d \<le> b" if "(a, d) \<in> set (list_writes (module_nodes ms))" for a d
    using that assms(3)
  proof (cases rule: list_writes_cases)
    case (node j)
    have "j = i \<or> j < i \<or> i < j" by linarith
    then show ?thesis using node assms(5) by (auto simp: entry_data_def)
  qed (use assms(5) in \<open>simp add: entry_data_def\<close>)
  then show ?thesis using batch_frame [OF assms(1) [unfolded link_modules_writes [OF assms(2,3)]]] by blast
qed

lemma hal_nodes_in: "x \<in> set (hal_ext_nodes U ms) \<Longrightarrow> \<exists>i. i < length ms \<and> x = module_node i"
  by (auto simp: hal_ext_nodes_def in_set_enumerate_eq)

text \<open>The bytes that linking the HAL extensions leaves alone: all but the head of the list and the third
  pair of links of the first \<open>N\<close> entries.\<close>

definition hal_free :: "nat \<Rightarrow> nat \<Rightarrow> bool" where
  "hal_free N b \<longleftrightarrow> (b < 0x4008A18 \<or> 0x4008A28 \<le> b) \<and>
     (\<forall>j<N. b < 0x4040020 + 0x1000 * j \<or> 0x4040030 + 0x1000 * j \<le> b)"

lemma hal_free_data: "b \<in> entry_data k \<Longrightarrow> hal_free N b"
proof -
  assume b: "b \<in> entry_data k"
  have "b < 0x4040020 + 0x1000 * j \<or> 0x4040030 + 0x1000 * j \<le> b" for j
  proof -
    have "j = k \<or> j < k \<or> k < j" by linarith
    then show ?thesis using b by (auto simp: entry_data_def)
  qed
  then show ?thesis using b by (simp add: hal_free_def entry_data_def)
qed

lemma link_hal_ext_node_frame:
  assumes "i < length ns" and "\<And>x. x \<in> set ns \<Longrightarrow> \<exists>j. j < N \<and> x = module_node j" and "N \<le> 0x10000"
  shows "\<exists>vm'. link_hal_ext_node ns i vm = Ok vm' \<and> (\<forall>b. hal_free N b \<longrightarrow> mem_ptr vm' b = mem_ptr vm b)"
proof -
  obtain j where j: "j < N" "ns ! i = module_node j" using assms(2) [of "ns ! i"] assms(1) by auto
  then have j': "j < 0x10000" using assms(3) by simp
  let ?p = "snd (ns ! i) + 0x20"
  have p: "unat ?p = 0x4040020 + 0x1000 * j" "unat (?p + 8) = 0x4040028 + 0x1000 * j"
    using module_node_addr(1) [OF j'] j j' by (simp_all add: near_addr)
  obtain n v where e: "link_hal_ext_node ns i vm = bind_r (wr_ok ?p (le64 n) vm) (wr_ok (?p + 8) (le64 v))"
    by (simp add: link_hal_ext_node_def Let_def)
  obtain vm1 where 1: "wr_ok ?p (le64 n) vm = Ok vm1" using wr_ok_total [of ?p "le64 n" vm] p j' by auto
  obtain vm2 where 2: "wr_ok (?p + 8) (le64 v) vm1 = Ok vm2" using wr_ok_total [of "?p + 8" "le64 v" vm1] p j' by auto
  have "mem_ptr vm2 b = mem_ptr vm b" if "hal_free N b" for b
  proof -
    have "b < unat ?p \<or> unat ?p + 16 \<le> b" using that p(1) j by (auto simp: hal_free_def)
    then show ?thesis using wr_ok_frame [OF 1, of b] wr_ok_frame [OF 2, of b] p by auto
  qed
  then show ?thesis using e 1 2 by auto
qed

lemma link_hal_ext_frame:
  assumes "\<And>x. x \<in> set ns \<Longrightarrow> \<exists>j. j < N \<and> x = module_node j" and "N \<le> 0x10000"
  shows "\<exists>vm'. link_hal_ext ns vm = Ok vm' \<and> (\<forall>b. hal_free N b \<longrightarrow> mem_ptr vm' b = mem_ptr vm b)"
proof (cases "ns = []")
  case False
  let ?h = "ext_p + 0xA18"
  have h: "unat ?h = 0x4008A18" "unat (?h + 8) = 0x4008A20" by (simp_all add: ext_p_def OFFSET_IN_LPB_def layout_defs)
  obtain vm1 where 1: "wr_ok ?h (le64 (fst (hd ns) + 0x20)) vm = Ok vm1"
    using wr_ok_total [of ?h _ vm] h by fastforce
  obtain vm2 where 2: "wr_ok (?h + 8) (le64 (fst (last ns) + 0x20)) vm1 = Ok vm2"
    using wr_ok_total [of "?h + 8" _ vm1] h by fastforce
  have node: "\<exists>s'. link_hal_ext_node ns i s = Ok s' \<and> (\<forall>b. hal_free N b \<longrightarrow> mem_ptr s' b = mem_ptr s b)"
    if "i \<in> set [0..<length ns]" for i and s :: "'a vm"
    using that by (intro link_hal_ext_node_frame assms) auto
  obtain vm3 where 3: "for_r (link_hal_ext_node ns) [0..<length ns] vm2 = Ok vm3"
    using for_r_total [of "[0..<length ns]" "link_hal_ext_node ns" vm2] node by blast
  have "\<forall>b. hal_free N b \<longrightarrow> mem_ptr vm3 b = mem_ptr vm2 b"
  proof (rule for_r_invariant [OF 3, where P = "\<lambda>s. \<forall>b. hal_free N b \<longrightarrow> mem_ptr s b = mem_ptr vm2 b"])
    fix i and s s' :: "'a vm"
    assume "i \<in> set [0..<length ns]" "link_hal_ext_node ns i s = Ok s'" "\<forall>b. hal_free N b \<longrightarrow> mem_ptr s b = mem_ptr vm2 b"
    then show "\<forall>b. hal_free N b \<longrightarrow> mem_ptr s' b = mem_ptr vm2 b" using node [of i s] by auto
  qed simp
  moreover have "mem_ptr vm2 b = mem_ptr vm b" if "hal_free N b" for b
    using that wr_ok_frame [OF 1, of b] wr_ok_frame [OF 2, of b] h by (auto simp: hal_free_def)
  ultimately show ?thesis using False 1 2 3 by (auto simp: link_hal_ext_def)
qed (simp add: link_hal_ext_def)

lemma link_hal_ext_modules:
  assumes "length ms \<le> 0x10000"
  shows "\<exists>vm'. link_hal_ext (hal_ext_nodes U ms) vm = Ok vm' \<and>
    (\<forall>b. hal_free (length ms) b \<longrightarrow> mem_ptr vm' b = mem_ptr vm b)"
  using hal_nodes_in [of _ U ms] assms by (intro link_hal_ext_frame) auto

text \<open>What the kernel reads in the module entry at a virtual address.\<close>

definition ldr_entry :: "(nat \<Rightarrow> u8) \<Rightarrow> u64 \<Rightarrow> u64 \<times> u64 \<times> u32 \<times> rstring" where
  "ldr_entry m v =
     (let f = field64 m (window v) LDR_DATA_TABLE_ENTRY
      in (f [''DllBase''], f [''EntryPoint''], field32 m (window v) LDR_DATA_TABLE_ENTRY [''SizeOfImage''],
          decode_utf16 (u16s (load m (window (f [''BaseDllName'', ''Buffer'']))
            (unat (field16 m (window v) LDR_DATA_TABLE_ENTRY [''BaseDllName'', ''Length'']))))))"

lemma entry_at_ldr:
  assumes "entry_at m i md" and "i < 0x10000" and "fits md" and "list_all scalar (mod_name md)"
  shows "ldr_entry m (fst (module_node i)) = (v_base md, mod_entry md, mod_size md, mod_name md)"
proof -
  have b: "fst (module_node i) + 0x150 - K_VIRT_ANY = snd (module_node i) + 0x150"
    using module_node_addr(3) [OF assms(2)] by simp
  have "window (fst (module_node i) + 0x150) = unat (snd (module_node i) + 0x150)" by (simp only: window_def b)
  then have w: "window (fst (module_node i) + 0x150) = 0x4040150 + 0x1000 * i"
    using module_node_addr(1) [OF assms(2)] assms(2) by (simp add: near_addr)
  let ?nb = "name_bytes (mod_name md)"
  have "unat (of_nat (length ?nb) :: u16) = length ?nb"
    using assms(3) by (simp add: fits_def unsigned_of_nat take_bit_nat_eq_self)
  moreover have "decode_utf16 (u16s ?nb) = mod_name md"
    using assms(4) by (simp add: name_bytes_def u16s_le16 decode_encode_utf16)
  ultimately show ?thesis
    using assms(1) w module_node_addr(2) [OF assms(2)]
    by (simp add: entry_at_def ldr_entry_def Let_def field_defs ldr_layout)
qed

text \<open>Property C8: the kernel finds every loaded module. Registering the modules and linking the lists
  succeeds, and walking the load-order list from its head in the loader block yields, entry by entry, the
  base, the entry point, the size and the name of each module in the order they were loaded, then the
  head again; the backward links undo the forward ones, and the memory-order links pass through the
  same entries in the same order and close.\<close>

theorem load_order_list:
  assumes "ms \<noteq> []" and "length ms \<le> 0x10000" and "list_all fits ms" and "list_all (\<lambda>md. list_all scalar (mod_name md)) ms"
  shows "\<exists>vm'. bind_r (register_modules ms vm) (\<lambda>vm. bind_r (link_hal_ext (hal_ext_nodes U ms) vm) (link_modules (module_nodes ms))) = Ok vm' \<and>
    (let m = mem_ptr vm'; n = length ms; head = LPB_VBASE + 0x10; node = (\<lambda>i. fst (module_node i))
     in map (\<lambda>k. ldr_entry m ((flink m ^^ Suc k) head)) [0..<n] =
          map (\<lambda>md. (v_base md, mod_entry md, mod_size md, mod_name md)) ms \<and>
        (flink m ^^ Suc n) head = head \<and>
        (\<forall>x. x = head \<or> x \<in> node ` {..<n} \<longrightarrow> blink m (flink m x) = x) \<and>
        map (\<lambda>k. (flink m ^^ k) (node 0 + 0x10)) [0..<n] = map (\<lambda>i. node i + 0x10) [0..<n] \<and>
        (flink m ^^ n) (node 0 + 0x10) = node 0 + 0x10)"
proof -
  obtain vm1 where 1: "register_modules ms vm = Ok vm1" "\<forall>j. j < length ms \<longrightarrow> entry_at (mem_ptr vm1) j (ms ! j)"
    using register_modules_entries [of 0 ms vm] assms(2,3) by (auto simp: register_modules_def)
  obtain vm2 where 2: "link_hal_ext (hal_ext_nodes U ms) vm1 = Ok vm2"
    "\<forall>k b. b \<in> entry_data k \<longrightarrow> mem_ptr vm2 b = mem_ptr vm1 b"
    using link_hal_ext_modules [OF assms(2), of U vm1] hal_free_data by blast
  obtain vm3 where 3: "link_modules (module_nodes ms) vm2 = Ok vm3"
    and w: "\<And>a v. (a, le64 v) \<in> set (list_writes (module_nodes ms)) \<Longrightarrow> q64 (mem_ptr vm3) (unat a) = v"
    using link_modules_done [OF assms(1,2), of vm2] by auto
  let ?m = "mem_ptr vm3" and ?head = "LPB_VBASE + 0x10"
  have entry: "ldr_entry ?m (fst (module_node j)) =
      (v_base (ms ! j), mod_entry (ms ! j), mod_size (ms ! j), mod_name (ms ! j))" if j: "j < length ms" for j
  proof -
    have f: "fits (ms ! j)" "list_all scalar (mod_name (ms ! j))" using assms(3,4) j by (simp_all add: list_all_length)
    have "entry_at ?m j (ms ! j)"
      using 1(2) [rule_format, OF j]
      by (rule entry_at_frame) (use 2(2) link_modules_frame [OF 3 assms(1,2) j] f in \<open>auto simp: fits_def\<close>)
    then show ?thesis using entry_at_ldr f j assms(2) by simp
  qed
  note load = load_order_ring [OF w assms(2,1)] and mem = memory_order_ring [OF w assms(2,1)]
  have step: "(flink ?m ^^ Suc k) ?head = fst (module_node k)" if "k < length ms" for k
    using linked_ring.next_pow [OF load, of 0 "Suc k"] that by (simp add: load_ring_def del: funpow.simps)
  have "(flink ?m ^^ Suc (length ms)) ?head = ?head"
    using linked_ring.walk_returns [OF load] by (simp add: load_ring_def del: funpow.simps)
  moreover have "map (\<lambda>k. ldr_entry ?m ((flink ?m ^^ Suc k) ?head)) [0..<length ms] =
      map (\<lambda>md. (v_base md, mod_entry md, mod_size md, mod_name md)) ms"
    by (rule nth_equalityI) (simp_all add: step entry del: funpow.simps)
  moreover have "blink ?m (flink ?m x) = x" if "x = ?head \<or> x \<in> (\<lambda>i. fst (module_node i)) ` {..<length ms}" for x
    using that by (intro linked_ring.prev_next [OF load]) (auto simp: load_ring_def)
  moreover have "hd (memory_ring (length ms)) = fst (module_node 0) + 0x10" "length (memory_ring (length ms)) = length ms"
    using assms(1) by (simp_all add: memory_ring_def hd_map)
  ultimately show ?thesis
    using 1(1) 2(1) 3 linked_ring.walk [OF mem] linked_ring.walk_returns [OF mem]
    unfolding Let_def by (simp add: memory_ring_def del: funpow.simps)
qed

theorem load_order_list_witness:
  "\<exists>vm'. bind_r (register_modules [nt_module fwd_KeA] (plain_vm sregs0)) (\<lambda>vm.
       bind_r (link_hal_ext (hal_ext_nodes no_unicode [nt_module fwd_KeA]) vm) (link_modules (module_nodes [nt_module fwd_KeA]))) = Ok vm' \<and>
     ldr_entry (mem_ptr vm') (flink (mem_ptr vm') 0xFFFFF80004000010) =
       (0xFFFFF80000000000, 0xFFFFF80000001090, 0x10A0, lit ''nt.exe'')"
proof -
  let ?ms = "[nt_module fwd_KeA]"
  have "length (name_bytes (lit ''nt.exe'')) \<le> 0xEB0" "list_all scalar (lit ''nt.exe'')"
    by (simp_all add: lit_def length_name_bytes encode_utf16_def utf16_units_def scalar_def)
  then have "list_all fits ?ms" "list_all (\<lambda>md. list_all scalar (mod_name md)) ?ms"
    by (simp_all add: nt_module_def fits_def)
  from load_order_list [OF _ _ this, of "plain_vm sregs0" no_unicode] obtain vm' where
    "bind_r (register_modules ?ms (plain_vm sregs0)) (\<lambda>vm.
       bind_r (link_hal_ext (hal_ext_nodes no_unicode ?ms) vm) (link_modules (module_nodes ?ms))) = Ok vm'"
    "map (\<lambda>k. ldr_entry (mem_ptr vm') ((flink (mem_ptr vm') ^^ Suc k) (LPB_VBASE + 0x10))) [0..<length ?ms] =
       map (\<lambda>md. (v_base md, mod_entry md, mod_size md, mod_name md)) ?ms"
    unfolding Let_def by auto
  then show ?thesis by (auto simp: layout_defs nt_module_def)
qed

end
