(* ===== verification/BootBlocks.thy ===== *)
theory BootBlocks
  imports BootLists
begin

unbundle bit_operations_syntax

text \<open>
  Two results about what \<open>main\<close> (\<open>src/main.rs\<close>) leaves in guest memory: the upper-case table of
  \<open>generate_windows_upcase_table\<close>, and the chain of the processor, loader and extension blocks with the
  ACPI tables behind them, as written by the calls of \<open>setup_blocks\<close>.
\<close>

section \<open>The upper-case table\<close>

lemma upcase_nat:
  assumes "i < 65536"
  shows "unat (upcase i) =
    (if 0x61 \<le> i \<and> i \<le> 0x7A then i - 0x20
     else if 0xE0 \<le> i \<and> i \<le> 0xFE \<and> i \<noteq> 0xF7 then i - 0x20
     else if 0x100 \<le> i \<and> i \<le> 0x12E \<and> odd i then i - 1
     else if 0x132 \<le> i \<and> i \<le> 0x148 \<and> odd i then i - 1 else i)"
proof -
  define c where "c = (of_nat i :: u32)"
  have c: "unat c = i" using assms by (simp add: c_def unsigned_of_nat take_bit_nat_eq_self)
  have "unat (c mod 2) = i mod 2" using c by (simp add: unat_mod)
  then have odd: "(c mod 2 = 0) = even i" "(c mod 2 = 1) = odd i"
    by (simp_all add: word_unat_eq_iff even_iff_mod_2_eq_zero odd_iff_mod_2_eq_one)
  have sub: "unat (ucast (c - d) :: u16) = i - unat d" if "unat d \<le> i" for d :: u32
  proof -
    have "unat (c - d) = i - unat d" using that c by (simp add: unat_sub word_le_nat_alt)
    then show ?thesis using assms by (simp add: unsigned_ucast_eq take_bit_nat_eq_self)
  qed
  have id: "unat (ucast c :: u16) = i" using assms c by (simp add: unsigned_ucast_eq take_bit_nat_eq_self)
  show ?thesis
    using sub [of "0x20"] sub [of 1] unfolding upcase_def Let_def c_def [symmetric]
    by (simp add: word_le_nat_alt word_unat_eq_iff [of c] c odd id)
qed

lemma upcase_idem: "i < 65536 \<Longrightarrow> upcase (unat (upcase i)) = upcase i"
proof -
  assume i: "i < 65536"
  let ?u = "unat (upcase i)"
  note u = upcase_nat [OF i]
  have l: "?u < 65536" by simp
  have "\<not> (0x61 \<le> ?u \<and> ?u \<le> 0x7A)" "\<not> (0xE0 \<le> ?u \<and> ?u \<le> 0xFE \<and> ?u \<noteq> 0xF7)"
    unfolding u using i by auto
  moreover have "\<not> (0x100 \<le> ?u \<and> ?u \<le> 0x12E \<and> odd ?u)" "\<not> (0x132 \<le> ?u \<and> ?u \<le> 0x148 \<and> odd ?u)"
    unfolding u by (auto simp: even_diff_nat)
  ultimately have "unat (upcase ?u) = ?u" unfolding upcase_nat [OF l] by (simp only: if_False)
  then show ?thesis by (simp add: word_unat_eq_iff)
qed

lemma length_upcase_table: "length generate_windows_upcase_table = 131072"
  by (simp add: generate_windows_upcase_table_def length_concat comp_def sum_list_triv)

lemma concat_pairs:
  "i < length xs \<Longrightarrow> (\<And>x. length (f x) = 2) \<Longrightarrow> take 2 (drop (2 * i) (concat (map f xs))) = f (xs ! i)"
proof (induction xs arbitrary: i)
  case (Cons x xs)
  show ?case
  proof (cases i)
    case (Suc k)
    then have "drop (2 * i) (concat (map f (x # xs))) = drop (2 * k) (concat (map f xs))" using Cons.prems by simp
    then show ?thesis using Cons.IH [of k] Cons.prems Suc by simp
  qed (use Cons.prems in simp)
qed simp

lemma upcase_entry: "i < 65536 \<Longrightarrow> rd_u16 generate_windows_upcase_table (2 * i) = Ok (upcase i)"
proof -
  assume i: "i < 65536"
  have "take 2 (drop (2 * i) generate_windows_upcase_table) = le16 (upcase i)"
    unfolding generate_windows_upcase_table_def using i
    by (subst concat_pairs [where f = "\<lambda>i. le16 (upcase i)"]) simp_all
  then show ?thesis using i by (simp add: rd_u16_def slice_r_def length_upcase_table)
qed

text \<open>The simple upper-case mapping of the Unicode character database below U+0149: Basic Latin, Latin-1 Supplement
  and the start of Latin Extended-A. U+00D7, U+00DF and U+00F7 map to themselves, the micro sign to the Greek
  capital, U+00FF to U+0178, the dotless U+0131 to \<open>I\<close>; in Latin Extended-A the capitals are the even code points
  up to U+0136 and the odd ones from U+0139 on.\<close>

definition latin_upper :: "nat \<Rightarrow> nat" where
  "latin_upper c =
     (if c \<in> {0x61..0x7A} \<or> c \<in> {0xE0..0xF6} \<or> c \<in> {0xF8..0xFE} then c - 0x20
      else if c = 0xB5 then 0x39C
      else if c = 0xFF then 0x178
      else if c = 0x131 then 0x49
      else if c \<in> {0x100..0x12F} \<or> c \<in> {0x132..0x137} then c div 2 * 2
      else if c \<in> {0x139..0x148} then (c - 1) div 2 * 2 + 1
      else c)"

text \<open>Property C40: the whole upper-case table against Unicode. It holds one 16-bit unit for each of the 65536 code
  units, read back at twice the code unit's index, and upper-casing twice changes nothing more. Below U+0149
  the unit is the Unicode upper-case letter, but for: U+00B5, U+00FF, U+012F and U+0131, which stay as they
  are although they have one; and U+0139 to U+0148, where the parity test is the wrong way round, so that
  each capital (odd) becomes the code point before it and each small letter (even) stays as it is. From U+0149 on every code unit
  stays as it is. On ASCII it is the usual map of \<open>a\<close> to \<open>z\<close>.\<close>

theorem upcase_table_correct:
  assumes "i < 65536"
  shows "length generate_windows_upcase_table = 2 * 65536 \<and>
    rd_u16 generate_windows_upcase_table (2 * i) = Ok (upcase i) \<and>
    upcase (unat (upcase i)) = upcase i \<and>
    (i < 0x80 \<longrightarrow> unat (upcase i) = (if 0x61 \<le> i \<and> i \<le> 0x7A then i - 0x20 else i)) \<and>
    (i < 0x139 \<and> i \<notin> {0xB5, 0xFF, 0x12F, 0x131} \<longrightarrow> unat (upcase i) = latin_upper i) \<and>
    (i \<in> {0xB5, 0xFF, 0x12F, 0x131} \<longrightarrow> unat (upcase i) = i \<and> latin_upper i \<noteq> i) \<and>
    (0x139 \<le> i \<and> i \<le> 0x148 \<longrightarrow> (if odd i then latin_upper i = i \<and> unat (upcase i) = i - 1
       else latin_upper i = i - 1 \<and> unat (upcase i) = i)) \<and>
    (0x149 \<le> i \<longrightarrow> unat (upcase i) = i) \<and>
    upcase 0x139 = 0x138 \<and> upcase 0x13A = 0x13A"
proof -
  note u = upcase_nat [OF assms]
  have odd2: "odd k \<Longrightarrow> k div 2 * 2 = k - 1" "even k \<Longrightarrow> k div 2 * 2 = k" for k :: nat by presburger+
  have low: "i < 0x139 \<and> i \<notin> {0xB5, 0xFF, 0x12F, 0x131} \<longrightarrow> unat (upcase i) = latin_upper i"
    by (auto simp: u latin_upper_def odd2) presburger
  have mid: "0x139 \<le> i \<and> i \<le> 0x148 \<longrightarrow> (if odd i then latin_upper i = i \<and> unat (upcase i) = i - 1
       else latin_upper i = i - 1 \<and> unat (upcase i) = i)"
  proof
    assume i: "0x139 \<le> i \<and> i \<le> 0x148"
    then have "latin_upper i = (i - 1) div 2 * 2 + 1" by (auto simp: latin_upper_def)
    moreover have "(i - 1) div 2 * 2 + 1 = (if odd i then i else i - 1)" using i by (cases "odd i") presburger+
    moreover have "unat (upcase i) = (if odd i then i - 1 else i)" using i by (simp add: u)
    ultimately show "if odd i then latin_upper i = i \<and> unat (upcase i) = i - 1
       else latin_upper i = i - 1 \<and> unat (upcase i) = i" by simp
  qed
  have four: "i \<in> {0xB5, 0xFF, 0x12F, 0x131} \<longrightarrow> unat (upcase i) = i \<and> latin_upper i \<noteq> i"
    by (auto simp: u latin_upper_def)
  have ends: "upcase 0x139 = 0x138" "upcase 0x13A = 0x13A"
    using upcase_nat [of "0x139"] upcase_nat [of "0x13A"] by (simp_all add: word_unat_eq_iff)
  have high: "0x149 \<le> i \<longrightarrow> unat (upcase i) = i" and ascii: "i < 0x80 \<longrightarrow> unat (upcase i) = (if 0x61 \<le> i \<and> i \<le> 0x7A then i - 0x20 else i)"
    by (simp_all add: u)
  show ?thesis
    by (intro conjI low mid four ends high ascii upcase_entry [OF assms] upcase_idem [OF assms]) (simp add: length_upcase_table)
qed

theorem upcase_table_correct_witness:
  "rd_u16 generate_windows_upcase_table 0xC2 = Ok 0x41 \<and> unat (upcase 0xF7) = 0xF7 \<and> unat (upcase 0x148) = 0x148 \<and> latin_upper 0x148 = 0x147"
proof -
  have "upcase 0x61 = 0x41" by (simp add: upcase_def)
  then show ?thesis
    using upcase_table_correct [of "0x61"] upcase_table_correct [of "0xF7"] upcase_table_correct [of "0x148"]
    by (simp add: latin_upper_def)
qed

section \<open>The loader block and what it points to\<close>

definition blocks_mem :: "u32 \<Rightarrow> (nat \<Rightarrow> u8) \<Rightarrow> nat \<Rightarrow> u8" where
  "blocks_mem hs m =
     store (store (store (store (store (store m 0x4010000
       (kpcr_image KPCR_VBASE (KPCR_VBASE + 0x180) gdt_v idt_v tss_v)) 0x4010180 (prcb_image stack_v))
       0x4010248 (le64 1)) 0x4010254 (le32 0)) 0x400C000 [0]) 0x4000000
       (lpb_image stack_v (KPCR_VBASE + 0x180) (KPCR_VBASE + 0x6000) (KPCR_VBASE + 0x5000) 0x10000
         hive_v hs nls_v_base (LPB_VBASE + 0x8000) (LPB_VBASE + 0xC000))"

definition extension_mem :: "(nat \<Rightarrow> u8) \<Rightarrow> nat \<Rightarrow> u8" where
  "extension_mem m =
     store (store (store m 0x4008000 (take 0xE38 (extension_image (ext_v + 0xA18)))) 0x4008078 (le64 ACPI_VBASE))
       0x4008080 (le32 36)"

lemma setup_blocks_steps:
  obtains vm' m where "setup_blocks hs vm = Ok vm'" and "mem_ptr vm' = extension_mem m"
    and "load m 0x5000000 8 = ascii ''RSD PTR ''"
    and "\<And>b. b < 0x5000000 \<or> 0x5000524 \<le> b \<Longrightarrow> m b = blocks_mem hs (mem_ptr vm) b"
proof -
  have k: "Kpcr_setup vm KPCR_VBASE KPCR_PBASE gdt_v idt_v tss_v stack_v =
    Ok (vm\<lparr>mem_ptr := store (store (store (store (mem_ptr vm) 0x4010000
       (kpcr_image KPCR_VBASE (KPCR_VBASE + 0x180) gdt_v idt_v tss_v)) 0x4010180 (prcb_image stack_v))
       0x4010248 (le64 1)) 0x4010254 (le32 0)\<rparr>)"
    by (subst Kpcr_setup_mem) (simp_all add: layout_defs MEM_SIZE_def)
  let ?vm1 = "vm\<lparr>mem_ptr := store (store (store (store (mem_ptr vm) 0x4010000
       (kpcr_image KPCR_VBASE (KPCR_VBASE + 0x180) gdt_v idt_v tss_v)) 0x4010180 (prcb_image stack_v))
       0x4010248 (le64 1)) 0x4010254 (le32 0)\<rparr>"
  have l: "Lpb_setup ?vm1 LPB_VBASE LPB_PBASE (KPCR_VBASE + 0x180) stack_v 0x10000 hive_v hs nls_v_base =
    Ok (vm\<lparr>mem_ptr := blocks_mem hs (mem_ptr vm)\<rparr>)"
    by (subst Lpb_setup_mem) (simp_all add: layout_defs MEM_SIZE_def blocks_mem_def)
  obtain vm3 where a: "Acpi_setup (vm\<lparr>mem_ptr := blocks_mem hs (mem_ptr vm)\<rparr>) ACPI_PBASE ACPI_VBASE = Ok (ACPI_VBASE, vm3)"
    and r: "load (mem_ptr vm3) 0x5000000 8 = ascii ''RSD PTR ''"
    and f: "\<And>b. b < 0x5000000 \<or> 0x5000524 \<le> b \<Longrightarrow> mem_ptr vm3 b = blocks_mem hs (mem_ptr vm) b"
    using acpi_setup_frame [of ACPI_PBASE ACPI_VBASE "vm\<lparr>mem_ptr := blocks_mem hs (mem_ptr vm)\<rparr>"]
    by (auto simp: layout_defs MEM_SIZE_def)
  have e: "Extension_setup vm3 ext_p ext_v =
      Ok (vm3\<lparr>mem_ptr := store (mem_ptr vm3) 0x4008000 (take 0xE38 (extension_image (ext_v + 0xA18)))\<rparr>)"
    by (subst Extension_setup_mem) (simp_all add: ext_p_def ext_v_def OFFSET_IN_LPB_def layout_defs MEM_SIZE_def)
  have s: "set_acpi vm ext_p v = Ok (vm\<lparr>mem_ptr := store (store (mem_ptr vm) 0x4008078 (le64 v)) 0x4008080 (le32 36)\<rparr>)"
    for vm :: "'a vm" and v
    by (simp add: set_acpi_def ext_p_def OFFSET_IN_LPB_def layout_defs add_chk_def write_memory_ok MEM_SIZE_def)
  have "setup_blocks hs vm = Ok (vm3\<lparr>mem_ptr := extension_mem (mem_ptr vm3)\<rparr>)"
    by (simp add: setup_blocks_def k l a e s extension_mem_def)
  from that [OF this _ r f] show thesis by simp
qed

lemma extension_mem_low: "b < 0x4008000 \<or> 0x4008E38 \<le> b \<Longrightarrow> extension_mem m b = m b"
  by (auto simp: extension_mem_def store_def extension_image_fields)

lemma blocks_mem_outside: "b < 0x4000000 \<or> 0x4010880 \<le> b \<Longrightarrow> blocks_mem hs m b = m b"
  by (auto simp: blocks_mem_def store_def kpcr_image_fields prcb_image_fields lpb_image_fields)

lemma setup_blocks_frame:
  "\<exists>vm'. setup_blocks hs vm = Ok vm' \<and>
     (\<forall>b. b < 0x4000000 \<or> 0x5000524 \<le> b \<longrightarrow> mem_ptr vm' b = mem_ptr vm b)"
proof (rule setup_blocks_steps [of hs vm])
  fix vm' m
  assume "setup_blocks hs vm = Ok vm'" "mem_ptr vm' = extension_mem m"
    "\<And>b. b < 0x5000000 \<or> 0x5000524 \<le> b \<Longrightarrow> m b = blocks_mem hs (mem_ptr vm) b"
  then show ?thesis by (auto simp: extension_mem_low blocks_mem_outside)
qed

lemma blocks_loads:
  fixes hs :: u32 and m0 :: "nat \<Rightarrow> u8"
  defines "m \<equiv> blocks_mem hs m0"
  shows "n + k \<le> 0x160 \<Longrightarrow> load m (0x4000000 + k) n = peek (lpb_image stack_v (KPCR_VBASE + 0x180) (KPCR_VBASE + 0x6000)
      (KPCR_VBASE + 0x5000) 0x10000 hive_v hs nls_v_base (LPB_VBASE + 0x8000) (LPB_VBASE + 0xC000)) k n"
    and "n + k \<le> 0x180 \<Longrightarrow> load m (0x4010000 + k) n = peek (kpcr_image KPCR_VBASE (KPCR_VBASE + 0x180) gdt_v idt_v tss_v) k n"
    and "n + k \<le> 0xc8 \<or> 0xd8 \<le> k \<and> n + k \<le> 0x700 \<Longrightarrow> load m (0x4010180 + k) n = peek (prcb_image stack_v) k n"
  by (auto simp: m_def blocks_mem_def load_store_peek load_store_other kpcr_image_fields prcb_image_fields lpb_image_fields
      add.commute)


text \<open>The fields of the blocks, over any memory that agrees with them outside the ACPI tables.\<close>

lemma chain_fields:
  fixes hs :: u32 and m m0 :: "nat \<Rightarrow> u8"
  assumes f: "\<And>b. b < 0x5000000 \<or> 0x5000524 \<le> b \<Longrightarrow> m b = blocks_mem hs m0 b"
  defines "lpb \<equiv> field64 (extension_mem m) 0x4000000 LOADER_PARAMETER_BLOCK"
    and "kpcr \<equiv> field64 (extension_mem m) 0x4010000 KPCR" and "prcb \<equiv> field64 (extension_mem m) 0x4010180 KPRCB"
  shows chain_lpb: "lpb [''Extension''] = LPB_VBASE + 0x8000" "lpb [''Prcb''] = KPCR_VBASE + 0x180" "lpb [''KernelStack''] = stack_v"
      "lpb [''NlsData''] = nls_v_base" "lpb [''RegistryBase''] = hive_v"
      "field32 (extension_mem m) 0x4000000 LOADER_PARAMETER_BLOCK [''RegistryLength''] = hs"
    and chain_kpcr: "kpcr [''CurrentPrcb''] = KPCR_VBASE + 0x180" "kpcr [''SelfPcr''] = KPCR_VBASE"
      "kpcr [''GdtBase''] = gdt_v" "kpcr [''IdtBase''] = idt_v"
    and chain_prcb: "prcb [''RspBase''] = stack_v" "prcb [''ProcessorState'', ''SpecialRegisters'', ''Cr3''] = 0x8102000"
    and chain_extension: "field64 (extension_mem m) 0x4008000 LOADER_PARAMETER_EXTENSION [''AcpiTable''] = ACPI_VBASE"
proof -
  let ?m = "extension_mem m" and ?b = "blocks_mem hs m0"
  have low: "load ?m a n = load ?b a n" if "a + n \<le> 0x4008000 \<or> 0x4008E38 \<le> a \<and> a + n \<le> 0x5000000" for a n
    using that by (intro load_cong) (auto simp: extension_mem_low f)
  have lpb: "load ?m (0x4000000 + k) n = peek (lpb_image stack_v (KPCR_VBASE + 0x180) (KPCR_VBASE + 0x6000)
      (KPCR_VBASE + 0x5000) 0x10000 hive_v hs nls_v_base (LPB_VBASE + 0x8000) (LPB_VBASE + 0xC000)) k n" if "n + k \<le> 0x160" for k n
    using that by (simp add: low blocks_loads(1))
  have kpcr: "load ?m (0x4010000 + k) n = peek (kpcr_image KPCR_VBASE (KPCR_VBASE + 0x180) gdt_v idt_v tss_v) k n" if "n + k \<le> 0x180" for k n
    using that by (simp add: low blocks_loads(2))
  have prcb: "load ?m (0x4010180 + k) n = peek (prcb_image stack_v) k n" if "n + k \<le> 0xc8 \<or> 0xd8 \<le> k \<and> n + k \<le> 0x700" for k n
    using that by (auto simp add: low blocks_loads(3))
  show "lpb [''Extension''] = LPB_VBASE + 0x8000" "lpb [''Prcb''] = KPCR_VBASE + 0x180" "lpb [''KernelStack''] = stack_v"
    "lpb [''NlsData''] = nls_v_base" "lpb [''RegistryBase''] = hive_v"
    "field32 (extension_mem m) 0x4000000 LOADER_PARAMETER_BLOCK [''RegistryLength''] = hs"
    using lpb [of 8 "0xf0"] lpb [of 8 "0x88"] lpb [of 8 "0x80"] lpb [of 8 "0xe0"] lpb [of 8 "0xa8"] lpb [of 4 "0xa4"]
    by (simp_all add: lpb_def field_defs lpb_layout lpb_image_fields)
  show "kpcr [''CurrentPrcb''] = KPCR_VBASE + 0x180" "kpcr [''SelfPcr''] = KPCR_VBASE"
    "kpcr [''GdtBase''] = gdt_v" "kpcr [''IdtBase''] = idt_v"
    using kpcr [of 8 "0x20"] kpcr [of 8 "0x18"] kpcr [of 8 0] kpcr [of 8 "0x38"]
    by (simp_all add: kpcr_def field_defs kpcr_layout kpcr_image_fields)
  show "prcb [''RspBase''] = stack_v" "prcb [''ProcessorState'', ''SpecialRegisters'', ''Cr3''] = 0x8102000"
    using prcb [of 8 "0x28"] prcb [of 8 "0x110"] by (simp_all add: prcb_def field_defs prcb_layout prcb_image_fields)
  have acpi: "load ?m 0x4008078 8 = le64 ACPI_VBASE"
    unfolding extension_mem_def by (subst load_store_other) (simp_all add: load_store_same_n)
  then show "field64 (extension_mem m) 0x4008000 LOADER_PARAMETER_EXTENSION [''AcpiTable''] = ACPI_VBASE"
    by (simp add: field_defs offset_of_def extension_offsets)
qed

text \<open>Property C10: the kernel that follows the pointers of the written blocks through the kernel window finds
  what they promise: from the loader block the extension, and in it the RSDP with its signature; the
  processor block, whose control region in front of it points back to it, to itself and to the descriptor
  tables; the kernel stack, equal in both; the page tables in \<open>Cr3\<close>; the language tables; the hive's
  address and length.\<close>

theorem loader_block_chain:
  "\<exists>vm'. setup_blocks hs vm = Ok vm' \<and>
     (let m = mem_ptr vm'; lpb = field64 m (window LPB_VBASE) LOADER_PARAMETER_BLOCK;
          ext = field64 m (window (lpb [''Extension''])) LOADER_PARAMETER_EXTENSION;
          prcb = field64 m (window (lpb [''Prcb''])) KPRCB; kpcr = field64 m (window (lpb [''Prcb''] - 0x180)) KPCR
      in load m (window (ext [''AcpiTable''])) 8 = ascii ''RSD PTR '' \<and>
         kpcr [''CurrentPrcb''] = lpb [''Prcb''] \<and> kpcr [''SelfPcr''] = KPCR_VBASE \<and>
         window (kpcr [''GdtBase'']) = unat SYSTEM_BASE \<and> window (kpcr [''IdtBase'']) = unat idt_pbase \<and>
         prcb [''RspBase''] = lpb [''KernelStack''] \<and>
         prcb [''ProcessorState'', ''SpecialRegisters'', ''Cr3''] = pml4_p \<and>
         lpb [''NlsData''] = nls_v_base \<and> lpb [''RegistryBase''] = hive_v \<and>
         field32 m (window LPB_VBASE) LOADER_PARAMETER_BLOCK [''RegistryLength''] = hs)"
proof (rule setup_blocks_steps [of hs vm])
  fix vm' m
  assume s: "setup_blocks hs vm = Ok vm'" "mem_ptr vm' = extension_mem m"
    and r: "load m 0x5000000 8 = ascii ''RSD PTR ''"
    and f: "\<And>b. b < 0x5000000 \<or> 0x5000524 \<le> b \<Longrightarrow> m b = blocks_mem hs (mem_ptr vm) b"
  let ?m = "extension_mem m"
  have rs: "load ?m 0x5000000 8 = ascii ''RSD PTR ''"
    unfolding r [symmetric] by (rule load_cong) (auto simp: extension_mem_low)
  have p: "window LPB_VBASE = 0x4000000" "window (LPB_VBASE + 0x8000) = 0x4008000" "window (KPCR_VBASE + 0x180) = 0x4010180"
    "window KPCR_VBASE = 0x4010000" "window ACPI_VBASE = 0x5000000"
    by (simp_all add: window_def layout_defs)
  note fields = chain_lpb [OF f] chain_kpcr [OF f] chain_prcb [OF f] chain_extension [OF f]
  have w: "window gdt_v = unat SYSTEM_BASE" "window idt_v = unat idt_pbase" "pml4_p = 0x8102000"
    by (simp_all add: window_def gdt_v_def idt_v_def idt_pbase_def pml4_p_def paging_pbase_def layout_defs)
  show ?thesis
    unfolding s by (simp only: Let_def res.inject ex_simps simp_thms) (simp add: s(2) Let_def p fields rs w)
qed

end
