(* ===== verification/BootRun.thy ===== *)
theory BootRun
  imports BootBlocks
begin

unbundle bit_operations_syntax

text \<open>
  The boot of \<open>main\<close> (\<open>src/main.rs\<close>) as a whole. Every step after \<open>setup_kernel_paging\<close> leaves the half
  megabyte of the page tables alone, so that the processor that \<open>setup_long_mode\<close> starts walks exactly
  the tables of \<open>Paging\<close>; the properties of the root theory read the addresses the boot hands to the kernel
  through that walk. The last section runs a boot on a directory of small files, which shows that the hypotheses can
  hold together.
\<close>

section \<open>The boot page tables survive the rest of the boot\<close>

text \<open>The half megabyte of the page tables, and the memories that hold the tables there.\<close>

definition table_area :: "nat set" where
  "table_area = {0x8100000..<0x8180000}"

definition tables_intact :: "u64 \<Rightarrow> (nat \<Rightarrow> u8) \<Rightarrow> bool" where
  "tables_intact hal_base m \<longleftrightarrow> m = paging_mem hal_base m"

lemma store_agree: "m a = m' a \<Longrightarrow> store m off d a = store m' off d a"
  by (simp add: store_def)

lemma store_cells_agree: "m a = m' a \<Longrightarrow> store_cells m b f n a = store_cells m' b f n a"
  by (induction n) (simp_all add: store_def)

lemma paging_mem_area: "a \<in> table_area \<Longrightarrow> paging_mem hal_base m a = paging_mem hal_base m' a"
proof -
  assume a: "a \<in> table_area"
  have z: "store m 0x8100000 (replicate n 0) a = store m' 0x8100000 (replicate n 0) a" if "0x80000 \<le> n" for n
    using a that by (auto simp: store_def table_area_def)
  show ?thesis
    unfolding paging_mem_def Let_def by (rule store_agree store_cells_agree z order_refl)+
qed

lemma tables_intactI:
  assumes "\<And>a. a \<in> table_area \<Longrightarrow> m a = paging_mem hal_base m0 a"
  shows "tables_intact hal_base m"
proof -
  have "m a = paging_mem hal_base m a" for a
  proof (cases "a \<in> table_area")
    case True
    from trans [OF assms [OF this] paging_mem_area [OF this]] show ?thesis .
  next
    case False
    then show ?thesis by (subst paging_mem_outside) (auto simp: table_area_def)
  qed
  then show ?thesis unfolding tables_intact_def by (rule ext)
qed

text \<open>A step keeps an area of memory when it changes no byte of it.\<close>

definition keeps :: "nat set \<Rightarrow> 'k vm \<Rightarrow> 'k vm \<Rightarrow> bool" where
  "keeps A vm vm' \<longleftrightarrow> (\<forall>a\<in>A. mem_ptr vm' a = mem_ptr vm a)"

abbreviation keeps_tables :: "'k vm \<Rightarrow> 'k vm \<Rightarrow> bool" where
  "keeps_tables \<equiv> keeps table_area"

lemma expect_Ok: "expect_r r = Ok x \<longleftrightarrow> r = Ok x"
  by (cases r) auto

lemma keeps_trans [trans]: "keeps A a b \<Longrightarrow> keeps A b c \<Longrightarrow> keeps A a c"
  by (simp add: keeps_def)

lemma keeps_write:
  "\<lbrakk>write_memory vm a d = Ok vm'; unat a + length d \<le> 0x8100000\<rbrakk> \<Longrightarrow> keeps_tables vm vm'"
  by (auto simp: keeps_def table_area_def write_memory_Ok_iff store_def)

lemma keeps_wr_ok:
  "\<lbrakk>wr_ok a d vm = Ok vm'; unat a + length d \<le> 0x8100000\<rbrakk> \<Longrightarrow> keeps_tables vm vm'"
  using wr_ok_frame [of a d vm vm'] by (auto simp: keeps_def table_area_def)

lemma nls_places:
  "unat (nls_p_base + 0x1000) = 0x4031000" "unat (nls_p_base + 0x11000) = 0x4041000"
  "unat (nls_p_base + 0x21000) = 0x4051000" "unat nls_p_base = 0x4030000"
  by (simp_all add: nls_p_base_def layout_defs)

lemma length_nls_image: "length nls_image = 0x28"
  by (simp add: nls_image_def assign_def zeroed_def length_poke NLS_DATA_BLOCK_def offset_of_def round_up_def)

lemma keeps_nls:
  assumes "setup_nls ansi oem vm = Ok vm'" and "length ansi \<le> 0x3F00000" and "length oem \<le> 0x3F00000"
  shows "keeps_tables vm vm'"
proof -
  obtain v1 v2 v3 where "wr_ok (nls_p_base + 0x1000) ansi vm = Ok v1" "wr_ok (nls_p_base + 0x11000) oem v1 = Ok v2"
    "wr_ok (nls_p_base + 0x21000) generate_windows_upcase_table v2 = Ok v3" "wr_ok nls_p_base nls_image v3 = Ok vm'"
    using assms(1) by (auto simp: setup_nls_def)
  from keeps_wr_ok [OF this(1)] keeps_wr_ok [OF this(2)] keeps_wr_ok [OF this(3)] keeps_wr_ok [OF this(4)]
  show ?thesis using assms(2,3) by (simp add: nls_places length_nls_image length_upcase_table) (meson keeps_trans)
qed

lemma keeps_blocks: "setup_blocks hs vm = Ok vm' \<Longrightarrow> keeps_tables vm vm'"
  using setup_blocks_frame [of hs vm] by (auto simp: keeps_def table_area_def)

lemma keeps_apiset:
  assumes "setup_apiset buf vm = Ok vm'" and "length buf \<le> 0x3F00000"
  shows "keeps_tables vm vm'"
proof -
  obtain v1 n where 1: "wr_ok apiset_p buf vm = Ok v1" and 2: "ok_or_keep v1 (set_apiset v1 ext_p (apiset_v + 0x2000) n) = Ok vm'"
    using assms(1) by (auto simp: setup_apiset_def)
  have "keeps_tables vm v1" using keeps_wr_ok [OF 1] assms(2) by (simp add: apiset_p_def layout_defs)
  moreover have "keeps_tables v1 vm'"
    using 2 by (auto simp: set_apiset_def ext_p_def OFFSET_IN_LPB_def layout_defs add_chk_def write_memory_ok MEM_SIZE_def
        keeps_def table_area_def store_def)
  ultimately show ?thesis by (rule keeps_trans)
qed

lemma keeps_lists:
  assumes n: "length ms \<le> 0x4000"
  shows "list_all fits ms \<Longrightarrow> register_modules ms vm = Ok vm' \<Longrightarrow> keeps_tables vm vm'"
    and "link_hal_ext (hal_ext_nodes U ms) vm = Ok vm' \<Longrightarrow> keeps_tables vm vm'"
    and "link_modules (module_nodes ms) vm = Ok vm' \<Longrightarrow> keeps_tables vm vm'"
proof -
  show "list_all fits ms \<Longrightarrow> register_modules ms vm = Ok vm' \<Longrightarrow> keeps_tables vm vm'"
    using register_modules_entries [of 0 ms vm] n by (auto simp: register_modules_def keeps_def table_area_def)
  have "hal_free (length ms) b" if "b \<in> table_area" for b
    using that n by (auto simp: hal_free_def table_area_def)
  then show "link_hal_ext (hal_ext_nodes U ms) vm = Ok vm' \<Longrightarrow> keeps_tables vm vm'"
    using link_hal_ext_modules [of ms U vm] n by (auto simp: keeps_def)
  assume l: "link_modules (module_nodes ms) vm = Ok vm'"
  then have ne: "ms \<noteq> []" by (auto simp: link_modules_def module_nodes_def)
  have "b < unat a \<or> unat a + length d \<le> b"
    if b: "b \<in> table_area" and ad: "(a, d) \<in> set (list_writes (module_nodes ms))" for a d b
    using ad by (rule list_writes_cases) (use n b in \<open>auto simp: table_area_def\<close>)
  moreover have "length ms \<le> 0x10000" using n by simp
  note batch_frame [OF l [unfolded link_modules_writes [OF ne this]]]
  ultimately show "keeps_tables vm vm'" by (auto simp: keeps_def)
qed


text \<open>The last steps, for any area they do not write to.\<close>

lemma outside_range:
  fixes b :: nat
  assumes "A \<inter> {lo..<hi} = {}" and "b \<in> A"
  shows "b < lo \<or> hi \<le> b"
proof (rule ccontr)
  assume "\<not> ?thesis"
  then have "b \<in> A \<inter> {lo..<hi}" using assms(2) by simp
  then show False using assms(1) by simp
qed

definition clear_of :: "nat set \<Rightarrow> (u64 \<times> u8 list) list \<Rightarrow> bool" where
  "clear_of A ws \<longleftrightarrow> list_all (\<lambda>(a, d). A \<inter> {unat a..<unat a + length d} = {}) ws"

lemma keeps_bind:
  assumes "bind_all U ms vm = Ok vm'" and "clear_of A (iat_slots U ms)"
  shows "keeps A vm vm'"
proof -
  have "mem_ptr vm' b = mem_ptr vm b" if b: "b \<in> A" for b
  proof -
    have "b < unat a \<or> unat a + length d \<le> b" if "(a, d) \<in> set (iat_slots U ms)" for a d
    proof -
      have "A \<inter> {unat a..<unat a + length d} = {}" using assms(2) that by (auto simp: clear_of_def list_all_iff)
      from outside_range [OF this b] show ?thesis .
    qed
    then show ?thesis using batch_frame [OF bind_all_slots [OF assms(1)], of b] by blast
  qed
  then show ?thesis by (simp add: keeps_def)
qed

lemma keeps_gdt:
  assumes "setup_gdt vm = Ok vm'" and A: "A \<inter> {0x8000000..<0x8002000} = {}"
  shows "keeps A vm vm'"
proof -
  obtain v1 where w: "write_memory vm (SYSTEM_BASE + 0x1000) (replicate 104 0) = Ok v1"
    and f: "for_r (\<lambda>(i, e). wr_ok (SYSTEM_BASE + of_nat i * 8) (le64 e)) (enumerate 0 boot_gdt) v1 = Ok vm'"
    using assms(1) by (auto simp: setup_gdt_def expect_Ok)
  note out = outside_range [OF A]
  have "length boot_gdt = 32" by (simp add: boot_gdt_def Let_def)
  then have addr: "0x8000000 \<le> unat (SYSTEM_BASE + of_nat i * 8) \<and> unat (SYSTEM_BASE + of_nat i * 8) + 8 \<le> 0x8002000"
    if "(i, e) \<in> set (enumerate 0 boot_gdt)" for i e
    using that by (auto simp: in_set_enumerate_eq layout_defs unat_word_ariths unsigned_of_nat take_bit_nat_eq_self)
  have "mem_ptr v1 b = mem_ptr vm b" if "b \<in> A" for b
    using w out [OF that] by (auto simp: write_memory_Ok_iff store_def layout_defs)
  then have "keeps A vm v1" by (simp add: keeps_def)
  then show ?thesis
  proof (rule for_r_invariant [OF f])
    fix x s t assume a: "x \<in> set (enumerate 0 boot_gdt)"
      "(case x of (i, e) \<Rightarrow> wr_ok (SYSTEM_BASE + of_nat i * 8) (le64 e)) s = Ok t" "keeps A vm s"
    obtain i e where x: "x = (i, e)" by force
    have w: "wr_ok (SYSTEM_BASE + of_nat i * 8) (le64 e) s = Ok t" using a(2) by (simp add: x)
    have "mem_ptr t b = mem_ptr s b" if "b \<in> A" for b
      using wr_ok_frame [OF w, of b] addr [of i e] a(1) out [OF that] by (auto simp: x)
    then show "keeps A vm t" using a(3) by (simp add: keeps_def)
  qed
qed

lemma keeps_descriptors:
  assumes "setup_descriptors hs vm = Ok vm'" and H: "A \<inter> {0x4000020..<0x4000030} = {}" and A: "A \<inter> {0x4020000..<0x4028000} = {}"
  shows "keeps A vm vm'"
proof -
  have m: "mem_ptr vm' = mdl_mem hs (mem_ptr vm)" using assms(1) by (auto simp: setup_descriptors_mem)
  have f: "fold (descriptor_mem hs) is m b = m b" if "\<forall>i\<in>set is. i < 7" "b < 0x4020000 \<or> 0x4028000 \<le> b" for "is" m b
    using that by (induction "is" arbitrary: m) (auto simp: descriptor_mem_def store_def descriptor_image_fields)
  have "mem_ptr vm' b = mem_ptr vm b" if "b \<in> A" for b
    using outside_range [OF H that] outside_range [OF A that] f [of "[0..<7]" b] by (auto simp: m mdl_mem_def store_def)
  then show ?thesis by (simp add: keeps_def)
qed

lemma keeps_idt:
  assumes "setup_diagnostic_idt vm = Ok vm'" and A: "A \<inter> {0x8010000..<0x8021000} = {}"
  shows "keeps A vm vm'"
proof -
  note out = outside_range [OF A]
  have "mem_ptr vm' b = mem_ptr vm b" if "b \<in> A" for b
    using idt_upto [of 256 vm] assms(1) out [OF that] by (auto simp: setup_diagnostic_idt_def)
  then show ?thesis by (simp add: keeps_def)
qed

lemma keeps_long_mode: "setup_long_mode K vm e sv lv = Ok vm' \<Longrightarrow> keeps_tables vm vm'"
  by (erule setup_long_mode_steps)
    (auto simp: keeps_def table_area_def store_def length_concat_le64 gdt_facts length_poke)


section \<open>From the modules to the first instruction\<close>

text \<open>The modules a boot loads, as \<open>boot\<close> computes them.\<close>

definition boot_modules ::
  "unicode \<Rightarrow> (u8 list \<Rightarrow> parsed option) \<Rightarrow> filesystem \<Rightarrow> rstring \<Rightarrow> 'k vm res \<Rightarrow> loaded_module list res" where
  "boot_modules U obj files path new_vm =
     bind_r new_vm (\<lambda>vm. bind_r kuser_page (\<lambda>d. bind_r (wr_ok KUSER_PBASE d vm) (\<lambda>vm.
     bind_r (load_directory U obj files vm path KRNL_PBASE 0xFFFFF80000200000 []) (\<lambda>(ms, vm). Ok ms))))"

definition small_file :: "filesystem \<Rightarrow> rstring \<Rightarrow> bool" where
  "small_file files p \<longleftrightarrow> (case fs_read files p of Ok d \<Rightarrow> length d \<le> 0x3F00000 | _ \<Rightarrow> True)"

definition slots_clear :: "unicode \<Rightarrow> loaded_module list \<Rightarrow> bool" where
  "slots_clear U ms \<longleftrightarrow> clear_of table_area (iat_slots U ms)"

text \<open>What the page tables rely on: module nodes, files and bound import slots stay clear of them.\<close>

definition boot_sized :: "unicode \<Rightarrow> filesystem \<Rightarrow> rstring \<Rightarrow> loaded_module list \<Rightarrow> bool" where
  "boot_sized U files path ms \<longleftrightarrow>
     length ms \<le> 0x4000 \<and> list_all fits ms \<and> slots_clear U ms \<and>
     list_all (\<lambda>f. small_file files (path @ lit f))
       [''/config/SYSTEM'', ''/C_1252.NLS'', ''/C_437.NLS'', ''/apisetschema.dll'']"

text \<open>The machines a successful boot passes, from the modules on.\<close>

lemma boot_trace:
  assumes "boot U obj files path new_vm = Ok (e, vm')" and "boot_modules U obj files path new_vm = Ok ms"
  obtains vm3 vm4 hive vm5 ansi oem vm6 vm7 vm8 vm9 vm10 vm11 vm12 vm13 vm14 where
    "2 \<le> length ms" "e = mod_entry (ms ! 0)" "setup_kernel_paging vm3 (v_base (ms ! 0)) (v_base (ms ! 1)) = Ok vm4"
    "fs_read files (path @ lit ''/config/SYSTEM'') = Ok hive" "write_memory vm4 hive_p hive = Ok vm5"
    "fs_read files (path @ lit ''/C_1252.NLS'') = Ok ansi" "fs_read files (path @ lit ''/C_437.NLS'') = Ok oem"
    "setup_nls ansi oem vm5 = Ok vm6" "setup_blocks (of_nat (length hive)) vm6 = Ok vm7"
    "(case fs_read files (path @ lit ''/apisetschema.dll'') of Ok apiset_buf \<Rightarrow> setup_apiset apiset_buf vm7
       | Err _ \<Rightarrow> Ok vm7 | Panic \<Rightarrow> Panic) = Ok vm8"
    "register_modules ms vm8 = Ok vm9" "link_hal_ext (hal_ext_nodes U ms) vm9 = Ok vm10"
    "link_modules (module_nodes ms) vm10 = Ok vm11" "bind_all U ms vm11 = Ok vm12" "setup_gdt vm12 = Ok vm13"
    "setup_descriptors (of_nat (length hive)) vm13 = Ok vm14" "setup_diagnostic_idt vm14 = Ok vm'"
proof -
  from assms(1) obtain vm0 kd vm1 vm2 ms' vm3 vm4 hive vm5 ansi oem vm6 vm7 vm8 vm9 vm10 vm11 vm12 vm13 vm14 where
    b: "new_vm = Ok vm0" "kuser_page = Ok kd" "wr_ok KUSER_PBASE kd vm0 = Ok vm1"
      "load_directory U obj files vm1 path KRNL_PBASE 0xFFFFF80000200000 [] = Ok (ms', vm2)"
      "get_r ms' 0 = Ok (ms' ! 0)" "get_r ms' 1 = Ok (ms' ! 1)" "e = mod_entry (ms' ! 0)"
      "setup_kernel_paging vm3 (v_base (ms' ! 0)) (v_base (ms' ! 1)) = Ok vm4"
    and f: "fs_read files (path @ lit ''/config/SYSTEM'') = Ok hive" "write_memory vm4 hive_p hive = Ok vm5"
      "fs_read files (path @ lit ''/C_1252.NLS'') = Ok ansi" "fs_read files (path @ lit ''/C_437.NLS'') = Ok oem"
    and s: "setup_nls ansi oem vm5 = Ok vm6" "setup_blocks (of_nat (length hive)) vm6 = Ok vm7"
      "(case fs_read files (path @ lit ''/apisetschema.dll'') of Ok apiset_buf \<Rightarrow> setup_apiset apiset_buf vm7
         | Err _ \<Rightarrow> Ok vm7 | Panic \<Rightarrow> Panic) = Ok vm8"
      "register_modules ms' vm8 = Ok vm9" "link_hal_ext (hal_ext_nodes U ms') vm9 = Ok vm10"
      "link_modules (module_nodes ms') vm10 = Ok vm11" "bind_all U ms' vm11 = Ok vm12" "setup_gdt vm12 = Ok vm13"
      "setup_descriptors (of_nat (length hive)) vm13 = Ok vm14" "setup_diagnostic_idt vm14 = Ok vm'"
    by (auto simp: boot_def expect_Ok get_r_def Let_def split: if_splits)
  have ms: "ms' = ms"
    using assms(2) b(4) unfolding boot_modules_def b(1) bind_r.simps b(2,3) by simp
  have len: "2 \<le> length ms" using b(6) by (auto simp: get_r_def ms split: if_splits)
  show thesis by (rule that [OF len b(7,8) [unfolded ms] f s(1-3) s(4-7) [unfolded ms] s(8-10)])
qed

lemma boot_steps:
  assumes "boot U obj files path new_vm = Ok (e, vm')"
    and "boot_modules U obj files path new_vm = Ok ms" and sized: "boot_sized U files path ms"
  shows "2 \<le> length ms \<and> e = mod_entry (ms ! 0) \<and> tables_intact (v_base (ms ! 1)) (mem_ptr vm')"
  using assms(1,2)
proof (rule boot_trace)
  fix vm3 vm4 hive vm5 ansi oem vm6 vm7 vm8 vm9 vm10 vm11 vm12 vm13 vm14
  assume b: "2 \<le> length ms" "e = mod_entry (ms ! 0)" "setup_kernel_paging vm3 (v_base (ms ! 0)) (v_base (ms ! 1)) = Ok vm4"
    and f: "fs_read files (path @ lit ''/config/SYSTEM'') = Ok hive" "write_memory vm4 hive_p hive = Ok vm5"
      "fs_read files (path @ lit ''/C_1252.NLS'') = Ok ansi" "fs_read files (path @ lit ''/C_437.NLS'') = Ok oem"
    and s: "setup_nls ansi oem vm5 = Ok vm6" "setup_blocks (of_nat (length hive)) vm6 = Ok vm7"
      "(case fs_read files (path @ lit ''/apisetschema.dll'') of Ok apiset_buf \<Rightarrow> setup_apiset apiset_buf vm7
         | Err _ \<Rightarrow> Ok vm7 | Panic \<Rightarrow> Panic) = Ok vm8"
      "register_modules ms vm8 = Ok vm9" "link_hal_ext (hal_ext_nodes U ms) vm9 = Ok vm10"
      "link_modules (module_nodes ms) vm10 = Ok vm11" "bind_all U ms vm11 = Ok vm12" "setup_gdt vm12 = Ok vm13"
      "setup_descriptors (of_nat (length hive)) vm13 = Ok vm14" "setup_diagnostic_idt vm14 = Ok vm'"
  have z: "length ms \<le> 0x4000" "list_all fits ms" "slots_clear U ms"
    "list_all (\<lambda>f. small_file files (path @ lit f)) [''/config/SYSTEM'', ''/C_1252.NLS'', ''/C_437.NLS'', ''/apisetschema.dll'']"
    using sized by (simp_all add: boot_sized_def)
  have small: "length hive \<le> 0x3F00000" "length ansi \<le> 0x3F00000" "length oem \<le> 0x3F00000"
    using z(4) f by (simp_all add: small_file_def)
  have api: "keeps_tables vm7 vm8"
    using s(3) z(4) by (auto simp: small_file_def keeps_def split: res.splits dest!: keeps_apiset)
  have "keeps_tables vm4 vm5" using keeps_write [OF f(2)] small(1) by (simp add: hive_p_def)
  also note keeps_nls [OF s(1) small(2,3)]
  also note keeps_blocks [OF s(2)]
  also note api
  also note keeps_lists(1) [OF z(1,2) s(4)]
  also note keeps_lists(2) [OF z(1) s(5)]
  also note keeps_lists(3) [OF z(1) s(6)]
  also note keeps_bind [OF s(7) z(3) [unfolded slots_clear_def]]
  also have "keeps_tables vm12 vm13" using keeps_gdt [OF s(8)] by (simp add: table_area_def)
  also have "keeps_tables vm13 vm14" using keeps_descriptors [OF s(9)] by (simp add: table_area_def)
  also have "keeps_tables vm14 vm'" using keeps_idt [OF s(10)] by (simp add: table_area_def)
  finally have "keeps_tables vm4 vm'" .
  moreover have "mem_ptr vm4 = paging_mem (v_base (ms ! 1)) (mem_ptr vm3)" using b(3) by (auto simp: setup_kernel_paging_mem)
  ultimately have "mem_ptr vm' a = paging_mem (v_base (ms ! 1)) (mem_ptr vm3) a" if "a \<in> table_area" for a
    using that by (simp add: keeps_def)
  then have "tables_intact (v_base (ms ! 1)) (mem_ptr vm')" by (rule tables_intactI)
  then show ?thesis using b by simp
qed

text \<open>The registers and the page walk of a started machine.\<close>

lemma started_walk:
  fixes new_vm :: "'k vm res"
  assumes "boot_and_start K U obj files path new_vm = Ok vm'" and "regs_law K" and "sregs_law K"
    and "boot_modules U obj files path new_vm = Ok ms" and sized: "boot_sized U files path ms"
  obtains r0 s0 where "get_regs K (kvm_fd vm') =
      Ok (r0\<lparr>rip := mod_entry (ms ! 0), rsp := stack_v - 0x100, rflags := 0x2, rcx := LPB_VBASE, rdx := LPB_VBASE\<rparr>)"
    and "get_sregs K (kvm_fd vm') = Ok (long_mode_sregs (LPB_VBASE + 0x10000) s0)"
    and "\<forall>v. virt_to_phys K vm' v =
      Ok (case translate (paging_mem (v_base (ms ! 1)) (mem_ptr vm')) pml4_p v of None \<Rightarrow> v | Some p \<Rightarrow> p)"
    and "mem_ptr vm' = paging_mem (v_base (ms ! 1)) (mem_ptr vm')"
proof -
  obtain e vm1 where b: "boot U obj files path new_vm = Ok (e, vm1)" and l: "setup_long_mode K vm1 e stack_v LPB_VBASE = Ok vm'"
    using assms(1) by (auto simp: boot_and_start_def)
  have st: "e = mod_entry (ms ! 0)" "tables_intact (v_base (ms ! 1)) (mem_ptr vm1)"
    using boot_steps [OF b assms(4) sized] by auto
  have t: "tables_intact (v_base (ms ! 1)) (mem_ptr vm')"
  proof (rule tables_intactI)
    fix a assume "a \<in> table_area"
    then have "mem_ptr vm' a = mem_ptr vm1 a" using keeps_long_mode [OF l] by (simp add: keeps_def)
    then show "mem_ptr vm' a = paging_mem (v_base (ms ! 1)) (mem_ptr vm1) a"
      using fun_cong [OF st(2) [unfolded tables_intact_def]] by (rule trans)
  qed
  obtain r0 s0 where r: "get_regs K (kvm_fd vm') =
      Ok (r0\<lparr>rip := e, rsp := stack_v - 0x100, rflags := 0x2, rcx := LPB_VBASE, rdx := LPB_VBASE\<rparr>)"
    and s: "get_sregs K (kvm_fd vm') = Ok (long_mode_sregs (LPB_VBASE + 0x10000) s0)"
    using long_mode_registers [OF l assms(2,3)] by blast
  have c: "cr3 (long_mode_sregs (LPB_VBASE + 0x10000) s0) = pml4_p"
    by (simp add: long_mode_sregs_def Let_def pml4_p_def paging_pbase_def layout_defs)
  have w: "\<forall>v. virt_to_phys K vm' v =
      Ok (case translate (paging_mem (v_base (ms ! 1)) (mem_ptr vm')) pml4_p v of None \<Rightarrow> v | Some p \<Rightarrow> p)"
    using virt_to_phys_translate [OF s] unfolding c
    by (intro allI) (simp only: t [unfolded tables_intact_def, symmetric])
  from that [OF r [unfolded st(1)] s w t [unfolded tables_intact_def]] show thesis .
qed

lemma boot_modules_loaded:
  fixes new_vm :: "'k vm res"
  assumes "boot_modules U obj files path new_vm = Ok ms"
  obtains vm0 vm2 :: "'k vm" where "load_directory U obj files vm0 path KRNL_PBASE 0xFFFFF80000200000 [] = Ok (ms, vm2)"
  using assms by (auto simp: boot_modules_def)

lemma hal_base_of_boot:
  fixes new_vm :: "'k vm res"
  assumes "boot_modules U obj files path new_vm = Ok ms"
  shows "v_base (ms ! 1) = 0xFFFFF80002000000"
proof -
  obtain vm0 vm2 :: "'k vm" where ld: "load_directory U obj files vm0 path KRNL_PBASE 0xFFFFF80000200000 [] = Ok (ms, vm2)"
    by (rule boot_modules_loaded [OF assms])
  show ?thesis by (rule load_directory_modules [OF ld]) (auto simp: essentials_def)
qed

section \<open>A boot from start to end\<close>

text \<open>A directory \<open>d\<close> of small files: the four essential modules, the drivers of the given names, the hive and the
  tables are 256 zero bytes each, and the API-set schema is as given.\<close>

definition site_fs :: "u8 list res \<Rightarrow> rstring list \<Rightarrow> filesystem" where
  "site_fs schema names = \<lparr>fs_read = (\<lambda>p. if p = lit ''d/apisetschema.dll'' then schema else Ok (replicate 256 0)),
     fs_read_dir = (\<lambda>_. Ok (map (\<lambda>n. Ok (site_entry n)) names))\<rparr>"

abbreviation booted_mods :: "rstring list \<Rightarrow> loaded_module list" where
  "booted_mods \<equiv> site_mods (replicate 256 0) 0xFFFFF80000200000"

text \<open>What the names and the schema of such a directory have to be.\<close>

definition good_names :: "rstring list \<Rightarrow> bool" where
  "good_names names \<longleftrightarrow> length names \<le> 100 \<and> sort_key (\<lambda>e. map unat (de_name e)) (map site_entry names) = map site_entry names \<and>
     list_all (\<lambda>n. driver_name n \<and> n \<noteq> lit ''apisetschema.dll'' \<and> length n \<le> 100) names"

definition good_schema :: "u8 list res \<Rightarrow> bool" where
  "good_schema schema \<longleftrightarrow> (case schema of Ok d \<Rightarrow> 0x2000 \<le> length d \<and> length d \<le> 0x3F00000 | Err e \<Rightarrow> True | Panic \<Rightarrow> False)"

lemma site_driver_facts:
  assumes "m \<in> set (site_drivers bytes pb vb names)" and "unat vb + 0x200000 * length names \<le> 0xFFFFF90000000000"
  shows "mod_pe m = bare_pe bytes \<and> mod_size m = 0x2000 \<and> mod_name m \<in> set names \<and> unat (v_base m) \<le> 0xFFFFF90000000000"
  using assms
proof (induction names arbitrary: pb vb)
  case (Cons n ns)
  have "unat (vb + 0x200000) = unat vb + 0x200000" using Cons.prems(2) by (simp add: near_addr)
  then show ?case using Cons.IH [of "pb + 0x200000" "vb + 0x200000"] Cons.prems by (auto simp: site_module_def)
qed simp

lemma length_site_drivers [simp]: "length (site_drivers bytes pb vb names) = length names"
  by (induction names arbitrary: pb vb) simp_all

lemma site_mod_facts:
  assumes "m \<in> set (booted_mods names)" and "length names \<le> 100"
  shows "mod_pe m = bare_pe (replicate 256 0)" "mod_size m = 0x2000"
    "mod_name m \<in> {lit ''ntoskrnl.exe'', lit ''hal.dll'', lit ''kd.dll'', lit ''kdcom.dll''} \<union> set names"
    "unat (v_base m) \<le> 0xFFFFF90000000000"
  using assms site_driver_facts [of m "replicate 256 0" "0x2600000" "0xFFFFF80040000000" names]
  by (auto simp: site_mods_def site_module_def)

lemma length_booted_mods: "length (booted_mods names) = 4 + length names"
  by (simp add: site_mods_def)

lemma booted_mods_nth:
  "booted_mods names ! 0 = site_module (replicate 256 0) (lit ''ntoskrnl.exe'') 0xFFFFF80000200000 0x200000"
  "booted_mods names ! 1 = site_module (replicate 256 0) (lit ''hal.dll'') 0xFFFFF80002000000 0x2000000"
  "booted_mods names ! 2 = site_module (replicate 256 0) (lit ''kd.dll'') 0xFFFFF80000600000 0x2200000"
  by (simp_all add: site_mods_def)

lemma site_load:
  assumes "good_names names"
  shows "\<exists>vm'. load_directory no_unicode bare_obj (site_fs schema names) vm (lit ''d'') KRNL_PBASE 0xFFFFF80000200000 [] =
    Ok (booted_mods names, vm')"
proof -
  have p: "full_path (lit ''d'') n = lit ''d/apisetschema.dll'' \<longleftrightarrow> n = lit ''apisetschema.dll''" for n
    by (simp add: full_path_def lit_def)
  have ne: "\<forall>n\<in>set (map fst (essentials 0)) \<union> set names. n \<noteq> lit ''apisetschema.dll''"
    using assms by (auto simp: good_names_def list_all_iff essentials_def lit_def)
  have "\<forall>n\<in>set (map fst (essentials 0)) \<union> set names. fs_read (site_fs schema names) (full_path (lit ''d'') n) = Ok (replicate 256 0)"
    using ne by (simp add: site_fs_def p)
  moreover have "fs_read_dir (site_fs schema names) (lit ''d'') = Ok (map Ok (map site_entry names))" by (simp add: site_fs_def)
  ultimately show ?thesis
    using site_load_directory [of names "site_fs schema names" "lit ''d''" "replicate 256 0" "0xFFFFF80000200000" "map site_entry names" vm]
      assms by (auto simp: good_names_def list_all_iff KRNL_PBASE_def)
qed

lemma from_le_zeros: "from_le (replicate n 0) = 0"
  by (induction n) simp_all

lemma site_slots:
  assumes "m \<in> set (booted_mods names)" and "length names \<le> 100"
  shows "bind_module U ms m vm = Ok vm" and "module_slots U ms m = []"
proof -
  have "get_imports (mod_pe m) = Ok []"
    unfolding site_mod_facts(1) [OF assms]
    by (simp add: bare_pe_def get_imports_def get_data_directory_def rd_u32_def slice_r_def from_le_zeros Let_def)
  then show "bind_module U ms m vm = Ok vm" "module_slots U ms m = []" by (simp_all add: bind_module_def module_slots_def)
qed

lemma site_bind:
  assumes "length names \<le> 100"
  shows "bind_all no_unicode (booted_mods names) vm = Ok vm" "iat_slots no_unicode (booted_mods names) = []"
proof -
  have "for_r (bind_module no_unicode (booted_mods names)) ms vm = Ok vm" if "set ms \<subseteq> set (booted_mods names)" for ms
    using that by (induction ms) (simp_all add: site_slots(1) [OF _ assms])
  then show "bind_all no_unicode (booted_mods names) vm = Ok vm" by (simp add: bind_all_def)
  show "iat_slots no_unicode (booted_mods names) = []" unfolding iat_slots_def by (simp add: site_slots(2) [OF _ assms])
qed

lemma length_name_bytes_le: "length (name_bytes n) \<le> 4 * length n"
proof -
  have "length (encode_utf16 n) \<le> 2 * length n" by (induction n) (auto simp: encode_utf16_def utf16_units_def)
  then show ?thesis by (simp add: length_name_bytes)
qed

lemma site_fits:
  assumes "good_names names"
  shows "list_all fits (booted_mods names)"
proof -
  have n: "length names \<le> 100" "\<And>n. n \<in> set names \<Longrightarrow> length n \<le> 100" using assms by (auto simp: good_names_def list_all_iff)
  have "fits m" if m: "m \<in> set (booted_mods names)" for m
  proof -
    have "length (mod_name m) \<le> 100" using site_mod_facts(3) [OF m n(1)] n(2) by (auto simp: lit_def)
    then have "length (name_bytes (mod_name m)) \<le> 0xEB0" using length_name_bytes_le [of "mod_name m"] by simp
    then show ?thesis using site_mod_facts(2,4) [OF m n(1)] by (simp add: fits_def)
  qed
  then show ?thesis by (simp add: list_all_iff)
qed

lemma site_sized:
  assumes "good_names names" and "good_schema schema"
  shows "boot_sized no_unicode (site_fs schema names) (lit ''d'') (booted_mods names)"
proof -
  have "length names \<le> 100" using assms(1) by (simp add: good_names_def)
  then show ?thesis
    using site_fits [OF assms(1)] site_bind [of names] assms(2)
    by (auto simp: boot_sized_def length_booted_mods slots_clear_def clear_of_def small_file_def site_fs_def good_schema_def split: res.splits)
qed

lemma apiset_done:
  assumes "good_schema schema"
  shows "\<exists>vm'. (case schema of Ok apiset_buf \<Rightarrow> setup_apiset apiset_buf vm | Err _ \<Rightarrow> Ok vm | Panic \<Rightarrow> Panic) = Ok vm'"
proof (cases schema)
  case (Ok d)
  then have d: "0x2000 \<le> length d" "length d \<le> 0x3F00000" using assms by (simp_all add: good_schema_def)
  obtain v1 where 1: "wr_ok apiset_p d vm = Ok v1"
    using wr_ok_total [of apiset_p d vm] d by (auto simp: apiset_p_def layout_defs)
  have "unat (of_nat (length d) :: u32) = length d" using d by (simp add: unsigned_of_nat take_bit_nat_eq_self)
  then have 2: "sub_chk (of_nat (length d)) 0x2000 = Ok (of_nat (length d) - 0x2000 :: u32)" using d by (simp add: sub_chk_def)
  have "\<exists>v2. ok_or_keep v1 (set_apiset v1 ext_p (apiset_v + 0x2000) n) = Ok v2" for n
    by (simp add: set_apiset_def ext_p_def OFFSET_IN_LPB_def layout_defs add_chk_def write_memory_ok MEM_SIZE_def)
  then show ?thesis by (simp add: Ok setup_apiset_def 1 2)
qed (use assms in \<open>simp_all add: good_schema_def\<close>)

lemma nls_done:
  assumes "length ansi \<le> 0x3F00000" and "length oem \<le> 0x3F00000"
  shows "\<exists>vm'. setup_nls ansi oem vm = Ok vm'"
proof -
  obtain v1 where 1: "wr_ok (nls_p_base + 0x1000) ansi vm = Ok v1" using wr_ok_total [of _ ansi vm] assms nls_places by fastforce
  obtain v2 where 2: "wr_ok (nls_p_base + 0x11000) oem v1 = Ok v2" using wr_ok_total [of _ oem v1] assms nls_places by fastforce
  obtain v3 where 3: "wr_ok (nls_p_base + 0x21000) generate_windows_upcase_table v2 = Ok v3"
    using wr_ok_total [of "nls_p_base + 0x21000" generate_windows_upcase_table v2] nls_places length_upcase_table by auto
  obtain v4 where 4: "wr_ok nls_p_base nls_image v3 = Ok v4" using wr_ok_total [of nls_p_base nls_image v3] nls_places length_nls_image by auto
  show ?thesis by (simp add: setup_nls_def 1 2 3 4)
qed

lemma gdt_done: "\<exists>vm'. setup_gdt vm = Ok vm'"
proof -
  have len: "length boot_gdt = 32" by (simp add: boot_gdt_def Let_def)
  have "\<exists>vm'. (case x of (i, e) \<Rightarrow> wr_ok (SYSTEM_BASE + of_nat i * 8) (le64 e)) vm = Ok vm'"
    if "x \<in> set (enumerate 0 boot_gdt)" for x and vm :: "'a vm"
  proof -
    obtain i e where x: "x = (i, e)" by force
    have "i < 32" using that len by (simp add: x in_set_enumerate_eq)
    then have "unat (SYSTEM_BASE + of_nat i * 8 :: u64) + 8 < 2 ^ 64"
      by (simp add: layout_defs unat_word_ariths unsigned_of_nat take_bit_nat_eq_self)
    then show ?thesis using wr_ok_total [of "SYSTEM_BASE + of_nat i * 8" "le64 e" vm] by (simp add: x)
  qed
  from for_r_total [of "enumerate 0 boot_gdt", OF this]
  show ?thesis by (simp add: setup_gdt_def write_memory_ok MEM_SIZE_def layout_defs)
qed

lemma site_modules:
  assumes "good_names names"
  shows "boot_modules no_unicode bare_obj (site_fs schema names) (lit ''d'') (Ok vm) = Ok (booted_mods names)"
proof -
  obtain d where d: "kuser_page = Ok d" "length d = 4096"
    by (simp add: kuser_page_def edit_def put_slice_def)
  obtain v1 where v: "wr_ok KUSER_PBASE d vm = Ok v1"
    using wr_ok_total [of KUSER_PBASE d vm] d by (auto simp: layout_defs)
  show ?thesis
    unfolding boot_modules_def bind_r.simps d v using site_load [OF assms, of schema v1] by auto
qed

lemma site_boot:
  assumes "good_names names" and "good_schema schema"
  shows "\<exists>vm'. boot no_unicode bare_obj (site_fs schema names) (lit ''d'') (Ok vm) = Ok (0xFFFFF80000200010, vm')"
proof -
  let ?z = "replicate 256 0 :: u8 list" and ?ms = "booted_mods names" and ?fs = "site_fs schema names"
  have n: "length names \<le> 100" "length ?ms \<le> 0x10000" "?ms \<noteq> []"
    using assms(1) length_booted_mods [of names] by (auto simp: good_names_def)
  obtain d where d: "kuser_page = Ok d" "length d = 4096"
    by (simp add: kuser_page_def edit_def put_slice_def)
  obtain v1 where v1: "wr_ok KUSER_PBASE d vm = Ok v1"
    using wr_ok_total [of KUSER_PBASE d vm] d by (auto simp: layout_defs)
  obtain v2 where v2: "load_directory no_unicode bare_obj ?fs v1 (lit ''d'') KRNL_PBASE 0xFFFFF80000200000 [] = Ok (?ms, v2)"
    using site_load [OF assms(1)] by blast
  obtain v3 where v3: "write_memory v2 mm_pte_base_paddr (le64 pte_base_vaddr) = Ok v3"
    by (simp add: mm_pte_base_paddr_def layout_defs write_memory_ok MEM_SIZE_def)
  obtain v4 where v4: "setup_kernel_paging v3 (v_base (?ms ! 0)) (v_base (?ms ! 1)) = Ok v4"
    by (simp add: setup_kernel_paging_mem booted_mods_nth site_module_def)
  obtain v5 where v5: "write_memory v4 hive_p ?z = Ok v5"
    by (simp add: hive_p_def write_memory_ok MEM_SIZE_def)
  obtain v6 where v6: "setup_nls ?z ?z v5 = Ok v6" using nls_done [of ?z ?z v5] by auto
  obtain v7 where v7: "setup_blocks 256 v6 = Ok v7" using setup_blocks_frame by blast
  obtain v7' where v7': "(case schema of Ok apiset_buf \<Rightarrow> setup_apiset apiset_buf v7 | Err _ \<Rightarrow> Ok v7 | Panic \<Rightarrow> Panic) = Ok v7'"
    using apiset_done [OF assms(2)] by blast
  obtain v8 where v8: "register_modules ?ms v7' = Ok v8"
    using register_modules_entries [of 0 ?ms v7'] n(2) site_fits [OF assms(1)] by (auto simp: register_modules_def)
  obtain v9 where v9: "link_hal_ext (hal_ext_nodes no_unicode ?ms) v8 = Ok v9"
    using link_hal_ext_modules [OF n(2), of no_unicode v8] by auto
  obtain v10 where v10: "link_modules (module_nodes ?ms) v9 = Ok v10" using link_modules_done [OF n(3,2), of v9] by auto
  obtain v11 where v11: "setup_gdt v10 = Ok v11" using gdt_done by blast
  obtain v12 where v12: "setup_descriptors 256 v11 = Ok v12" by (simp add: setup_descriptors_mem)
  obtain v13 where v13: "setup_diagnostic_idt v12 = Ok v13"
    using idt_upto [of 256 v12] by (auto simp: setup_diagnostic_idt_def)
  have f: "fs_read ?fs (lit ''d'' @ lit ''/config/SYSTEM'') = Ok ?z" "fs_read ?fs (lit ''d'' @ lit ''/C_1252.NLS'') = Ok ?z"
    "fs_read ?fs (lit ''d'' @ lit ''/C_437.NLS'') = Ok ?z" "fs_read ?fs (lit ''d'' @ lit ''/apisetschema.dll'') = schema"
    by (simp_all add: site_fs_def lit_def)
  have g: "get_r ?ms 0 = Ok (?ms ! 0)" "get_r ?ms 1 = Ok (?ms ! 1)" "mod_entry (?ms ! 0) = 0xFFFFF80000200010"
    by (simp_all add: get_r_def length_booted_mods booted_mods_nth site_module_def)
  show ?thesis
    unfolding boot_def expect_r.simps bind_r.simps d v1 v2 prod.case g v3 v4 f v5 v6 Let_def length_replicate
    by (simp add: v7 v7' v8 v9 v10 site_bind(1) [OF n(1)] v11 v12 v13)
qed

text \<open>The smallest such directory: the essential modules alone, and no schema.\<close>

definition boot_fs :: filesystem where
  "boot_fs = site_fs (Err ''No such file'') []"

definition boot_mods :: "loaded_module list" where
  "boot_mods = booted_mods []"

lemma no_drivers: "good_names []" "good_schema (Err e)"
  by (simp_all add: good_names_def good_schema_def)

lemma boot_modules_done: "boot_modules no_unicode bare_obj boot_fs (lit ''d'') (Ok vm) = Ok boot_mods"
  unfolding boot_fs_def boot_mods_def by (rule site_modules [OF no_drivers(1)])

lemma boot_mods_sized: "boot_sized no_unicode boot_fs (lit ''d'') boot_mods"
  unfolding boot_fs_def boot_mods_def by (rule site_sized [OF no_drivers])

lemma boot_done: "\<exists>vm'. boot no_unicode bare_obj boot_fs (lit ''d'') (Ok vm) = Ok (0xFFFFF80000200010, vm')"
  unfolding boot_fs_def by (rule site_boot [OF no_drivers])

lemmas boot_mods_simps = boot_mods_def booted_mods_nth site_module_def bare_pe_def

lemma long_mode_done: "\<exists>vm'. setup_long_mode plain_vcpu vm e stack_v LPB_VBASE = Ok vm'"
  by (cases "kvm_fd vm") (simp add: setup_long_mode_def add_chk_def sub_chk_def on_kvm_def write_memory_ok MEM_SIZE_def
      length_concat_le64 gdt_facts put_slice_def Let_def stack_v_def layout_defs)

lemma boot_and_start_done:
  "\<exists>vm'. boot_and_start plain_vcpu no_unicode bare_obj boot_fs (lit ''d'') (Ok vm) = Ok vm'"
  using boot_done [of vm] long_mode_done by (fastforce simp: boot_and_start_def)

end
