(* ===== verification/Traces.thy ===== *)
theory Traces
  imports Main
begin

text \<open>
  Executions of labelled step relations: the debugger's calls, the sessions of the GDB server and the threads of the
  WinDbg bridge are all sequences of atomic actions on a state. The two locales are the contracts under which a fact
  about single steps carries over to executions.
\<close>

inductive steps :: "('a \<Rightarrow> 's \<Rightarrow> 's \<Rightarrow> bool) \<Rightarrow> 'a list \<Rightarrow> 's \<Rightarrow> 's \<Rightarrow> bool" for step where
  stop: "steps step [] s s"
| go: "step a s t \<Longrightarrow> steps step acts t u \<Longrightarrow> steps step (a # acts) s u"

inductive_simps steps_Nil [simp]: "steps step [] s u"
inductive_simps steps_Cons [simp]: "steps step (a # acts) s u"

lemma steps_append [simp]: "steps step (xs @ ys) s u \<longleftrightarrow> (\<exists>t. steps step xs s t \<and> steps step ys t u)"
  by (induction xs arbitrary: s) auto

lemma steps_snoc: "steps step acts s t \<Longrightarrow> step a t u \<Longrightarrow> steps step (acts @ [a]) s u"
  by auto

text \<open>Induction from the last action backwards.\<close>

lemma steps_induct_last [consumes 1, case_names start more]:
  assumes "steps step acts s u" and "P [] s"
    and "\<And>acts t a u. \<lbrakk>steps step acts s t; P acts t; step a t u\<rbrakk> \<Longrightarrow> P (acts @ [a]) u"
  shows "P acts u"
  using assms(1)
proof (induction acts arbitrary: u rule: rev_induct)
  case (snoc a acts)
  then obtain t where "steps step acts s t" "step a t u" by auto
  then show ?case using assms(3) snoc.IH by blast
qed (use assms(2) in simp)

text \<open>A part of the state whose change is determined by the action alone.\<close>

locale tracked =
  fixes step :: "'a \<Rightarrow> 's \<Rightarrow> 's \<Rightarrow> bool" and part :: "'s \<Rightarrow> 't" and effect :: "'a \<Rightarrow> 't \<Rightarrow> 't"
  assumes step_effect: "step a s t \<Longrightarrow> part t = effect a (part s)"
begin

lemma steps_effect: "steps step acts s t \<Longrightarrow> part t = fold effect acts (part s)"
  by (induction rule: steps.induct) (auto simp: step_effect)

end

text \<open>A part of the state that some of the actions leave alone.\<close>

locale kept_by =
  fixes step :: "'a \<Rightarrow> 's \<Rightarrow> 's \<Rightarrow> bool" and part :: "'s \<Rightarrow> 't" and quiet :: "'a \<Rightarrow> bool"
  assumes quiet_step: "quiet a \<Longrightarrow> step a s t \<Longrightarrow> part t = part s"
begin

lemma quiet_steps: "list_all quiet acts \<Longrightarrow> steps step acts s t \<Longrightarrow> part t = part s"
  by (induction acts arbitrary: s) (auto simp: quiet_step)

end

end
