(* ===== verification/EventLoop.thy ===== *)
theory EventLoop
  imports Cpu Traces
begin

unbundle bit_operations_syntax

text \<open>
  The event loop of \<open>src/cpu.rs\<close>, which runs the guest until the debugger has to be told something. KVM and
  the connection are parameters: what a run of the processor does to the guest's memory and exits with,
  what the connection holds and what the clock shows come as inputs of each round. The loop touches guest
  memory only in the clock page, and every way in which a wait can end is characterised: which round ends it
  and with which event, error or panic.
\<close>

section \<open>The event loop\<close>

datatype vcpu_exit =
    Debug
  | IrqWindowOpen
  | IoIn u16 "u8 list"
  | IoOut u16 "u8 list"
  | MmioRead u64 "u8 list"
  | MmioWrite u64 "u8 list"
  | Hlt
  | Shutdown
  | OtherExit

datatype signal = SIGTRAP | SIGSEGV | SIGINT

datatype gdb_event = IncomingData u8 | DoneStep | Signal signal

text \<open>What a round of the loop takes from outside: the byte waiting on the connection (or the error), the
  clock, whether a byte sent to WinDbg goes out, and what the threads of the WinDbg bridge did to the state they
  share with the loop since the last round: the bytes they queued, and the stream they put in place, if any. A round
  takes the lock of that state once at most, so all of it happens before.\<close>

record round_input =
  in_peek :: "u8 option res"
  in_read :: "u8 res"
  in_now :: nat
  in_sent :: bool
  in_bytes :: "u8 list"
  in_stream :: "tcp_stream option option"

definition bridge_turn :: "round_input \<Rightarrow> devices \<Rightarrow> devices" where
  "bridge_turn inp dev = dev\<lparr>SERIAL_IN_QUEUE := SERIAL_IN_QUEUE dev @ in_bytes inp,
     WINDBG_STREAM := (case in_stream inp of None \<Rightarrow> WINDBG_STREAM dev | Some s \<Rightarrow> s)\<rparr>"

text \<open>The KVM calls of the loop: asking for an interrupt window, running the processor, which may change the
  guest's memory, and handing the bytes of an input exit back to it.\<close>

record 'k run_ops =
  request_window :: "'k \<Rightarrow> 'k"
  vcpu_run :: "'k \<Rightarrow> (nat \<Rightarrow> u8) \<Rightarrow> (vcpu_exit \<times> 'k \<times> (nat \<Rightarrow> u8)) res"
  put_data :: "u8 list \<Rightarrow> 'k \<Rightarrow> 'k"

record 'k loop_state =
  lp_vm :: "'k vm"
  lp_dev :: devices
  loop_count :: u64
  last_tick :: nat
  console :: rstring

text \<open>The timer of a round: every ten milliseconds the clock page is updated, and when the guest has
  interrupts enabled line 2 is pulsed.\<close>

definition tick :: "'k vcpu_ops \<Rightarrow> nat \<Rightarrow> 'k loop_state \<Rightarrow> 'k loop_state res" where
  "tick K now st =
     (if now - last_tick st \<ge> 10000000 then
        bind_r (update_windows_time (lp_vm st) (loop_count st)) (\<lambda>vm.
        bind_r (case get_regs K (kvm_fd vm) of
                  Panic \<Rightarrow> Panic
                | Err e \<Rightarrow> Ok vm
                | Ok r \<Rightarrow>
                    if rflags r AND 0x200 \<noteq> 0 then
                      bind_r (ok_or_keep vm (on_kvm (set_irq_line K 2 True) vm)) (\<lambda>vm.
                      ok_or_keep vm (on_kvm (set_irq_line K 2 False) vm))
                    else Ok vm) (\<lambda>vm.
        Ok (st\<lparr>lp_vm := vm, last_tick := now\<rparr>)))
      else Ok st)"

definition reply :: "'k run_ops \<Rightarrow> u8 list \<Rightarrow> 'k loop_state \<Rightarrow> 'k loop_state" where
  "reply R d st = st\<lparr>lp_vm := (lp_vm st)\<lparr>kvm_fd := put_data R d (kvm_fd (lp_vm st))\<rparr>\<rparr>"

definition handle_exit ::
  "'k vcpu_ops \<Rightarrow> 'k run_ops \<Rightarrow> round_input \<Rightarrow> vcpu_exit \<Rightarrow> 'k loop_state \<Rightarrow> ('k loop_state \<times> gdb_event option) res" where
  "handle_exit K R inp ex st =
     (case ex of
        Debug \<Rightarrow> Ok (st, Some DoneStep)
      | IrqWindowOpen \<Rightarrow> Ok (st, None)
      | IoIn addr data \<Rightarrow>
          bind_r (serial_in addr data (lp_dev st)) (\<lambda>(d, dev). Ok (reply R d (st\<lparr>lp_dev := dev\<rparr>), None))
      | IoOut addr data \<Rightarrow>
          bind_r (get_r data 0) (\<lambda>val.
          if addr = 0xF9 then
            bind_r (ok_or_keep (lp_vm st) (handle_diagnostic_trap K (lp_vm st) val)) (\<lambda>vm.
            Ok (st\<lparr>lp_vm := vm, console := console st @ trap_output K (lp_vm st) val\<rparr>, Some (Signal SIGTRAP)))
          else if addr = 0x3F8 then
            Ok (st\<lparr>console := console st @ [unat val], lp_dev := windbg_send (in_sent inp) val (lp_dev st)\<rparr>, None)
          else Ok (st, None))
      | MmioRead addr data \<Rightarrow>
          bind_r (handle_mmio_read (lp_dev st) (in_now inp) addr data (loop_count st)) (\<lambda>d. Ok (reply R d st, None))
      | MmioWrite addr data \<Rightarrow>
          bind_r (handle_mmio_write addr data (lp_dev st)) (\<lambda>dev. Ok (st\<lparr>lp_dev := dev\<rparr>, None))
      | Hlt \<Rightarrow> Ok (st, None)
      | Shutdown \<Rightarrow> Ok (st, Some (Signal SIGSEGV))
      | OtherExit \<Rightarrow> Ok (st, Some (Signal SIGTRAP)))"

definition loop_round ::
  "'k vcpu_ops \<Rightarrow> 'k run_ops \<Rightarrow> round_input \<Rightarrow> 'k loop_state \<Rightarrow> ('k loop_state \<times> gdb_event option) res" where
  "loop_round K R inp st =
     bind_r (add_chk (loop_count st) 1) (\<lambda>n.
     let st = st\<lparr>loop_count := n, lp_dev := bridge_turn inp (lp_dev st)\<rparr>
     in bind_r (in_peek inp) (\<lambda>pending.
        case pending of
          Some byte \<Rightarrow> bind_r (in_read inp) (\<lambda>b. Ok (st, Some (IncomingData byte)))
        | None \<Rightarrow>
            bind_r (tick K (in_now inp) st) (\<lambda>st.
            let st = st\<lparr>lp_vm := (lp_vm st)\<lparr>kvm_fd := request_window R (kvm_fd (lp_vm st))\<rparr>\<rparr>
            in (case vcpu_run R (kvm_fd (lp_vm st)) (mem_ptr (lp_vm st)) of
                  Panic \<Rightarrow> Panic
                | Err e \<Rightarrow> Err ''KVM Run Error''
                | Ok (ex, k, m) \<Rightarrow> handle_exit K R inp ex (st\<lparr>lp_vm := (lp_vm st)\<lparr>kvm_fd := k, mem_ptr := m\<rparr>\<rparr>)))))"

text \<open>The loop over the rounds whose inputs are given; it has no bound of its own, so its result says
  whether an event came up within these rounds.\<close>

fun wait_for_stop_reason ::
  "'k vcpu_ops \<Rightarrow> 'k run_ops \<Rightarrow> round_input list \<Rightarrow> 'k loop_state \<Rightarrow> ('k loop_state \<times> gdb_event option) res" where
  "wait_for_stop_reason K R [] st = Ok (st, None)"
| "wait_for_stop_reason K R (inp # inps) st =
     bind_r (loop_round K R inp st) (\<lambda>(st, ev).
     case ev of Some e \<Rightarrow> Ok (st, Some e) | None \<Rightarrow> wait_for_stop_reason K R inps st)"

definition on_interrupt :: "gdb_event option" where
  "on_interrupt = Some (Signal SIGINT)"

text \<open>The state a call of \<open>wait_for_stop_reason\<close> starts with, its counters fresh.\<close>

definition enter_loop :: "nat \<Rightarrow> 'k vm \<Rightarrow> devices \<Rightarrow> rstring \<Rightarrow> 'k loop_state" where
  "enter_loop now vm dev out = \<lparr>lp_vm = vm, lp_dev = dev, loop_count = 0, last_tick = now, console = out\<rparr>"

section \<open>What a round writes\<close>

text \<open>Only the clock page, beside what the guest writes itself: a byte that no run of the processor changes
  is the same after a round, whatever the exit.\<close>

definition guest_keeps :: "'k run_ops \<Rightarrow> nat \<Rightarrow> bool" where
  "guest_keeps R a \<longleftrightarrow> (\<forall>k m ex k' m'. vcpu_run R k m = Ok (ex, k', m') \<longrightarrow> m' a = m a)"

lemma guest_keepsD: "guest_keeps R a \<Longrightarrow> vcpu_run R k m = Ok (ex, k', m') \<Longrightarrow> m' a = m a"
  by (auto simp: guest_keeps_def)

lemma put_regs_mem: "put_regs K r vm = Ok vm' \<Longrightarrow> mem_ptr vm' = mem_ptr vm"
  by (auto simp: put_regs_def)

lemma dump_mem: "dump_all_registers K vm = Ok vm' \<Longrightarrow> vm' = vm"
  by (auto simp: dump_all_registers_def)

lemma trap_mem: "handle_diagnostic_trap K vm v = Ok vm' \<Longrightarrow> mem_ptr vm' = mem_ptr vm"
  by (auto simp: handle_diagnostic_trap_def Let_def dest: put_regs_mem dump_mem split: option.splits if_splits)

lemma tick_mem:
  assumes "tick K now st = Ok st'" and "a < 0x9000008 \<or> 0x9000020 \<le> a"
  shows "mem_ptr (lp_vm st') a = mem_ptr (lp_vm st) a"
proof (cases "now - last_tick st \<ge> 10000000")
  case True
  with assms(1) obtain vm vm2 where u: "update_windows_time (lp_vm st) (loop_count st) = Ok vm"
    and k: "(case get_regs K (kvm_fd vm) of Panic \<Rightarrow> Panic | Err e \<Rightarrow> Ok vm
      | Ok r \<Rightarrow> if rflags r AND 0x200 \<noteq> 0 then bind_r (ok_or_keep vm (on_kvm (set_irq_line K 2 True) vm)) (\<lambda>vm.
          ok_or_keep vm (on_kvm (set_irq_line K 2 False) vm)) else Ok vm) = Ok vm2"
    and st': "st' = st\<lparr>lp_vm := vm2, last_tick := now\<rparr>"
    by (auto simp: tick_def)
  have "mem_ptr vm2 = mem_ptr vm"
    using k by (auto split: res.splits if_splits dest!: ok_or_keep_mem dest: on_kvm_mem)
  then show ?thesis using update_windows_time_frame [OF u assms(2)] st' by simp
qed (use assms in \<open>simp add: tick_def\<close>)

lemma handle_exit_mem:
  "handle_exit K R inp ex st = Ok (st', ev) \<Longrightarrow> mem_ptr (lp_vm st') = mem_ptr (lp_vm st)"
  by (cases ex) (auto simp: handle_exit_def reply_def dest!: ok_or_keep_mem dest: trap_mem split: if_splits)

text \<open>A round either hands over a waiting byte or runs the guest once.\<close>

lemma loop_round_cases:
  assumes "loop_round K R inp st = Ok (st', ev)"
  obtains (byte) b c where "in_peek inp = Ok (Some b)" "in_read inp = Ok c" "ev = Some (IncomingData b)"
      "unat (loop_count st) + 1 < 2 ^ 64" "st' = st\<lparr>loop_count := loop_count st + 1, lp_dev := bridge_turn inp (lp_dev st)\<rparr>"
  | (run) st1 ex k m where "in_peek inp = Ok None" "unat (loop_count st) + 1 < 2 ^ 64"
      "tick K (in_now inp) (st\<lparr>loop_count := loop_count st + 1, lp_dev := bridge_turn inp (lp_dev st)\<rparr>) = Ok st1"
      "vcpu_run R (request_window R (kvm_fd (lp_vm st1))) (mem_ptr (lp_vm st1)) = Ok (ex, k, m)"
      "handle_exit K R inp ex (st1\<lparr>lp_vm := (lp_vm st1)\<lparr>kvm_fd := k, mem_ptr := m\<rparr>\<rparr>) = Ok (st', ev)"
proof -
  from assms obtain pending where p: "in_peek inp = Ok pending" and n: "unat (loop_count st) + 1 < 2 ^ 64"
    by (auto simp: loop_round_def Let_def add_chk_Ok_iff)
  then have add: "add_chk (loop_count st) 1 = Ok (loop_count st + 1)" by (simp add: add_chk_def)
  show thesis
  proof (cases pending)
    case None
    from assms p None add obtain st1 where t: "tick K (in_now inp) (st\<lparr>loop_count := loop_count st + 1, lp_dev := bridge_turn inp (lp_dev st)\<rparr>) = Ok st1"
      by (auto simp: loop_round_def Let_def)
    then obtain ex k m where "vcpu_run R (request_window R (kvm_fd (lp_vm st1))) (mem_ptr (lp_vm st1)) = Ok (ex, k, m)"
      "handle_exit K R inp ex (st1\<lparr>lp_vm := (lp_vm st1)\<lparr>kvm_fd := k, mem_ptr := m\<rparr>\<rparr>) = Ok (st', ev)"
      using assms p None add
      by (cases "vcpu_run R (request_window R (kvm_fd (lp_vm st1))) (mem_ptr (lp_vm st1))") (auto simp: loop_round_def Let_def)
    then show ?thesis using run p None n t by blast
  next
    case (Some b)
    then show ?thesis using byte assms p n add by (auto simp: loop_round_def Let_def)
  qed
qed

lemma loop_round_mem:
  assumes "loop_round K R inp st = Ok (st', ev)" and "a < 0x9000008 \<or> 0x9000020 \<le> a" and "guest_keeps R a"
  shows "mem_ptr (lp_vm st') a = mem_ptr (lp_vm st) a"
  using assms(1)
proof (cases rule: loop_round_cases)
  case (run st1 ex k m)
  then show ?thesis using tick_mem [OF run(3) assms(2)] handle_exit_mem [OF run(5)] guest_keepsD [OF assms(3) run(4)] by simp
qed simp

lemma wait_mem:
  "wait_for_stop_reason K R inps st = Ok (st', ev) \<Longrightarrow> a < 0x9000008 \<or> 0x9000020 \<le> a \<Longrightarrow> guest_keeps R a \<Longrightarrow>
   mem_ptr (lp_vm st') a = mem_ptr (lp_vm st) a"
  by (induction inps arbitrary: st) (auto dest!: loop_round_mem split: option.splits)

section \<open>Safety\<close>

text \<open>The event loop never touches the guest's memory outside the 24 bytes of the clock
  page, over any number of rounds and whatever the guest exits with: every other byte that the guest itself
  leaves alone is unchanged. And when it ends its rounds without an event, no byte was waiting from the
  debugger in any of them.\<close>

theorem event_loop_safe:
  assumes "wait_for_stop_reason K R inps st = Ok (st', ev)"
  shows "(\<forall>a. (a < 0x9000008 \<or> 0x9000020 \<le> a) \<and> guest_keeps R a \<longrightarrow> mem_ptr (lp_vm st') a = mem_ptr (lp_vm st) a) \<and>
    (ev = None \<longrightarrow> (\<forall>inp. inp \<in> set inps \<longrightarrow> in_peek inp = Ok None))"
proof -
  have "in_peek inp = Ok None" if "inp \<in> set inps" "ev = None" for inp
    using assms that
  proof (induction inps arbitrary: st)
    case (Cons i inps)
    then obtain s1 where "loop_round K R i st = Ok (s1, None)" "wait_for_stop_reason K R inps s1 = Ok (st', ev)"
      by (auto split: option.splits)
    then show ?case using Cons by (auto elim: loop_round_cases)
  qed simp
  then show ?thesis using wait_mem [OF assms] by auto
qed

text \<open>A guest that halts at once, under a loop with two rounds; in the second a byte is waiting.\<close>

definition halting :: "(kvm_regs \<times> kvm_sregs) run_ops" where
  "halting = \<lparr>request_window = id, vcpu_run = (\<lambda>k m. Ok (Hlt, k, m)), put_data = (\<lambda>d k. k)\<rparr>"

definition idle_loop :: "(kvm_regs \<times> kvm_sregs) loop_state" where
  "idle_loop = \<lparr>lp_vm = plain_vm sregs0, lp_dev = devices0, loop_count = 0, last_tick = 0, console = []\<rparr>"

theorem event_loop_safe_witness:
  "\<exists>st'. wait_for_stop_reason plain_vcpu halting
       [\<lparr>in_peek = Ok None, in_read = Ok 0, in_now = 20000000, in_sent = False, in_bytes = [], in_stream = None\<rparr>,
        \<lparr>in_peek = Ok (Some 3), in_read = Ok 3, in_now = 20000000, in_sent = False, in_bytes = [], in_stream = None\<rparr>] idle_loop =
       Ok (st', Some (IncomingData 3)) \<and> mem_ptr (lp_vm st') 0x8000000 = 0"
proof -
  let ?i = "[\<lparr>in_peek = Ok None, in_read = Ok 0, in_now = 20000000, in_sent = False, in_bytes = [], in_stream = None\<rparr>,
    \<lparr>in_peek = Ok (Some 3), in_read = Ok (3 :: u8), in_now = 20000000, in_sent = False, in_bytes = [], in_stream = None\<rparr>]"
  have "\<exists>st'. wait_for_stop_reason plain_vcpu halting ?i idle_loop = Ok (st', Some (IncomingData 3))"
    by (simp add: loop_round_def tick_def idle_loop_def halting_def handle_exit_def add_chk_def
        update_windows_time_mem regs0_def Let_def plain_vm_def)
  then obtain st' where s: "wait_for_stop_reason plain_vcpu halting ?i idle_loop = Ok (st', Some (IncomingData 3))"
    by blast
  have "mem_ptr (lp_vm st') 0x8000000 = mem_ptr (lp_vm idle_loop) 0x8000000"
    by (rule event_loop_safe [OF s, THEN conjunct1, rule_format]) (simp add: guest_keeps_def halting_def)
  then have "mem_ptr (lp_vm st') 0x8000000 = 0" by (simp add: idle_loop_def plain_vm_def)
  with s show ?thesis by blast
qed

section \<open>How a round ends\<close>

text \<open>What the loop relies on of KVM: its calls return, with a value or an error, and an exit for a port access
  carries at least one byte. A run of the processor may fail.\<close>

definition port_bytes :: "vcpu_exit \<Rightarrow> bool" where
  "port_bytes ex \<longleftrightarrow> (case ex of IoIn a d \<Rightarrow> d \<noteq> [] | IoOut a d \<Rightarrow> d \<noteq> [] | _ \<Rightarrow> True)"

definition kvm_returns :: "'k vcpu_ops \<Rightarrow> 'k run_ops \<Rightarrow> bool" where
  "kvm_returns K R \<longleftrightarrow>
     (\<forall>k. get_regs K k \<noteq> Panic \<and> get_sregs K k \<noteq> Panic \<and> (\<forall>r. set_regs K r k \<noteq> Panic) \<and>
        (\<forall>n b. set_irq_line K n b k \<noteq> Panic) \<and> (\<forall>is. get_msrs K is k \<noteq> Panic) \<and>
        (\<forall>m. vcpu_run R k m \<noteq> Panic \<and> (\<forall>ex k' m'. vcpu_run R k m = Ok (ex, k', m') \<longrightarrow> port_bytes ex)))"

lemma kvm_returnsD:
  assumes "kvm_returns K R"
  shows "get_regs K k \<noteq> Panic" "get_sregs K k \<noteq> Panic" "set_regs K r k \<noteq> Panic" "set_irq_line K n b k \<noteq> Panic"
    "vcpu_run R k m \<noteq> Panic" "get_msrs K is k \<noteq> Panic" "vcpu_run R k m = Ok (ex, k', m') \<Longrightarrow> port_bytes ex"
  using assms unfolding kvm_returns_def by blast+

lemma ok_or_keep_total: "m \<noteq> Panic \<Longrightarrow> \<exists>vm'. ok_or_keep vm m = Ok vm'"
  by (cases m) auto

lemma unwrap_read:
  assumes "unat p \<le> 2 * MEM_SIZE"
  shows "\<exists>v. unwrap_or 0 (safe_read_u64 vm p) = Ok v"
proof -
  have "add_chk p 8 = Ok (p + 8)" using assms by (simp add: add_chk_def MEM_SIZE_def)
  then show ?thesis by (simp add: safe_read_u64_def)
qed

lemma trap_no_panic:
  assumes "kvm_returns K R"
  shows "handle_diagnostic_trap K vm v \<noteq> Panic"
proof -
  have sk: "skip_cc vm r \<noteq> Panic" for r using skip_cc_spec [of vm r] by auto
  have d: "dump_all_registers K vm \<noteq> Panic"
    using kvm_returnsD(6) [OF assms]
    by (auto simp: dump_all_registers_def dump_output_def hex_dump_bytes_def bind_r_eq_Panic kvm_returnsD(1-3) [OF assms]
        split: res.splits)
  have p: "put_regs K r vm \<noteq> Panic" for r
    by (simp add: put_regs_def bind_r_eq_Panic kvm_returnsD [OF assms])
  have s: "\<exists>v. unwrap_or 0 (safe_read_u64 vm (SYSTEM_BASE + 0x60000)) = Ok v"
    "\<exists>v. unwrap_or 0 (safe_read_u64 vm (SYSTEM_BASE + 0x60000 + 8)) = Ok v"
    "\<exists>v. unwrap_or 0 (safe_read_u64 vm (SYSTEM_BASE + 0x60000 + 16)) = Ok v"
    by (rule unwrap_read; simp add: layout_defs MEM_SIZE_def)+
  have "handle_diagnostic_trap K vm v \<noteq> Panic" if r: "get_regs K (kvm_fd vm) = Ok r" for r
  proof (cases "dbg_virt_to_phys (rsp r)")
    case None
    then show ?thesis using d r by (simp add: handle_diagnostic_trap_def Let_def)
  next
    case (Some q)
    have q: "unat q < MEM_SIZE" by (rule dbg_phys_bound [OF Some])
    let ?o = "if has_error_code v then 8 else 0 :: u64"
    have f: "add_chk q ?o = Ok (q + ?o)" "unat (q + ?o) \<le> MEM_SIZE + 8"
      using q by (auto simp: add_chk_def MEM_SIZE_def unat_plus_lt)
    have g: "add_chk (q + ?o) 16 = Ok (q + ?o + 16)" "unat (q + ?o + 16) \<le> 2 * MEM_SIZE"
      "add_chk (q + ?o) 24 = Ok (q + ?o + 24)" "unat (q + ?o + 24) \<le> 2 * MEM_SIZE"
      using f(2) by (auto simp: add_chk_def MEM_SIZE_def unat_plus_lt)
    have h: "unat q \<le> 2 * MEM_SIZE" "unat (q + ?o) \<le> 2 * MEM_SIZE" using q f(2) by (simp_all add: MEM_SIZE_def)
    obtain e where e: "(if has_error_code v then unwrap_or 0 (safe_read_u64 vm q) else Ok 0) = Ok e"
      using unwrap_read [OF h(1), of vm] by (cases "has_error_code v") auto
    from s unwrap_read [OF h(2), of vm] unwrap_read [OF g(2), of vm] unwrap_read [OF g(4), of vm]
    show ?thesis
      unfolding handle_diagnostic_trap_def Let_def r Some bind_r.simps option.case e f(1) g(1,3)
      using d p sk by (auto simp: bind_r_eq_Panic)
  qed
  then show ?thesis using kvm_returnsD(1) [OF assms, of "kvm_fd vm"]
    by (cases "get_regs K (kvm_fd vm)") (auto simp: handle_diagnostic_trap_def Let_def)
qed

lemma tick_total:
  assumes "kvm_returns K R"
  shows "\<exists>st'. tick K now st = Ok st' \<and> lp_dev st' = lp_dev st \<and> loop_count st' = loop_count st"
proof (cases "now - last_tick st \<ge> 10000000")
  case True
  obtain vm where u: "update_windows_time (lp_vm st) (loop_count st) = Ok vm" by (simp add: update_windows_time_mem)
  have irq: "\<exists>vm2. ok_or_keep v (on_kvm (set_irq_line K 2 b) v) = Ok vm2" for v b
    by (rule ok_or_keep_total) (simp add: on_kvm_def bind_r_eq_Panic kvm_returnsD [OF assms])
  have "\<exists>vm2. (case get_regs K (kvm_fd vm) of Panic \<Rightarrow> Panic | Err e \<Rightarrow> Ok vm
      | Ok r \<Rightarrow> if rflags r AND 0x200 \<noteq> 0 then bind_r (ok_or_keep vm (on_kvm (set_irq_line K 2 True) vm)) (\<lambda>vm.
          ok_or_keep vm (on_kvm (set_irq_line K 2 False) vm)) else Ok vm) = Ok vm2"
    using kvm_returnsD(1) [OF assms, of "kvm_fd vm"] irq [of vm True] irq [of _ False]
    by (cases "get_regs K (kvm_fd vm)") (simp_all, blast)
  then show ?thesis using True u by (auto simp: tick_def)
qed (simp add: tick_def)

text \<open>The event an exit ends the wait with, and the exits that panic: a write of less than four bytes to the page of
  the local APIC (\<open>data[0..4]\<close>), and a read of the HPET counter once the elapsed nanoseconds times a million do
  not fit into 64 bits, five hours after the start.\<close>

definition exit_event :: "vcpu_exit \<Rightarrow> gdb_event option" where
  "exit_event ex =
     (case ex of
        Debug \<Rightarrow> Some DoneStep
      | Shutdown \<Rightarrow> Some (Signal SIGSEGV)
      | OtherExit \<Rightarrow> Some (Signal SIGTRAP)
      | IoOut a d \<Rightarrow> if a = 0xF9 then Some (Signal SIGTRAP) else None
      | _ \<Rightarrow> None)"

definition exit_faults :: "nat \<Rightarrow> vcpu_exit \<Rightarrow> bool" where
  "exit_faults elapsed ex \<longleftrightarrow>
     (case ex of
        MmioWrite a d \<Rightarrow> 0xfee00000 \<le> a \<and> a \<le> 0xfee00fff \<and> length d < 4
      | MmioRead a d \<Rightarrow> 0xfed00000 \<le> a \<and> a \<le> 0xfed003ff \<and> a AND 0x3FF = 0xF0 \<and>
          2 ^ 64 \<le> elapsed mod 2 ^ 64 * 1000000
      | _ \<Rightarrow> False)"

lemma bridge_turn_time [simp]: "START_TIME (bridge_turn inp dev) = START_TIME dev"
  by (simp add: bridge_turn_def)

lemma mmio_read_outcome:
  assumes "START_TIME dev = Some start"
  shows "\<exists>d. handle_mmio_read dev now addr data n = (if exit_faults (now - start) (MmioRead addr data) then Panic else Ok d)"
proof -
  have "unat (of_nat (now - start) :: u64) = (now - start) mod 2 ^ 64"
    by (simp add: unsigned_of_nat take_bit_eq_mod)
  then have "\<exists>v. hpet_read dev now off n =
      (if off = 0xF0 \<and> 2 ^ 64 \<le> (now - start) mod 2 ^ 64 * 1000000 then Panic else Ok v)" for off
    using assms by (auto simp: hpet_read_def mul_chk_def not_less)
  from this [of "addr AND 0x3FF"] obtain v where v: "hpet_read dev now (addr AND 0x3FF) n =
      (if addr AND 0x3FF = 0xF0 \<and> 2 ^ 64 \<le> (now - start) mod 2 ^ 64 * 1000000 then Panic else Ok v)" by blast
  have "\<not> addr \<le> 0xfed003ff" if "0xfee00000 \<le> addr" using that by (auto simp: word_le_nat_alt)
  then show ?thesis by (auto simp: handle_mmio_read_def exit_faults_def Let_def v)
qed

lemma mmio_write_outcome:
  "\<exists>dev'. handle_mmio_write addr data dev = (if exit_faults t (MmioWrite addr data) then Panic else Ok dev') \<and>
     START_TIME dev' = START_TIME dev"
  by (cases "4 \<le> length data") (auto simp: handle_mmio_write_def exit_faults_def rd_ok rd_panic Let_def)

text \<open>Whatever the exit, its handling is decided by these two.\<close>

lemma handle_exit_outcome:
  assumes "kvm_returns K R" and "port_bytes ex" and "START_TIME (lp_dev st) = Some start"
  shows "\<exists>st'. handle_exit K R inp ex st = (if exit_faults (in_now inp - start) ex then Panic else Ok (st', exit_event ex)) \<and>
    START_TIME (lp_dev st') = Some start \<and> loop_count st' = loop_count st"
proof (cases ex)
  case (IoIn a d)
  then have "d \<noteq> []" using assms(2) by (simp add: port_bytes_def)
  then show ?thesis using IoIn assms(3)
    by (auto simp: handle_exit_def serial_in_def set_r_def reply_def Let_def exit_event_def exit_faults_def)
next
  case (IoOut a d)
  then have "d \<noteq> []" using assms(2) by (simp add: port_bytes_def)
  moreover obtain vm' where "ok_or_keep (lp_vm st) (handle_diagnostic_trap K (lp_vm st) (d ! 0)) = Ok vm'"
    using ok_or_keep_total [OF trap_no_panic [OF assms(1)]] by blast
  ultimately show ?thesis using IoOut assms(3)
    by (auto simp: handle_exit_def get_r_def windbg_send_def exit_event_def exit_faults_def)
next
  case (MmioRead a d)
  obtain r where "handle_mmio_read (lp_dev st) (in_now inp) a d (loop_count st) =
      (if exit_faults (in_now inp - start) (MmioRead a d) then Panic else Ok r)"
    using mmio_read_outcome [OF assms(3)] by blast
  then show ?thesis using MmioRead assms(3) by (auto simp: handle_exit_def reply_def exit_event_def)
next
  case (MmioWrite a d)
  obtain dev' where "handle_mmio_write a d (lp_dev st) =
      (if exit_faults (in_now inp - start) (MmioWrite a d) then Panic else Ok dev')" "START_TIME dev' = START_TIME (lp_dev st)"
    using mmio_write_outcome by blast
  then show ?thesis using MmioWrite assms(3) by (auto simp: handle_exit_def exit_event_def)
qed (use assms(3) in \<open>auto simp: handle_exit_def exit_event_def exit_faults_def\<close>)

text \<open>What the run of the processor of a round returns, and the event, error or panic the round then ends with,
  given the rounds before it and the time since the start.\<close>

definition round_exit :: "'k vcpu_ops \<Rightarrow> 'k run_ops \<Rightarrow> round_input \<Rightarrow> 'k loop_state \<Rightarrow> vcpu_exit res" where
  "round_exit K R inp st =
     bind_r (tick K (in_now inp) (st\<lparr>loop_count := loop_count st + 1, lp_dev := bridge_turn inp (lp_dev st)\<rparr>)) (\<lambda>st.
     map_res fst (vcpu_run R (request_window R (kvm_fd (lp_vm st))) (mem_ptr (lp_vm st))))"

definition round_ends :: "nat \<Rightarrow> nat \<Rightarrow> round_input \<Rightarrow> vcpu_exit res \<Rightarrow> gdb_event option res" where
  "round_ends start n inp exit =
     (if 2 ^ 64 \<le> n + 1 then Panic
      else case in_peek inp of
        Panic \<Rightarrow> Panic
      | Err e \<Rightarrow> Err e
      | Ok (Some b) \<Rightarrow> map_res (\<lambda>_. Some (IncomingData b)) (in_read inp)
      | Ok None \<Rightarrow>
          (case exit of
             Panic \<Rightarrow> Panic
           | Err e \<Rightarrow> Err ''KVM Run Error''
           | Ok ex \<Rightarrow> if exit_faults (in_now inp - start) ex then Panic else Ok (exit_event ex)))"

lemma loop_round_ends:
  assumes "kvm_returns K R" and "START_TIME (lp_dev st) = Some start"
  shows "map_res snd (loop_round K R inp st) = round_ends start (unat (loop_count st)) inp (round_exit K R inp st)"
    and "loop_round K R inp st = Ok (st', ev) \<Longrightarrow>
      START_TIME (lp_dev st') = Some start \<and> unat (loop_count st') = unat (loop_count st) + 1"
proof -
  let ?s0 = "st\<lparr>loop_count := loop_count st + 1, lp_dev := bridge_turn inp (lp_dev st)\<rparr>"
  obtain s1 where t: "tick K (in_now inp) ?s0 = Ok s1" "START_TIME (lp_dev s1) = Some start" "loop_count s1 = loop_count st + 1"
    using tick_total [OF assms(1), of "in_now inp" ?s0] assms(2) by auto
  let ?v = "vcpu_run R (request_window R (kvm_fd (lp_vm s1))) (mem_ptr (lp_vm s1))"
  let ?s2 = "\<lambda>k m. s1\<lparr>lp_vm := (lp_vm s1)\<lparr>kvm_fd := k, mem_ptr := m\<rparr>\<rparr>"
  have h: "\<exists>st'. handle_exit K R inp ex (?s2 k m) = (if exit_faults (in_now inp - start) ex then Panic else Ok (st', exit_event ex)) \<and>
    START_TIME (lp_dev st') = Some start \<and> loop_count st' = loop_count st + 1" if "?v = Ok (ex, k, m)" for ex k m
    using handle_exit_outcome [OF assms(1) kvm_returnsD(7) [OF assms(1) that], of "?s2 k m" start inp] t by simp
  have x: "round_exit K R inp st = map_res fst ?v" by (simp add: round_exit_def t)
  have n: "unat (loop_count st) + 1 < 2 ^ 64 \<Longrightarrow> unat (loop_count st + 1) = unat (loop_count st) + 1" by (simp add: unat_plus_lt)
  show "map_res snd (loop_round K R inp st) = round_ends start (unat (loop_count st)) inp (round_exit K R inp st)"
    unfolding x using h
    by (cases "in_peek inp"; cases "in_read inp"; cases ?v)
      (auto simp: loop_round_def round_ends_def add_chk_def Let_def t split: option.splits)
  show "START_TIME (lp_dev st') = Some start \<and> unat (loop_count st') = unat (loop_count st) + 1"
    if "loop_round K R inp st = Ok (st', ev)" using that
  proof (cases rule: loop_round_cases)
    case (run u ex k m)
    then have "u = s1" using t(1) by simp
    then show ?thesis using h [of ex k m] run(2,4,5) n by (auto split: if_splits)
  qed (use assms(2) n in simp)
qed

text \<open>A wait goes through its quiet rounds to the first one that ends it, and ends as that round does.\<close>

abbreviation quiet_rounds :: "'k vcpu_ops \<Rightarrow> 'k run_ops \<Rightarrow> round_input list \<Rightarrow> 'k loop_state \<Rightarrow> 'k loop_state \<Rightarrow> bool" where
  "quiet_rounds K R \<equiv> steps (\<lambda>inp s t. loop_round K R inp s = Ok (t, None))"

lemma round_ends_quiet: "round_ends start n inp exit = Ok None \<Longrightarrow> in_peek inp = Ok None"
  by (cases "in_read inp") (auto simp: round_ends_def split: if_splits res.splits option.splits)

lemma wait_outcome:
  assumes "kvm_returns K R"
  shows "START_TIME (lp_dev st) = Some start \<Longrightarrow>
    (\<exists>st'. wait_for_stop_reason K R inps st = Ok (st', None) \<and> quiet_rounds K R inps st st' \<and> (\<forall>i\<in>set inps. in_peek i = Ok None)) \<or>
    (\<exists>n st'. n < length inps \<and> quiet_rounds K R (take n inps) st st' \<and> (\<forall>m<n. in_peek (inps ! m) = Ok None) \<and>
       round_ends start (unat (loop_count st) + n) (inps ! n) (round_exit K R (inps ! n) st') \<noteq> Ok None \<and>
       map_res snd (wait_for_stop_reason K R inps st) =
         round_ends start (unat (loop_count st) + n) (inps ! n) (round_exit K R (inps ! n) st'))"
proof (induction inps arbitrary: st)
  case (Cons i inps)
  note e = loop_round_ends [OF assms Cons.prems, of i]
  show ?case
  proof (cases "\<exists>s1. loop_round K R i st = Ok (s1, None)")
    case False
    then have "round_ends start (unat (loop_count st)) i (round_exit K R i st) \<noteq> Ok None"
      unfolding e(1) [symmetric] by (cases "loop_round K R i st") auto
    moreover have "map_res snd (wait_for_stop_reason K R (i # inps) st) = map_res snd (loop_round K R i st)"
      using False by (cases "loop_round K R i st") (auto split: option.splits)
    ultimately show ?thesis unfolding e(1) by (intro disjI2 exI [of _ 0] exI [of _ st]) simp
  next
    case True
    then obtain s1 where s1: "loop_round K R i st = Ok (s1, None)" by blast
    then have "in_peek i = Ok None" using e(1) round_ends_quiet by (metis res.map(1) snd_conv)
    note s1' = e(2) [OF s1] this
    have w: "wait_for_stop_reason K R (i # inps) st = wait_for_stop_reason K R inps s1" by (simp add: s1)
    from Cons.IH [OF conjunct1 [OF s1'(1)]] show ?thesis
    proof (elim disjE exE conjE)
      fix n st' assume n: "n < length inps" "quiet_rounds K R (take n inps) s1 st'" "\<forall>m<n. in_peek (inps ! m) = Ok None"
        and r: "round_ends start (unat (loop_count s1) + n) (inps ! n) (round_exit K R (inps ! n) st') \<noteq> Ok None"
          "map_res snd (wait_for_stop_reason K R inps s1) =
             round_ends start (unat (loop_count s1) + n) (inps ! n) (round_exit K R (inps ! n) st')"
      have "\<forall>m<Suc n. in_peek ((i # inps) ! m) = Ok None" using n(3) s1'(2) by (simp add: nth_Cons split: nat.splits)
      then show ?thesis
        using n r s1 s1'(1) unfolding w by (intro disjI2 exI [of _ "Suc n"] exI [of _ st']) simp
    qed (use s1 s1'(2) in auto)
  qed
qed simp

text \<open>Property C12: every outcome of a wait for a stop reason, once \<open>run\<close> has started the processor. Either all its
  rounds were quiet, with no byte waiting from the debugger in any of them, and the wait goes on; or it ends
  in the first round \<open>n\<close> that was not, and exactly as \<open>round_ends\<close> says of what that round saw: a waiting byte is
  handed over (or the error of reading it, or of looking for it, is returned); otherwise an error of the run of
  the processor gives the error \<open>KVM Run Error\<close>, a debug exit a finished step, a shutdown \<open>SIGSEGV\<close>, an exit of
  another kind and a report of the diagnostic handlers at port \<open>0xF9\<close> \<open>SIGTRAP\<close>; the wait panics on a write of less than
  four bytes to the page of the local APIC, on a read of the HPET counter later than five hours after the start,
  and when the count of rounds overflows, and on nothing else. So a wait in one of whose rounds a byte is
  waiting does not go on past it. The rounds are those in which the run of the processor returned: how long the
  guest runs before it does is up to KVM.\<close>

theorem event_loop_outcomes:
  assumes "run_start K start vm dev e sp lpb = Ok (vm', dev')" and "kvm_returns K R"
    and "st0 = enter_loop now vm' dev' out"
  shows "(\<exists>st'. wait_for_stop_reason K R inps st0 = Ok (st', None) \<and> quiet_rounds K R inps st0 st' \<and>
       (\<forall>i\<in>set inps. in_peek i = Ok None)) \<or>
    (\<exists>n st. n < length inps \<and> quiet_rounds K R (take n inps) st0 st \<and> (\<forall>m<n. in_peek (inps ! m) = Ok None) \<and>
       round_ends start n (inps ! n) (round_exit K R (inps ! n) st) \<noteq> Ok None \<and>
       map_res snd (wait_for_stop_reason K R inps st0) = round_ends start n (inps ! n) (round_exit K R (inps ! n) st))"
proof -
  have "START_TIME (lp_dev st0) = Some start" "loop_count st0 = 0"
    using assms(1,3) by (auto simp: run_start_def Let_def enter_loop_def)
  with wait_outcome [OF assms(2), of st0 start inps] show ?thesis by simp
qed

text \<open>A processor whose every run fails, as one that a signal interrupts.\<close>

definition interrupted :: "(kvm_regs \<times> kvm_sregs) run_ops" where
  "interrupted = halting\<lparr>vcpu_run := (\<lambda>k m. Err ''Interrupted system call'')\<rparr>"

theorem event_loop_outcomes_witness:
  "\<exists>vm' dev' st'. run_start plain_vcpu 0 (plain_vm sregs0) devices0 0xFFFFF80000B92010 0xFFFFFE8000010000 0xFFFFF80004000000 = Ok (vm', dev') \<and>
     wait_for_stop_reason plain_vcpu interrupted [\<lparr>in_peek = Ok None, in_read = Ok 0, in_now = 20000000, in_sent = False, in_bytes = [], in_stream = None\<rparr>]
       (enter_loop 0 vm' dev' []) = Err ''KVM Run Error'' \<and>
     wait_for_stop_reason plain_vcpu halting [\<lparr>in_peek = Ok (Some 3), in_read = Ok 3, in_now = 20000000, in_sent = False, in_bytes = [], in_stream = None\<rparr>]
       (enter_loop 0 vm' dev' []) = Ok (st', Some (IncomingData 3))"
proof -
  obtain vm' dev' where r: "run_start plain_vcpu 0 (plain_vm sregs0) devices0 0xFFFFF80000B92010 0xFFFFFE8000010000 0xFFFFF80004000000 = Ok (vm', dev')"
    by (simp add: run_start_def setup_long_mode_def add_chk_def sub_chk_def on_kvm_def write_memory_ok MEM_SIZE_def
        length_concat_le64 gdt_facts put_slice_def plain_vm_def Let_def)
  have k: "kvm_returns plain_vcpu halting" "kvm_returns plain_vcpu interrupted"
    by (auto simp: kvm_returns_def halting_def interrupted_def port_bytes_def plain_vcpu_def)
  let ?q = "\<lparr>in_peek = Ok None, in_read = Ok 0, in_now = 20000000, in_sent = False, in_bytes = [], in_stream = None\<rparr>"
  let ?b = "\<lparr>in_peek = Ok (Some 3), in_read = Ok 3, in_now = 20000000, in_sent = False, in_bytes = [], in_stream = None\<rparr>"
  have "round_exit plain_vcpu interrupted ?q st = Err ''Interrupted system call''" for st
    using tick_total [OF k(1), of "in_now ?q" "st\<lparr>loop_count := loop_count st + 1, lp_dev := bridge_turn ?q (lp_dev st)\<rparr>"]
    by (auto simp: round_exit_def interrupted_def)
  then have "map_res snd (wait_for_stop_reason plain_vcpu interrupted [?q] (enter_loop 0 vm' dev' [])) = Err ''KVM Run Error''"
    using event_loop_outcomes [OF r k(2) refl, of "[?q]" 0 "[]"] by (auto simp: round_ends_def loop_round_def Let_def interrupted_def)
  then have "wait_for_stop_reason plain_vcpu interrupted [?q] (enter_loop 0 vm' dev' []) = Err ''KVM Run Error''"
    by (cases "wait_for_stop_reason plain_vcpu interrupted [?q] (enter_loop 0 vm' dev' [])") auto
  moreover have "map_res snd (wait_for_stop_reason plain_vcpu halting [?b] (enter_loop 0 vm' dev' [])) = Ok (Some (IncomingData 3))"
    using event_loop_outcomes [OF r k(1) refl, of "[?b]" 0 "[]"] by (auto simp: round_ends_def)
  then have "\<exists>st'. wait_for_stop_reason plain_vcpu halting [?b] (enter_loop 0 vm' dev' []) = Ok (st', Some (IncomingData 3))"
    by (cases "wait_for_stop_reason plain_vcpu halting [?b] (enter_loop 0 vm' dev' [])") auto
  ultimately show ?thesis using r by blast
qed

end
