(* ===== verification/GdbSession.thy ===== *)
theory GdbSession
  imports Gdb Traces
begin

unbundle bit_operations_syntax

text \<open>
  Sessions of the debugger on the target of \<open>src/gdb.rs\<close>: the software-breakpoint calls, the capabilities the
  target announces, and the sequences
  of calls that the \<open>gdbstub\<close> library makes for the requests of a debugger, in any order.
\<close>

section \<open>Breakpoints\<close>

text \<open>Both answer \<open>Ok(true)\<close> and leave the target as it is.\<close>

definition add_sw_breakpoint :: "u64 \<Rightarrow> nat \<Rightarrow> 'k vwfl_target \<Rightarrow> (bool \<times> 'k vwfl_target) res" where
  "add_sw_breakpoint addr kind t = Ok (True, t)"

definition remove_sw_breakpoint :: "u64 \<Rightarrow> nat \<Rightarrow> 'k vwfl_target \<Rightarrow> (bool \<times> 'k vwfl_target) res" where
  "remove_sw_breakpoint addr kind t = Ok (True, t)"

section \<open>Capabilities\<close>

text \<open>The target tells \<open>gdbstub\<close> which groups of calls it implements: \<open>Some(self)\<close> offers the calls of the
  group, \<open>None\<close> does not.\<close>

datatype 'k base_ops = SingleThread "'k vwfl_target" | MultiThread "'k vwfl_target"

definition base_ops :: "'k vwfl_target \<Rightarrow> 'k base_ops" where
  "base_ops t = MultiThread t"

definition support_breakpoints :: "'k vwfl_target \<Rightarrow> 'k vwfl_target option" where
  "support_breakpoints t = Some t"

definition support_resume :: "'k vwfl_target \<Rightarrow> 'k vwfl_target option" where
  "support_resume t = Some t"

definition support_single_register_access :: "'k vwfl_target \<Rightarrow> 'k vwfl_target option" where
  "support_single_register_access t = None"

definition support_single_step :: "'k vwfl_target \<Rightarrow> 'k vwfl_target option" where
  "support_single_step t = Some t"

definition support_sw_breakpoint :: "'k vwfl_target \<Rightarrow> 'k vwfl_target option" where
  "support_sw_breakpoint t = Some t"

lemmas support_defs = base_ops_def support_breakpoints_def support_resume_def support_single_register_access_def
  support_single_step_def support_sw_breakpoint_def

section \<open>Sessions\<close>

text \<open>The calls a debugger's requests reach the target with.\<close>

datatype gdb_call =
    ReadRegisters
  | WriteRegisters x86_64_core_regs
  | ReadAddrs u64 nat
  | WriteAddrs u64 "u8 list"
  | ClearResumeActions
  | SetContinue
  | SetStep
  | Resume
  | AddSwBreakpoint u64 nat
  | RemoveSwBreakpoint u64 nat
  | ReadRegister nat
  | WriteRegister nat "u8 list"

text \<open>A call is made only when the groups it belongs to are offered; the calls of one register have no
  implementation to reach.\<close>

fun offered :: "gdb_call \<Rightarrow> 'k vwfl_target \<Rightarrow> bool" where
  "offered ClearResumeActions t = (support_resume t \<noteq> None)"
| "offered SetContinue t = (support_resume t \<noteq> None)"
| "offered Resume t = (support_resume t \<noteq> None)"
| "offered SetStep t = (case support_resume t of None \<Rightarrow> False | Some t \<Rightarrow> support_single_step t \<noteq> None)"
| "offered (AddSwBreakpoint a k) t = (case support_breakpoints t of None \<Rightarrow> False | Some t \<Rightarrow> support_sw_breakpoint t \<noteq> None)"
| "offered (RemoveSwBreakpoint a k) t = (case support_breakpoints t of None \<Rightarrow> False | Some t \<Rightarrow> support_sw_breakpoint t \<noteq> None)"
| "offered (ReadRegister r) t = (support_single_register_access t \<noteq> None)"
| "offered (WriteRegister r d) t = (support_single_register_access t \<noteq> None)"
| "offered c t = (case base_ops t of MultiThread t \<Rightarrow> True | SingleThread t \<Rightarrow> False)"

fun answer :: "'k vcpu_ops \<Rightarrow> u32 \<Rightarrow> u32 \<Rightarrow> gdb_call \<Rightarrow> 'k vwfl_target \<Rightarrow> 'k vwfl_target res" where
  "answer K dbg_on dbg_step ReadRegisters t = bind_r (read_registers K t) (\<lambda>g. Ok t)"
| "answer K dbg_on dbg_step (WriteRegisters g) t = write_registers K t g"
| "answer K dbg_on dbg_step (ReadAddrs a n) t = bind_r (read_addrs K t a (replicate n 0)) (\<lambda>d. Ok t)"
| "answer K dbg_on dbg_step (WriteAddrs a d) t = write_addrs K t a d"
| "answer K dbg_on dbg_step ClearResumeActions t = Ok (clear_resume_actions t)"
| "answer K dbg_on dbg_step SetContinue t = Ok (set_resume_action_continue t)"
| "answer K dbg_on dbg_step SetStep t = Ok (set_resume_action_step t)"
| "answer K dbg_on dbg_step Resume t = resume K dbg_on dbg_step t"
| "answer K dbg_on dbg_step (AddSwBreakpoint a k) t = bind_r (add_sw_breakpoint a k t) (\<lambda>(b, t). Ok t)"
| "answer K dbg_on dbg_step (RemoveSwBreakpoint a k) t = bind_r (remove_sw_breakpoint a k t) (\<lambda>(b, t). Ok t)"
| "answer K dbg_on dbg_step (ReadRegister r) t = Err ''not implemented''"
| "answer K dbg_on dbg_step (WriteRegister r d) t = Err ''not implemented''"

text \<open>A call that fails is reported to the debugger and leaves the target as it was; a failed \<open>resume\<close> ends
  the session.\<close>

inductive call_step :: "'k vcpu_ops \<Rightarrow> u32 \<Rightarrow> u32 \<Rightarrow> gdb_call \<Rightarrow> 'k vwfl_target \<Rightarrow> 'k vwfl_target \<Rightarrow> bool"
  for K dbg_on dbg_step where
  answered: "offered c t \<Longrightarrow> answer K dbg_on dbg_step c t = Ok u \<Longrightarrow> call_step K dbg_on dbg_step c t u"
| refused: "offered c t \<Longrightarrow> answer K dbg_on dbg_step c t = Err e \<Longrightarrow> c \<noteq> Resume \<Longrightarrow> call_step K dbg_on dbg_step c t t"

inductive_simps call_step_resume: "call_step K dbg_on dbg_step Resume t u"

abbreviation gdb_session :: "'k vcpu_ops \<Rightarrow> u32 \<Rightarrow> u32 \<Rightarrow> gdb_call list \<Rightarrow> 'k vwfl_target \<Rightarrow> 'k vwfl_target \<Rightarrow> bool" where
  "gdb_session K dbg_on dbg_step \<equiv> steps (call_step K dbg_on dbg_step)"

text \<open>The resume action after a sequence of calls.\<close>

fun next_action :: "gdb_call \<Rightarrow> gdb_resume_action option \<Rightarrow> gdb_resume_action option" where
  "next_action ClearResumeActions act = None"
| "next_action SetContinue act = Some Continue"
| "next_action SetStep act = Some Step"
| "next_action c act = act"

lemma offered_iff: "offered c t \<longleftrightarrow> (\<forall>r d. c \<noteq> ReadRegister r \<and> c \<noteq> WriteRegister r d)"
  by (cases c) (simp_all add: support_defs)

lemma write_addrs_action: "write_addrs K t a d = Ok u \<Longrightarrow> resume_action u = resume_action t"
proof -
  assume "write_addrs K t a d = Ok u"
  then obtain p where "(case write_memory (target_vm t) p d of Panic \<Rightarrow> Panic | Err _ \<Rightarrow> Err ''TargetError''
      | Ok vm \<Rightarrow> Ok (t\<lparr>target_vm := vm\<rparr>)) = Ok u" by (auto simp: write_addrs_def)
  then show ?thesis by (cases "write_memory (target_vm t) p d") auto
qed

lemma answer_action: "answer K dbg_on dbg_step c t = Ok u \<Longrightarrow> resume_action u = next_action c (resume_action t)"
  by (cases c) (auto simp: write_registers_def write_addrs_action resume_def Let_def clear_resume_actions_def
      set_resume_action_continue_def set_resume_action_step_def add_sw_breakpoint_def remove_sw_breakpoint_def split: res.splits)

lemma refused_action: "answer K dbg_on dbg_step c t = Err e \<Longrightarrow> next_action c act = act"
  by (cases c) auto

text \<open>The calls that leave guest memory alone.\<close>

fun leaves_memory :: "gdb_call \<Rightarrow> bool" where
  "leaves_memory (WriteAddrs a d) = False"
| "leaves_memory c = True"

lemma answer_mem:
  "answer K dbg_on dbg_step c t = Ok u \<Longrightarrow> leaves_memory c \<Longrightarrow> mem_ptr (target_vm u) = mem_ptr (target_vm t)"
  by (cases c) (auto simp: write_registers_def resume_def Let_def clear_resume_actions_def
      set_resume_action_continue_def set_resume_action_step_def add_sw_breakpoint_def remove_sw_breakpoint_def split: res.splits)

interpretation call_action: tracked "call_step K dbg_on dbg_step" resume_action next_action
  by unfold_locales (auto simp: answer_action refused_action elim!: call_step.cases)

interpretation call_memory: kept_by "call_step K dbg_on dbg_step" "\<lambda>t. mem_ptr (target_vm t)" leaves_memory
  by unfold_locales (auto simp: answer_mem elim!: call_step.cases)

text \<open>Property C39: over every session of the debugger, whatever calls succeed or fail, resuming asks KVM for a
  single step exactly when the last of the calls that set the action asked for one, and without a write
  request no byte of guest memory changes: a software breakpoint is accepted, but nothing is planted.\<close>

theorem gdb_session_correct:
  assumes "gdb_session K dbg_on dbg_step (calls @ [Resume]) t v"
  shows "(\<exists>k. set_guest_debug K (if fold next_action calls (resume_action t) = Some Step then dbg_on OR dbg_step else dbg_on) k =
      Ok (kvm_fd (target_vm v))) \<and>
    (list_all leaves_memory calls \<longrightarrow> mem_ptr (target_vm v) = mem_ptr (target_vm t))"
proof -
  obtain u where s: "gdb_session K dbg_on dbg_step calls t u" and r: "resume K dbg_on dbg_step u = Ok v"
    using assms by (auto simp: call_step_resume)
  have "set_guest_debug K (resume_control dbg_on dbg_step (resume_action u)) (kvm_fd (target_vm u)) = Ok (kvm_fd (target_vm v))"
    using r by (auto simp: resume_def split: res.splits)
  moreover have "list_all leaves_memory calls \<longrightarrow> mem_ptr (target_vm v) = mem_ptr (target_vm t)"
    using call_memory.quiet_steps [OF _ assms] by simp
  ultimately show ?thesis by (auto simp: resume_control_def call_action.steps_effect [OF s])
qed

theorem gdb_session_correct_witness:
  "\<exists>v. gdb_session plain_vcpu 1 2 [AddSwBreakpoint 0x1000 1, SetStep, Resume] \<lparr>target_vm = plain_vm sregs0, resume_action = None\<rparr> v \<and>
     mem_ptr (target_vm v) = mem_ptr (plain_vm sregs0)"
proof -
  let ?t = "\<lparr>target_vm = plain_vm sregs0, resume_action = None\<rparr>"
  let ?u = "set_resume_action_step ?t"
  have r: "resume plain_vcpu 1 2 ?u = Ok ?u"
    by (simp add: resume_def set_resume_action_step_def plain_vm_def)
  have "call_step plain_vcpu 1 2 (AddSwBreakpoint 0x1000 1) ?t ?t" "call_step plain_vcpu 1 2 SetStep ?t ?u" "call_step plain_vcpu 1 2 Resume ?u ?u"
    by (rule call_step.answered; simp add: offered_iff add_sw_breakpoint_def r)+
  then have s: "gdb_session plain_vcpu 1 2 ([AddSwBreakpoint 0x1000 1, SetStep] @ [Resume]) ?t ?u" by auto
  from gdb_session_correct [OF s] s show ?thesis by auto
qed

end
