(* ===== verification/Server.thy ===== *)
theory Server
  imports EventLoop GdbSession
begin

text \<open>
  The GDB server of \<open>src/cpu.rs\<close>: \<open>run_gdb_server\<close> waits for one debugger, hands the machine to the
  \<open>gdbstub\<close> library and reports how the session ended; \<open>run\<close> starts the processor and then serves. The sockets
  and \<open>gdbstub\<close> are parameters. The library reaches the machine only through the calls of the target and
  through the event loop, in an order the debugger determines; a session is a sequence of both.
\<close>

section \<open>The server\<close>

text \<open>The socket calls; \<open>tcp_accept\<close> also gives the address of the peer as it is printed.\<close>

record ('l, 'c) tcp_ops =
  tcp_bind :: "string \<Rightarrow> 'l res"
  tcp_accept :: "'l \<Rightarrow> ('c \<times> rstring) res"
  set_nonblocking :: "bool \<Rightarrow> 'c \<Rightarrow> 'c res"

datatype disconnect_reason = TargetExited u8 | TargetTerminated u8 | Disconnect | Kill

text \<open>What a session of \<open>gdbstub\<close> works on: the target, and the state of the event loop that outlives its
  calls.\<close>

record 'k stub_state =
  stub_target :: "'k vwfl_target"
  stub_dev :: devices
  stub_out :: rstring

definition disconnect_text :: "disconnect_reason \<Rightarrow> rstring" where
  "disconnect_text reason =
     (case reason of
        Disconnect \<Rightarrow> lit ''[GDB] Disconnected.''
      | Kill \<Rightarrow> lit ''[GDB] Killed by client.''
      | _ \<Rightarrow> lit ''[GDB] Stopped.'') @ [10]"

definition run_gdb_server ::
  "('l, 'c) tcp_ops \<Rightarrow> ('c \<Rightarrow> 'k stub_state \<Rightarrow> (disconnect_reason \<times> 'k stub_state) res) \<Rightarrow>
   'k vm \<Rightarrow> devices \<Rightarrow> rstring \<Rightarrow> ('k vm \<times> devices \<times> rstring) res" where
  "run_gdb_server T run_blocking vm dev out =
     bind_r (tcp_bind T ''127.0.0.1:1234'') (\<lambda>listener.
     let out = out @ [10] @ lit ''--- GDB Server Started ---'' @ [10] @
               lit ''Waiting for GDB connection on 127.0.0.1:1234...'' @ [10]
     in
     bind_r (tcp_accept T listener) (\<lambda>(stream, addr).
     let out = out @ lit ''GDB Client Connected: '' @ addr @ [10]
     in
     bind_r (set_nonblocking T True stream) (\<lambda>stream.
     let target = \<lparr>target_vm = vm, resume_action = None\<rparr>
     in
     bind_r (run_blocking stream \<lparr>stub_target = target, stub_dev = dev, stub_out = out\<rparr>) (\<lambda>(reason, st).
     Ok (target_vm (stub_target st), stub_dev st, stub_out st @ disconnect_text reason)))))"

definition run ::
  "'k vcpu_ops \<Rightarrow> ('l, 'c) tcp_ops \<Rightarrow> ('c \<Rightarrow> 'k stub_state \<Rightarrow> (disconnect_reason \<times> 'k stub_state) res) \<Rightarrow>
   nat \<Rightarrow> 'k vm \<Rightarrow> devices \<Rightarrow> rstring \<Rightarrow> u64 \<Rightarrow> u64 \<Rightarrow> u64 \<Rightarrow> ('k vm \<times> devices \<times> rstring) res" where
  "run K T run_blocking now vm dev out krnl_entry_v stack_v lpb_v =
     (let out = out @ lit ''[CPU] Initializing vCPU state...'' @ [10]
      in bind_r (run_start K now vm dev krnl_entry_v stack_v lpb_v) (\<lambda>(vm, dev).
         run_gdb_server T run_blocking vm dev out))"

section \<open>Sessions of the library\<close>

datatype stub_action = Call gdb_call | Wait nat "round_input list"

text \<open>One thing \<open>gdbstub\<close> does: a call of the target, whose failure leaves the target as it was, or a wait for
  a stop reason, entered at some time and ended by an event.\<close>

inductive stub_step :: "'k vcpu_ops \<Rightarrow> 'k run_ops \<Rightarrow> u32 \<Rightarrow> u32 \<Rightarrow> stub_action \<Rightarrow> 'k stub_state \<Rightarrow> 'k stub_state \<Rightarrow> bool"
  for K R dbg_on dbg_step where
  call: "call_step K dbg_on dbg_step c (stub_target s) t \<Longrightarrow>
    stub_step K R dbg_on dbg_step (Call c) s (s\<lparr>stub_target := t\<rparr>)"
| wait: "wait_for_stop_reason K R inps (enter_loop now (target_vm (stub_target s)) (stub_dev s) (stub_out s)) = Ok (lp, Some ev) \<Longrightarrow>
    stub_step K R dbg_on dbg_step (Wait now inps) s
      (s\<lparr>stub_target := (stub_target s)\<lparr>target_vm := lp_vm lp\<rparr>, stub_dev := lp_dev lp, stub_out := console lp\<rparr>)"

abbreviation stub_session :: "'k vcpu_ops \<Rightarrow> 'k run_ops \<Rightarrow> u32 \<Rightarrow> u32 \<Rightarrow> stub_action list \<Rightarrow> 'k stub_state \<Rightarrow> 'k stub_state \<Rightarrow> bool" where
  "stub_session K R dbg_on dbg_step \<equiv> steps (stub_step K R dbg_on dbg_step)"

text \<open>The debugger asks for no write to memory.\<close>

fun no_write :: "stub_action \<Rightarrow> bool" where
  "no_write (Call c) = leaves_memory c"
| "no_write (Wait now inps) = True"

text \<open>The bytes that neither the guest nor the clock changes.\<close>

definition quiet_byte :: "'k run_ops \<Rightarrow> nat \<Rightarrow> bool" where
  "quiet_byte R x \<longleftrightarrow> (x < 0x9000008 \<or> 0x9000020 \<le> x) \<and> guest_keeps R x"

definition quiet_bytes :: "'k run_ops \<Rightarrow> 'k stub_state \<Rightarrow> nat \<Rightarrow> u8" where
  "quiet_bytes R s x = (if quiet_byte R x then mem_ptr (target_vm (stub_target s)) x else 0)"

lemma stub_step_quiet:
  assumes "no_write a" and "stub_step K R dbg_on dbg_step a s s'"
  shows "quiet_bytes R s' = quiet_bytes R s"
  using assms(2)
proof cases
  case (call c t)
  then show ?thesis using call_memory.quiet_step [OF _ call(3)] assms(1) by (simp add: quiet_bytes_def fun_eq_iff)
next
  case (wait inps now lp ev)
  then show ?thesis using wait_mem [OF wait(3)] by (simp add: quiet_bytes_def quiet_byte_def enter_loop_def fun_eq_iff)
qed

interpretation stub: kept_by "stub_step K R dbg_on dbg_step" "quiet_bytes R" no_write
  by unfold_locales (rule stub_step_quiet)

section \<open>A session from start to end\<close>

text \<open>What the server relies on of \<open>gdbstub\<close>, for a debugger that asks for no write: a session that ends was made
  of calls of the target and waits.\<close>

definition stub_reads_only ::
  "'k vcpu_ops \<Rightarrow> 'k run_ops \<Rightarrow> u32 \<Rightarrow> u32 \<Rightarrow> ('c \<Rightarrow> 'k stub_state \<Rightarrow> (disconnect_reason \<times> 'k stub_state) res) \<Rightarrow> bool" where
  "stub_reads_only K R dbg_on dbg_step run_blocking \<longleftrightarrow>
     (\<forall>c s reason s'. run_blocking c s = Ok (reason, s') \<longrightarrow>
        (\<exists>acts. list_all no_write acts \<and> stub_session K R dbg_on dbg_step acts s s'))"

text \<open>The bytes that the program itself writes once the boot is over: the descriptor table and the task segment of
  \<open>setup_long_mode\<close>, and the clock page.\<close>

definition run_area :: "nat set" where
  "run_area = {0x8000000..<0x8000100} \<union> {0x8001000..<0x8001068} \<union> {0x9000008..<0x9000020}"

lemma run_start_mem:
  "run_start K now vm dev e sv lv = Ok (vm', dev') \<Longrightarrow> x \<notin> run_area \<Longrightarrow> mem_ptr vm' x = mem_ptr vm x"
  by (auto simp: run_start_def Let_def run_area_def store_def length_concat_le64 gdt_facts length_poke
      elim!: setup_long_mode_steps)

lemma run_gdb_server_mem:
  assumes "run_gdb_server T run_blocking vm dev out = Ok (vm', dev', out')" and "stub_reads_only K R dbg_on dbg_step run_blocking"
    and "x \<notin> run_area" and "guest_keeps R x"
  shows "mem_ptr vm' x = mem_ptr vm x"
proof -
  from assms(1) obtain c s reason s' where b: "run_blocking c s = Ok (reason, s')"
    and v: "target_vm (stub_target s) = vm" "vm' = target_vm (stub_target s')"
    by (fastforce simp: run_gdb_server_def Let_def)
  obtain acts where "list_all no_write acts" "stub_session K R dbg_on dbg_step acts s s'"
    using assms(2) b unfolding stub_reads_only_def by blast
  then have "quiet_bytes R s' x = quiet_bytes R s x" by (simp add: stub.quiet_steps)
  moreover have "quiet_byte R x" using assms(3,4) by (auto simp: quiet_byte_def run_area_def)
  ultimately show ?thesis using v by (simp add: quiet_bytes_def)
qed

text \<open>Property C14: a whole run, from the set-up of the processor through a session of \<open>gdbstub\<close>. The session gets the
  machine and the devices exactly as \<open>run_start\<close> left them, with no resume action pending; the run returns the
  machine, the devices and the console of that session, and the last line printed says how that session ended:
  disconnected, killed by the client, or, when the target exited or was terminated, stopped. For a debugger that
  asks for no write, whatever it reads, sets, steps or interrupts, the program writes to the guest only the
  descriptor table, the task segment and the clock: every other byte that the guest itself leaves alone is the
  same at the end.\<close>

theorem debug_session_safe:
  assumes "run K T run_blocking now vm dev out e sv lv = Ok (vm', dev', out')"
    and "stub_reads_only K R dbg_on dbg_step run_blocking"
  shows "(\<forall>x. x \<notin> run_area \<and> guest_keeps R x \<longrightarrow> mem_ptr vm' x = mem_ptr vm x) \<and>
    (\<exists>vm1 dev1 c s reason s'. run_start K now vm dev e sv lv = Ok (vm1, dev1) \<and>
       run_blocking c s = Ok (reason, s') \<and>
       stub_target s = \<lparr>target_vm = vm1, resume_action = None\<rparr> \<and> stub_dev s = dev1 \<and>
       vm' = target_vm (stub_target s') \<and> dev' = stub_dev s' \<and>
       out' = stub_out s' @ lit (if reason = Disconnect then ''[GDB] Disconnected.''
         else if reason = Kill then ''[GDB] Killed by client.'' else ''[GDB] Stopped.'') @ [10])"
proof -
  obtain vm1 dev1 out1 where 1: "run_start K now vm dev e sv lv = Ok (vm1, dev1)"
    and 2: "run_gdb_server T run_blocking vm1 dev1 out1 = Ok (vm', dev', out')"
    using assms(1) by (auto simp: run_def Let_def)
  from 2 obtain c s reason s' where "run_blocking c s = Ok (reason, s')"
    "stub_target s = \<lparr>target_vm = vm1, resume_action = None\<rparr>" "stub_dev s = dev1"
    "vm' = target_vm (stub_target s')" "dev' = stub_dev s'" "out' = stub_out s' @ disconnect_text reason"
    by (fastforce simp: run_gdb_server_def Let_def)
  moreover have "disconnect_text reason = lit (if reason = Disconnect then ''[GDB] Disconnected.''
      else if reason = Kill then ''[GDB] Killed by client.'' else ''[GDB] Stopped.'') @ [10]"
    by (cases reason) (simp_all add: disconnect_text_def)
  ultimately show ?thesis
    using 1 run_gdb_server_mem [OF 2 assms(2)] run_start_mem [OF 1] by (intro conjI exI) simp_all
qed

text \<open>A debugger that steps once and leaves, on a socket that always works.\<close>

definition plain_tcp :: "(unit, unit) tcp_ops" where
  "plain_tcp = \<lparr>tcp_bind = (\<lambda>a. Ok ()), tcp_accept = (\<lambda>l. Ok ((), lit ''127.0.0.1:5000'')), set_nonblocking = (\<lambda>b c. Ok c)\<rparr>"

definition one_step :: "unit \<Rightarrow> (kvm_regs \<times> kvm_sregs) stub_state \<Rightarrow> (disconnect_reason \<times> (kvm_regs \<times> kvm_sregs) stub_state) res" where
  "one_step c s = Ok (Disconnect, s\<lparr>stub_target := set_resume_action_step (stub_target s)\<rparr>)"

lemma one_step_reads_only: "stub_reads_only plain_vcpu halting 1 2 one_step"
proof -
  have "stub_session plain_vcpu halting 1 2 [Call SetStep] s (s\<lparr>stub_target := set_resume_action_step (stub_target s)\<rparr>)" for s
    by (auto intro!: stub_step.call call_step.answered simp: offered_iff)
  moreover have "list_all no_write [Call SetStep]" by simp
  ultimately show ?thesis unfolding stub_reads_only_def one_step_def by blast
qed

lemma plain_run:
  assumes "run_start plain_vcpu now vm dev e sv lv = Ok (vm1, dev1)"
  shows "\<exists>out'. run plain_vcpu plain_tcp one_step now vm dev out e sv lv = Ok (vm1, dev1, out')"
  by (simp add: run_def run_gdb_server_def assms Let_def plain_tcp_def one_step_def set_resume_action_step_def)

theorem debug_session_safe_witness:
  "\<exists>vm' dev' out'. run plain_vcpu plain_tcp one_step 0 (plain_vm sregs0) devices0 [] 0xFFFFF80000B92010 0xFFFFFE8000010000 0xFFFFF80004000000 =
       Ok (vm', dev', out') \<and> mem_ptr vm' 0x8102000 = 0 \<and> suffix (lit ''[GDB] Disconnected.'' @ [10]) out'"
proof -
  obtain vm1 dev1 where "run_start plain_vcpu 0 (plain_vm sregs0) devices0 0xFFFFF80000B92010 0xFFFFFE8000010000 0xFFFFF80004000000 = Ok (vm1, dev1)"
    by (simp add: run_start_def setup_long_mode_def add_chk_def sub_chk_def on_kvm_def write_memory_ok MEM_SIZE_def
        length_concat_le64 gdt_facts put_slice_def plain_vm_def Let_def)
  from plain_run [OF this] obtain out' where r: "run plain_vcpu plain_tcp one_step 0 (plain_vm sregs0) devices0 []
      0xFFFFF80000B92010 0xFFFFFE8000010000 0xFFFFF80004000000 = Ok (vm1, dev1, out')" by blast
  note c = debug_session_safe [OF r one_step_reads_only]
  have "mem_ptr vm1 0x8102000 = mem_ptr (plain_vm sregs0) 0x8102000"
    by (rule c [THEN conjunct1, rule_format]) (simp add: run_area_def guest_keeps_def halting_def)
  moreover have "suffix (lit ''[GDB] Disconnected.'' @ [10]) out'"
    using c [THEN conjunct2] by (auto simp: one_step_def suffix_def)
  ultimately show ?thesis using r by (auto simp: plain_vm_def)
qed

end
