(* ===== verification/Program.thy ===== *)
theory Program
  imports BootRun Server
begin

text \<open>
  The program as a whole: \<open>main\<close> of \<open>src/main.rs\<close> from its arguments to the end of the debugger's session. It
  prints the offsets of four fields of the processor structures, boots, prints the first bytes of the entry point
  and runs; an error of \<open>run\<close> is printed and ends the program normally. Of the text the program prints, the lines
  of the boot steps themselves are left out.
\<close>

unbundle bit_operations_syntax

section \<open>The main function\<close>

definition sys32_path :: "rstring list \<Rightarrow> rstring" where
  "sys32_path args = (if length args > 1 then args ! 1 else lit ''./KrnlFile'')"

definition verify_line :: "string \<Rightarrow> ctype \<Rightarrow> string \<Rightarrow> string \<Rightarrow> rstring" where
  "verify_line name t f target =
     lit ''[VERIFY] '' @ lit name @ lit ''.'' @ lit f @ lit '' Offset: 0x'' @ lower_hex 0 (offset_of t [f]) @
     lit '' (Target: '' @ lit target @ lit '')'' @ [10]"

definition verify_text :: rstring where
  "verify_text =
     verify_line ''KPCR'' KPCR ''KdVersionBlock'' ''0x108'' @ verify_line ''KPRCB'' KPRCB ''MinorVersion'' ''0x88'' @
     verify_line ''KPRCB'' KPRCB ''TscFrequency'' ''0x90'' @ verify_line ''KPRCB'' KPRCB ''ProcessorState'' ''0x100''"

text \<open>\<open>{:02X?}\<close> of an array of bytes.\<close>

fun byte_list :: "u8 list \<Rightarrow> rstring" where
  "byte_list [] = []"
| "byte_list [b] = hex_pad 2 (unat b)"
| "byte_list (b # bs) = hex_pad 2 (unat b) @ lit '', '' @ byte_list bs"

definition check_text :: "'k vm \<Rightarrow> rstring res" where
  "check_text vm =
     bind_r (unwrap_or (replicate 16 0) (read_memory vm 0xb92010 16)) (\<lambda>verify_code.
     Ok (lit ''[CHECK] Code at Entry (Phys 0xB92010): ['' @ byte_list verify_code @ lit '']'' @ [10]))"

text \<open>\<open>if let Err(e) = ...\<close>: the error that is printed, or the result.\<close>

primrec report :: "'a res \<Rightarrow> (string + 'a) res" where
  "report (Ok x) = Ok (Inr x)"
| "report (Err e) = Ok (Inl e)"
| "report Panic = Panic"

text \<open>The parameters: the processor calls, the sockets and the \<open>gdbstub\<close> library; KVM, its debug flags, the opened device
  and the address of the mapped memory for \<open>Vm::new\<close>; the Unicode tables, the parser of object files and the file
  system; the time of the start and the command line.\<close>

definition vwfl_main ::
  "'k vcpu_ops \<Rightarrow> ('l, 'c) tcp_ops \<Rightarrow> ('c \<Rightarrow> 'k stub_state \<Rightarrow> (disconnect_reason \<times> 'k stub_state) res) \<Rightarrow>
   (kvm_request \<Rightarrow> 'k \<Rightarrow> 'k res) \<Rightarrow> u32 \<Rightarrow> 'k res \<Rightarrow> u64 \<Rightarrow>
   unicode \<Rightarrow> (u8 list \<Rightarrow> parsed option) \<Rightarrow> filesystem \<Rightarrow> nat \<Rightarrow> rstring list \<Rightarrow>
   (string + 'k vm \<times> devices \<times> rstring) res" where
  "vwfl_main K T run_blocking ioctl dbg opened addr U obj files now args =
     (let out = lit ''-----Initializing VWFL Hypervisor-----'' @ [10] @ verify_text
      in bind_r (boot U obj files (sys32_path args) (Vm_new ioctl dbg opened addr)) (\<lambda>(krnl_entry_v, vm).
         bind_r (check_text vm) (\<lambda>check.
         report (run K T run_blocking now vm devices0 (out @ check) krnl_entry_v stack_v LPB_VBASE))))"

section \<open>What is printed at the start\<close>

lemma offsets_checked:
  "offset_of KPCR [''KdVersionBlock''] = 0x108" "offset_of KPRCB [''MinorVersion''] = 0x88"
  "offset_of KPRCB [''TscFrequency''] = 0x90" "offset_of KPRCB [''ProcessorState''] = 0x100"
  by (simp_all add: offset_of_def kpcr_offsets prcb_offsets)

lemma lower_hex_targets:
  "lower_hex 0 0x108 = lit ''108''" "lower_hex 0 0x88 = lit ''88''" "lower_hex 0 0x90 = lit ''90''" "lower_hex 0 0x100 = lit ''100''"
  by (simp_all add: lower_hex_def hex_pad_def hex.simps hex_digit_def lit_def)

text \<open>The offsets printed at the start are the targets printed beside them: each of the four lines has the same
  number twice.\<close>

theorem verify_text_matches:
  "verify_text = concat (map (\<lambda>(field, target).
     lit (''[VERIFY] '' @ field @ '' Offset: '' @ target @ '' (Target: '' @ target @ '')'') @ [10])
     [(''KPCR.KdVersionBlock'', ''0x108''), (''KPRCB.MinorVersion'', ''0x88''), (''KPRCB.TscFrequency'', ''0x90''),
      (''KPRCB.ProcessorState'', ''0x100'')])"
  by (simp add: verify_text_def verify_line_def offsets_checked lower_hex_targets [simplified] lit_def)

section \<open>The address space at the end\<close>

lemma report_Ok: "report r = Ok (Inr x) \<longleftrightarrow> r = Ok x"
  by (cases r) auto

lemma run_area_tables: "a \<in> table_area \<Longrightarrow> a \<notin> run_area"
  by (auto simp: table_area_def run_area_def)

text \<open>Property C13: the address space that the boot set up is still there when the debugger leaves. Over the whole
  program, from its arguments through loading, paging, set-up and any session of a debugger that asks for no
  write, as long as the guest itself leaves the page tables alone, the tables at \<open>pml4_p\<close> take the gigabyte of the
  kernel window and the stack window to their physical memory.\<close>

theorem program_keeps_address_space:
  assumes "vwfl_main K T run_blocking ioctl dbg opened addr U obj files now args = Ok (Inr (vm', dev', out))"
    and "stub_reads_only K R dbg_on dbg_step run_blocking" and "\<forall>a\<in>table_area. guest_keeps R a"
    and "boot_modules U obj files (sys32_path args) (Vm_new ioctl dbg opened addr) = Ok ms" and "boot_sized U files (sys32_path args) ms"
  shows "\<forall>x. unat x < 0x40000000 \<longrightarrow>
    translate (mem_ptr vm') pml4_p (K_VIRT_ANY + x) = Some x \<and> translate (mem_ptr vm') pml4_p (STACK_VBASE + x) = Some (STACK_PBASE + x)"
proof -
  obtain e vm1 out1 where b: "boot U obj files (sys32_path args) (Vm_new ioctl dbg opened addr) = Ok (e, vm1)"
    and r: "run K T run_blocking now vm1 devices0 out1 e stack_v LPB_VBASE = Ok (vm', dev', out)"
    using assms(1) by (auto simp: vwfl_main_def Let_def report_Ok)
  obtain vm2 dev2 out2 where 1: "run_start K now vm1 devices0 e stack_v LPB_VBASE = Ok (vm2, dev2)"
    and 2: "run_gdb_server T run_blocking vm2 dev2 out2 = Ok (vm', dev', out)"
    using r by (auto simp: run_def Let_def)
  have t1: "tables_intact (v_base (ms ! 1)) (mem_ptr vm1)" using boot_steps [OF b assms(4,5)] by simp
  have g: "guest_keeps R a" if "a \<in> table_area" for a using assms(3) that by blast
  have t: "tables_intact (v_base (ms ! 1)) (mem_ptr vm')"
  proof (rule tables_intactI)
    fix a assume a: "a \<in> table_area"
    have "mem_ptr vm' a = mem_ptr vm1 a"
      using run_gdb_server_mem [OF 2 assms(2) run_area_tables [OF a] g [OF a]] run_start_mem [OF 1 run_area_tables [OF a]] by simp
    then show "mem_ptr vm' a = paging_mem (v_base (ms ! 1)) (mem_ptr vm1) a"
      using fun_cong [OF t1 [unfolded tables_intact_def]] by (rule trans)
  qed
  note h = hal_base_of_boot [OF assms(4)]
  show ?thesis
    unfolding t [unfolded tables_intact_def h, THEN arg_cong [where f = "\<lambda>m. translate m pml4_p"]]
    using translate_kernel [OF hal_fits_loader] translate_stack [OF hal_fits_loader] by simp
qed

lemma plain_new: "Vm_new (\<lambda>r. Ok) 3 (Ok (regs0, sregs0)) 0x7F0000000000 = Ok (plain_vm sregs0)"
  by (simp add: Vm_new_def plain_vm_def add_chk_def MMIO_HOLE_START_def)

lemma main_done:
  "\<exists>vm' dev' out'. vwfl_main plain_vcpu plain_tcp one_step (\<lambda>r. Ok) 3 (Ok (regs0, sregs0)) 0x7F0000000000
     no_unicode bare_obj boot_fs 0 [lit ''vwfl'', lit ''d''] = Ok (Inr (vm', dev', out'))"
proof -
  obtain vm1 where b: "boot no_unicode bare_obj boot_fs (lit ''d'') (Ok (plain_vm sregs0)) = Ok (0xFFFFF80000200010, vm1)"
    using boot_done by blast
  obtain check where c: "check_text vm1 = Ok check" by (simp add: check_text_def read_memory_def MEM_SIZE_def)
  obtain vm2 where "setup_long_mode plain_vcpu vm1 0xFFFFF80000200010 stack_v LPB_VBASE = Ok vm2" using long_mode_done by blast
  then have r: "run_start plain_vcpu 0 vm1 devices0 0xFFFFF80000200010 stack_v LPB_VBASE = Ok (vm2, devices0\<lparr>START_TIME := Some 0\<rparr>)"
    by (simp add: run_start_def)
  have p: "sys32_path [lit ''vwfl'', lit ''d''] = lit ''d''" by (simp add: sys32_path_def)
  obtain out' where o: "run plain_vcpu plain_tcp one_step 0 vm1 devices0
      ((lit ''-----Initializing VWFL Hypervisor-----'' @ [10] @ verify_text) @ check) 0xFFFFF80000200010 stack_v LPB_VBASE =
      Ok (vm2, devices0\<lparr>START_TIME := Some 0\<rparr>, out')" using plain_run [OF r] by blast
  show ?thesis
    unfolding vwfl_main_def Let_def p plain_new b bind_r.simps prod.case c o by simp
qed

theorem program_keeps_address_space_witness:
  "\<exists>vm' dev' out'. vwfl_main plain_vcpu plain_tcp one_step (\<lambda>r. Ok) 3 (Ok (regs0, sregs0)) 0x7F0000000000
       no_unicode bare_obj boot_fs 0 [lit ''vwfl'', lit ''d''] = Ok (Inr (vm', dev', out')) \<and> translate (mem_ptr vm') pml4_p (K_VIRT_ANY + 0x200010) = Some 0x200010"
proof -
  obtain vm' dev' out' where m: "vwfl_main plain_vcpu plain_tcp one_step (\<lambda>r. Ok) 3 (Ok (regs0, sregs0)) 0x7F0000000000
      no_unicode bare_obj boot_fs 0 [lit ''vwfl'', lit ''d''] = Ok (Inr (vm', dev', out'))" using main_done by blast
  have p: "sys32_path [lit ''vwfl'', lit ''d''] = lit ''d''" by (simp add: sys32_path_def)
  have g: "\<forall>a\<in>table_area. guest_keeps halting a" by (simp add: guest_keeps_def halting_def)
  have "translate (mem_ptr vm') pml4_p (K_VIRT_ANY + 0x200010) = Some 0x200010"
    using program_keeps_address_space [OF m one_step_reads_only g, unfolded p plain_new, OF boot_modules_done boot_mods_sized] by simp
  then show ?thesis using m by blast
qed

end
