(* ===== verification/Bridge.thy ===== *)
theory Bridge
  imports EventLoop Traces
begin

text \<open>
  The WinDbg bridge of \<open>src/cpu.rs\<close>: the listener thread that \<open>start_windbg_server\<close> spawns, the reader
  thread it spawns for each connection, and the guest's accesses to the serial port. All of them share the
  input queue and the stream, each under a lock that it holds for one access, so an execution is a sequence of
  atomic actions. Which result a socket call gives is part of the action; connections are numbered in the order
  in which they are accepted. The last section ties the threads and the guest's actions to the rounds of the event
  loop.
\<close>

section \<open>The threads\<close>

text \<open>The listener before \<open>bind\<close>, in its accept loop, and after it returned (\<open>bind\<close> failed) or panicked
  (\<open>try_clone\<close> failed).\<close>

datatype listener = Binding | Incoming | Stopped

text \<open>A reader in its loop, between leaving it and clearing the stream, and ended.\<close>

datatype reader = Reading | Closing | Ended

record bridge =
  shared :: devices
  listener :: listener
  readers :: "reader list"

definition bridge0 :: bridge where
  "bridge0 = \<lparr>shared = devices0, listener = Binding, readers = []\<rparr>"

definition start_windbg_server :: "bool \<Rightarrow> bridge \<Rightarrow> bridge" where
  "start_windbg_server bound b = b\<lparr>listener := (if bound then Incoming else Stopped)\<rparr>"

text \<open>One turn of the accept loop on a connection; its number is the number of connections so far.\<close>

definition bridge_connect :: "bool \<Rightarrow> bridge \<Rightarrow> bridge" where
  "bridge_connect cloned b =
     (if cloned
      then b\<lparr>shared := (shared b)\<lparr>WINDBG_STREAM := Some \<lparr>conn = length (readers b), written = []\<rparr>\<rparr>,
             readers := readers b @ [Reading]\<rparr>
      else b\<lparr>listener := Stopped\<rparr>)"

text \<open>One turn of a reader's loop, from what \<open>read\<close> returned: \<open>None\<close> an error, such as no data on the
  nonblocking socket, \<open>Some []\<close> the end of the stream.\<close>

definition bridge_receive :: "u8 list \<Rightarrow> devices \<Rightarrow> devices" where
  "bridge_receive bs dev = dev\<lparr>SERIAL_IN_QUEUE := fold (\<lambda>b q. q @ [b]) bs (SERIAL_IN_QUEUE dev)\<rparr>"

definition reader_turn :: "nat \<Rightarrow> u8 list option \<Rightarrow> bridge \<Rightarrow> bridge" where
  "reader_turn i got b =
     (case got of
        Some buf \<Rightarrow>
          (if 0 < length buf then b\<lparr>shared := bridge_receive buf (shared b)\<rparr>
           else b\<lparr>readers := (readers b)[i := Closing]\<rparr>)
      | None \<Rightarrow> b)"

definition bridge_disconnect :: "nat \<Rightarrow> bridge \<Rightarrow> bridge" where
  "bridge_disconnect i b =
     b\<lparr>shared := (shared b)\<lparr>WINDBG_STREAM := None\<rparr>, readers := (readers b)[i := Ended]\<rparr>"

section \<open>Interleavings\<close>

datatype serial_action =
    Bind bool
  | Connected bool
  | AcceptError
  | ReadTurn nat "u8 list option"
  | Disconnected nat
  | GuestData u8
  | GuestStatus u8
  | GuestSend u8 bool

inductive serial_step :: "serial_action \<Rightarrow> bridge \<Rightarrow> bridge \<Rightarrow> bool" where
  bind: "listener b = Binding \<Longrightarrow> serial_step (Bind bound) b (start_windbg_server bound b)"
| connected: "listener b = Incoming \<Longrightarrow> serial_step (Connected cloned) b (bridge_connect cloned b)"
| accept_error: "listener b = Incoming \<Longrightarrow> serial_step AcceptError b b"
| read_turn: "i < length (readers b) \<Longrightarrow> readers b ! i = Reading \<Longrightarrow> (\<forall>buf. got = Some buf \<longrightarrow> length buf \<le> 1024) \<Longrightarrow>
    serial_step (ReadTurn i got) b (reader_turn i got b)"
| disconnected: "i < length (readers b) \<Longrightarrow> readers b ! i = Closing \<Longrightarrow>
    serial_step (Disconnected i) b (bridge_disconnect i b)"
| guest_data: "serial_in 0x3F8 [x] (shared b) = Ok ([v], d) \<Longrightarrow> serial_step (GuestData v) b (b\<lparr>shared := d\<rparr>)"
| guest_status: "serial_in 0x3FD [x] (shared b) = Ok ([v], d) \<Longrightarrow> serial_step (GuestStatus v) b (b\<lparr>shared := d\<rparr>)"
| guest_send: "serial_step (GuestSend v sent) b (b\<lparr>shared := windbg_send sent v (shared b)\<rparr>)"

abbreviation serial_run :: "serial_action list \<Rightarrow> bridge \<Rightarrow> bool" where
  "serial_run acts b \<equiv> steps serial_step acts bridge0 b"

declare steps_Cons [simp del] steps_append [simp del]

lemmas serial_start = steps.stop [of serial_step bridge0]
lemmas serial_more = steps_snoc [where step = serial_step and s = bridge0]

inductive_simps serial_step_data: "serial_step (GuestData v) b c"
inductive_simps serial_step_status: "serial_step (GuestStatus v) b c"

section \<open>What the actions do\<close>

definition arrived :: "serial_action list \<Rightarrow> u8 list" where
  "arrived acts = concat (map (\<lambda>a. case a of ReadTurn i (Some bs) \<Rightarrow> bs | _ \<Rightarrow> []) acts)"

definition guest_reads :: "serial_action list \<Rightarrow> u8 list" where
  "guest_reads acts = concat (map (\<lambda>a. case a of GuestData v \<Rightarrow> [v] | _ \<Rightarrow> []) acts)"

text \<open>What the guest sent since the latest connection.\<close>

definition guest_sent :: "serial_action list \<Rightarrow> u8 list" where
  "guest_sent acts = fold (\<lambda>a out. case a of
     Connected cloned \<Rightarrow> (if cloned then [] else out) | GuestSend v sent \<Rightarrow> (if sent then out @ [v] else out) | _ \<Rightarrow> out) acts []"

lemmas bridge_defs = start_windbg_server_def bridge_connect_def reader_turn_def bridge_disconnect_def windbg_send_def

lemma bridge_receive_queue: "bridge_receive bs d = d\<lparr>SERIAL_IN_QUEUE := SERIAL_IN_QUEUE d @ bs\<rparr>"
proof -
  have "fold (\<lambda>b q. q @ [b]) bs q = q @ bs" for q :: "u8 list" by (induction bs arbitrary: q) auto
  then show ?thesis by (simp add: bridge_receive_def)
qed

lemma serial_in_data:
  "serial_in 0x3F8 [x] d = Ok ([v], d') \<longleftrightarrow>
   v = (if SERIAL_IN_QUEUE d = [] then 0 else hd (SERIAL_IN_QUEUE d)) \<and>
   d' = d\<lparr>SERIAL_IN_QUEUE := tl (SERIAL_IN_QUEUE d)\<rparr>"
  by (auto simp: serial_in_def set_r_def Let_def)

lemma serial_in_status:
  "serial_in 0x3FD [x] d = Ok ([v], d') \<longleftrightarrow>
   v = (if SERIAL_IN_QUEUE d = [] then 0x60 else 0x61) \<and> d' = d"
  by (auto simp: serial_in_def set_r_def Let_def)

text \<open>How one action changes the queue, the stream and the readers.\<close>

lemma serial_step_queue:
  "serial_step a b c \<Longrightarrow> SERIAL_IN_QUEUE (shared c) =
     (case a of ReadTurn i (Some bs) \<Rightarrow> SERIAL_IN_QUEUE (shared b) @ bs
      | GuestData v \<Rightarrow> tl (SERIAL_IN_QUEUE (shared b)) | _ \<Rightarrow> SERIAL_IN_QUEUE (shared b))"
  by (erule serial_step.cases)
    (auto simp: bridge_receive_queue serial_in_data serial_in_status bridge_defs split: option.split)

lemma serial_step_stream:
  "serial_step a b c \<Longrightarrow> WINDBG_STREAM (shared c) =
     (case a of Connected cloned \<Rightarrow> (if cloned then Some \<lparr>conn = length (readers b), written = []\<rparr> else WINDBG_STREAM (shared b))
      | Disconnected i \<Rightarrow> None
      | GuestSend v sent \<Rightarrow> map_option (\<lambda>s. if sent then s\<lparr>written := written s @ [v]\<rparr> else s) (WINDBG_STREAM (shared b))
      | _ \<Rightarrow> WINDBG_STREAM (shared b))"
  by (erule serial_step.cases)
    (auto simp: bridge_receive_queue serial_in_data serial_in_status bridge_defs split: option.split)

lemma serial_step_readers:
  "serial_step a b c \<Longrightarrow> readers c =
     (case a of Connected cloned \<Rightarrow> (if cloned then readers b @ [Reading] else readers b)
      | ReadTurn i got \<Rightarrow> (if got = Some [] then (readers b)[i := Closing] else readers b)
      | Disconnected i \<Rightarrow> (readers b)[i := Ended]
      | _ \<Rightarrow> readers b)"
  by (erule serial_step.cases) (auto simp: bridge_defs split: option.split)

section \<open>Input\<close>

text \<open>The guest keeps the protocol when it reads data only after a status read that said there is some,
  with no other data read in between: \<open>ready\<close> is whether it may read now, \<open>polite\<close> whether it always did.\<close>

definition ready :: "serial_action list \<Rightarrow> bool" where
  "ready acts = fold (\<lambda>a r. case a of GuestStatus v \<Rightarrow> v = 0x61 | GuestData v \<Rightarrow> False | _ \<Rightarrow> r) acts False"

definition polite :: "serial_action list \<Rightarrow> bool" where
  "polite acts \<longleftrightarrow> (\<forall>n v. n < length acts \<and> acts ! n = GuestData v \<longrightarrow> ready (take n acts))"

lemma polite_snoc [simp]:
  "polite (acts @ [a]) \<longleftrightarrow> polite acts \<and> ((\<exists>v. a = GuestData v) \<longrightarrow> ready acts)"
  by (auto simp: polite_def nth_append less_Suc_eq)

lemma trace_snoc [simp]:
  "arrived (acts @ [a]) = arrived acts @ (case a of ReadTurn i (Some bs) \<Rightarrow> bs | _ \<Rightarrow> [])"
  "guest_reads (acts @ [a]) = guest_reads acts @ (case a of GuestData v \<Rightarrow> [v] | _ \<Rightarrow> [])"
  "ready (acts @ [a]) = (case a of GuestStatus v \<Rightarrow> v = 0x61 | GuestData v \<Rightarrow> False | _ \<Rightarrow> ready acts)"
  "guest_sent (acts @ [a]) = (case a of Connected cloned \<Rightarrow> (if cloned then [] else guest_sent acts)
     | GuestSend v sent \<Rightarrow> (if sent then guest_sent acts @ [v] else guest_sent acts) | _ \<Rightarrow> guest_sent acts)"
  by (simp_all add: arrived_def guest_reads_def ready_def guest_sent_def split: serial_action.split)

lemma trace_Nil [simp]: "arrived [] = []" "guest_reads [] = []" "\<not> ready []" "guest_sent [] = []"
  by (simp_all add: arrived_def guest_reads_def ready_def guest_sent_def)

lemma bridge0_simps [simp]:
  "SERIAL_IN_QUEUE (shared bridge0) = []" "WINDBG_STREAM (shared bridge0) = None" "readers bridge0 = []" "listener bridge0 = Binding"
  by (simp_all add: bridge0_def devices0_def)

lemma ready_queue: "serial_run acts b \<Longrightarrow> ready acts \<Longrightarrow> SERIAL_IN_QUEUE (shared b) \<noteq> []"
proof (induction rule: steps_induct_last)
  case (more acts b a c)
  note q = serial_step_queue [OF more.hyps(2)]
  show ?case
  proof (cases a)
    case (GuestStatus v)
    with more show ?thesis by (auto simp: serial_step_status serial_in_status split: if_splits)
  qed (use more q in \<open>auto split: option.splits\<close>)
qed simp

text \<open>Property C18: bytes from the debugger reach the guest in order, none lost and none invented, however the
  listener, the readers of any number of connections and the guest interleave: when the guest reads data only
  after a status read that announced it, what it has read followed by what is still queued is what the
  readers have received.\<close>

theorem serial_fifo:
  assumes "serial_run acts b" and "polite acts"
  shows "arrived acts = guest_reads acts @ SERIAL_IN_QUEUE (shared b)"
  using assms
proof (induction rule: steps_induct_last)
  case (more acts b a c)
  note q = serial_step_queue [OF more.hyps(2)]
  show ?case
  proof (cases a)
    case (GuestData v)
    then have "SERIAL_IN_QUEUE (shared b) \<noteq> []" using more ready_queue by simp
    moreover have "v = hd (SERIAL_IN_QUEUE (shared b))"
      using more.hyps(2) GuestData calculation by (auto simp: serial_step_data serial_in_data)
    ultimately show ?thesis using q GuestData more by (cases "SERIAL_IN_QUEUE (shared b)") simp_all
  qed (use more q in \<open>auto split: option.splits\<close>)
qed simp

lemma example_run:
  "\<exists>b. serial_run [Bind True, Connected True, ReadTurn 0 (Some [7, 8]), ReadTurn 0 None, GuestStatus 0x61, GuestData 7] b"
proof -
  let ?b1 = "start_windbg_server True bridge0"
  let ?b2 = "bridge_connect True ?b1"
  let ?b3 = "reader_turn 0 (Some [7, 8]) ?b2"
  let ?d = "(shared ?b3)\<lparr>SERIAL_IN_QUEUE := [8]\<rparr>"
  have "serial_run [Bind True] ?b1"
    using serial_more [OF serial_start serial_step.bind [of bridge0 True]] by simp
  from serial_more [OF this serial_step.connected [of ?b1 True]]
  have "serial_run [Bind True, Connected True] ?b2" by (simp add: bridge_defs)
  from serial_more [OF this serial_step.read_turn [of 0 ?b2 "Some [7, 8]"]]
  have "serial_run [Bind True, Connected True, ReadTurn 0 (Some [7, 8])] ?b3" by (simp add: bridge_defs)
  from serial_more [OF this serial_step.read_turn [of 0 ?b3 None]]
  have "serial_run [Bind True, Connected True, ReadTurn 0 (Some [7, 8]), ReadTurn 0 None] ?b3" by (simp add: bridge_defs)
  from serial_more [OF this serial_step.guest_status [of 0 ?b3 "0x61" "shared ?b3"]]
  have "serial_run [Bind True, Connected True, ReadTurn 0 (Some [7, 8]), ReadTurn 0 None, GuestStatus 0x61] ?b3"
    by (simp add: serial_in_status bridge_defs bridge_receive_queue)
  from serial_more [OF this serial_step.guest_data [of 0 ?b3 7 ?d]]
  show ?thesis by (auto simp: serial_in_data bridge_defs bridge_receive_queue)
qed

theorem serial_fifo_witness:
  "\<exists>b. serial_run [Bind True, Connected True, ReadTurn 0 (Some [7, 8]), ReadTurn 0 None, GuestStatus 0x61, GuestData 7] b \<and>
     [7, 8] = [7] @ SERIAL_IN_QUEUE (shared b)"
proof -
  obtain b where b: "serial_run [Bind True, Connected True, ReadTurn 0 (Some [7, 8]), ReadTurn 0 None, GuestStatus 0x61, GuestData 7] b"
    using example_run by blast
  have "polite [Bind True, Connected True, ReadTurn 0 (Some [7, 8]), ReadTurn 0 None, GuestStatus 0x61, GuestData 7]"
    by (simp add: polite_def ready_def less_Suc_eq nth_Cons' numeral_eq_Suc)
  from serial_fifo [OF b this] b show ?thesis by (auto simp: arrived_def guest_reads_def)
qed

section \<open>Output\<close>

text \<open>Connections follow one another when each is accepted only after the readers of all earlier ones ended.\<close>

definition connections :: "serial_action list \<Rightarrow> nat" where
  "connections acts = length (filter (\<lambda>a. a = Connected True) acts)"

definition sequential :: "serial_action list \<Rightarrow> bool" where
  "sequential acts \<longleftrightarrow> (\<forall>n < length acts. acts ! n = Connected True \<longrightarrow>
     (\<forall>i < connections (take n acts). Disconnected i \<in> set (take n acts)))"

lemma sequential_snoc [simp]:
  "sequential (acts @ [a]) \<longleftrightarrow> sequential acts \<and> (a = Connected True \<longrightarrow> (\<forall>i < connections acts. Disconnected i \<in> set acts))"
  by (auto simp: sequential_def nth_append less_Suc_eq)

lemma connections_snoc [simp]: "connections (acts @ [a]) = connections acts + (if a = Connected True then 1 else 0)"
  by (simp add: connections_def)

text \<open>There is one reader per connection, and those that have ended are those that cleared the stream.\<close>

lemma run_readers:
  "serial_run acts b \<Longrightarrow> length (readers b) = connections acts \<and>
     (\<forall>i. Disconnected i \<in> set acts \<longleftrightarrow> i < length (readers b) \<and> readers b ! i = Ended)"
proof (induction rule: steps_induct_last)
  case (more acts b a c)
  note r = serial_step_readers [OF more.hyps(2)]
  show ?case
    using more.hyps(2)
  proof cases
    case (connected cloned)
    then show ?thesis using more.IH r by (auto simp: nth_append less_Suc_eq)
  next
    case (read_turn i got)
    then show ?thesis using more.IH r by (auto simp: nth_list_update)
  next
    case (disconnected i)
    then show ?thesis using more.IH r by (auto simp: nth_list_update)
  qed (use more.IH r in auto)
qed (simp add: connections_def)

lemma sequential_readers:
  "serial_run acts b \<Longrightarrow> sequential acts \<Longrightarrow> Suc i < length (readers b) \<Longrightarrow> readers b ! i = Ended"
proof (induction arbitrary: i rule: steps_induct_last)
  case (more acts b a c)
  note r = serial_step_readers [OF more.hyps(2)] and n = run_readers [OF more.hyps(1)]
  show ?case
    using more.hyps(2)
  proof cases
    case (connected cloned)
    then show ?thesis using more.prems n r more.IH by (auto simp: nth_append split: if_splits)
  next
    case (read_turn j got)
    then show ?thesis using more.prems r more.IH by (auto simp: nth_list_update split: if_splits)
  next
    case (disconnected j)
    then show ?thesis using more.prems r more.IH by (auto simp: nth_list_update split: if_splits)
  qed (use more r in auto)
qed simp

text \<open>Property C19: the stream of the serial port always belongs to the latest connection, whose reader has not
  ended, and holds exactly what the guest managed to send since that connection was accepted, in order; and as
  long as connections follow one another, it is missing only when no reader is left.\<close>

theorem bridge_stream_correct:
  assumes "serial_run acts b"
  shows "case WINDBG_STREAM (shared b) of
      Some s \<Rightarrow> Suc (conn s) = length (readers b) \<and> readers b ! conn s \<noteq> Ended \<and> written s = guest_sent acts
    | None \<Rightarrow> sequential acts \<longrightarrow> (\<forall>r \<in> set (readers b). r = Ended)"
  using assms
proof (induction rule: steps_induct_last)
  case (more acts b a c)
  note q = serial_step_stream [OF more.hyps(2)] and r = serial_step_readers [OF more.hyps(2)]
  show ?case
    using more.hyps(2)
  proof cases
    case (connected cloned)
    then show ?thesis using more.IH q r by (auto split: option.splits)
  next
    case (read_turn i got)
    then show ?thesis using more.IH q r
      by (auto simp: nth_list_update in_set_conv_nth split: option.splits)
  next
    case (disconnected i)
    have "readers c ! j = Ended" if "sequential acts" "j < length (readers c)" for j
      using that disconnected r sequential_readers [OF more.hyps(1), of j] sequential_readers [OF more.hyps(1), of i]
      by (cases "Suc j < length (readers b)"; cases "Suc i < length (readers b)") (auto simp: nth_list_update less_Suc_eq)
    then show ?thesis using q disconnected by (auto simp: in_set_conv_nth)
  qed (use more.IH q r in \<open>auto split: option.splits\<close>)
qed simp

theorem bridge_stream_correct_witness:
  "\<exists>b. serial_run [Bind True, Connected True, ReadTurn 0 (Some [7, 8]), ReadTurn 0 None, GuestStatus 0x61, GuestData 7] b \<and>
     (WINDBG_STREAM (shared b) = None \<longrightarrow> (\<forall>r \<in> set (readers b). r = Ended))"
proof -
  obtain b where b: "serial_run [Bind True, Connected True, ReadTurn 0 (Some [7, 8]), ReadTurn 0 None, GuestStatus 0x61, GuestData 7] b"
    using example_run by blast
  have "sequential [Bind True, Connected True, ReadTurn 0 (Some [7, 8]), ReadTurn 0 None, GuestStatus 0x61, GuestData 7]"
    by (simp add: sequential_def connections_def less_Suc_eq nth_Cons' numeral_eq_Suc)
  with bridge_stream_correct [OF b] b show ?thesis by (auto split: option.splits)
qed

text \<open>Property C20: when a second connection is accepted while the reader of the first is still in its loop, the
  end of the first takes the stream of the second: its reader runs on, but everything the guest sends is
  dropped until another connection is accepted.\<close>

theorem stale_disconnect:
  assumes "serial_run acts b" and "listener b = Incoming" and "i < length (readers b)" and "readers b ! i = Reading"
  shows "\<exists>c. serial_run (acts @ [Connected True, ReadTurn i (Some []), Disconnected i]) c \<and>
    readers c ! length (readers b) = Reading \<and> WINDBG_STREAM (shared c) = None \<and>
    (\<forall>v sent. windbg_send sent v (shared c) = shared c)"
proof -
  let ?b1 = "bridge_connect True b"
  let ?b2 = "reader_turn i (Some []) ?b1"
  let ?b3 = "bridge_disconnect i ?b2"
  have "serial_run (acts @ [Connected True]) ?b1"
    using serial_more [OF assms(1) serial_step.connected [OF assms(2)]] .
  from serial_more [OF this serial_step.read_turn [of i ?b1 "Some []"]]
  have "serial_run (acts @ [Connected True, ReadTurn i (Some [])]) ?b2"
    using assms by (simp add: bridge_defs nth_append)
  from serial_more [OF this serial_step.disconnected [of i ?b2]]
  have "serial_run (acts @ [Connected True, ReadTurn i (Some []), Disconnected i]) ?b3"
    using assms by (simp add: bridge_defs nth_append)
  moreover have "readers ?b3 ! length (readers b) = Reading" "WINDBG_STREAM (shared ?b3) = None"
    using assms(3) by (simp_all add: bridge_defs list_update_append nth_append)
  moreover have "windbg_send sent v (shared ?b3) = shared ?b3" for v sent
    by (simp add: windbg_send_def bridge_disconnect_def)
  ultimately show ?thesis by blast
qed

theorem stale_disconnect_witness:
  "\<exists>c. serial_run [Bind True, Connected True, Connected True, ReadTurn 0 (Some []), Disconnected 0] c \<and>
     readers c ! 1 = Reading \<and> WINDBG_STREAM (shared c) = None"
proof -
  let ?b1 = "start_windbg_server True bridge0"
  let ?b2 = "bridge_connect True ?b1"
  have "serial_run [Bind True] ?b1"
    using serial_more [OF serial_start serial_step.bind [of bridge0 True]] by simp
  from serial_more [OF this serial_step.connected [of ?b1 True]]
  have "serial_run [Bind True, Connected True] ?b2" by (simp add: bridge_defs)
  from stale_disconnect [OF this, of 0] show ?thesis by (auto simp: bridge_defs)
qed

section \<open>The bridge and the event loop\<close>

text \<open>What the threads do between two accesses of the guest is what a round of the event loop takes in as \<open>bridge_turn\<close>:
  they append what arrived to the queue and leave some stream behind; the other devices are not theirs.\<close>

fun thread_action :: "serial_action \<Rightarrow> bool" where
  "thread_action (GuestData v) = False"
| "thread_action (GuestStatus v) = False"
| "thread_action (GuestSend v sent) = False"
| "thread_action a = True"

lemma thread_step_devices:
  "serial_step a b c \<Longrightarrow> thread_action a \<Longrightarrow>
   APIC (shared c) = APIC (shared b) \<and> HPET (shared c) = HPET (shared b) \<and> START_TIME (shared c) = START_TIME (shared b)"
  by (erule serial_step.cases) (auto simp: bridge_defs bridge_receive_queue split: option.split)

interpretation thread_devices: kept_by serial_step "\<lambda>b. (APIC (shared b), HPET (shared b), START_TIME (shared b))" thread_action
  by unfold_locales (simp add: thread_step_devices)

lemma threads_queue:
  "steps serial_step acts b c \<Longrightarrow> list_all thread_action acts \<Longrightarrow> SERIAL_IN_QUEUE (shared c) = SERIAL_IN_QUEUE (shared b) @ arrived acts"
proof (induction rule: steps_induct_last)
  case (more acts t a c)
  have "thread_action a" using more.prems by simp
  then show ?case
    using serial_step_queue [OF more.hyps(2)] more by (cases a) (auto split: option.split)
qed simp

lemma threads_turn:
  assumes "steps serial_step acts b c" and "list_all thread_action acts" and "in_bytes inp = arrived acts"
    and "in_stream inp = Some (WINDBG_STREAM (shared c))"
  shows "shared c = bridge_turn inp (shared b)"
  using threads_queue [OF assms(1,2)] thread_devices.quiet_steps [OF assms(2,1)] assms(3,4)
  by (simp add: bridge_turn_def)

text \<open>The accesses of the guest in the event loop are the guest's actions on the bridge.\<close>

lemma guest_exits:
  assumes "shared b = lp_dev st"
  shows "handle_exit K R inp (IoIn 0x3F8 [x]) st = Ok (st', ev) \<Longrightarrow> \<exists>v. serial_step (GuestData v) b (b\<lparr>shared := lp_dev st'\<rparr>)"
    and "handle_exit K R inp (IoIn 0x3FD [x]) st = Ok (st', ev) \<Longrightarrow> \<exists>v. serial_step (GuestStatus v) b (b\<lparr>shared := lp_dev st'\<rparr>)"
    and "handle_exit K R inp (IoOut 0x3F8 [v]) st = Ok (st', ev) \<Longrightarrow>
      serial_step (GuestSend v (in_sent inp)) b (b\<lparr>shared := lp_dev st'\<rparr>)"
proof -
  show "handle_exit K R inp (IoIn 0x3F8 [x]) st = Ok (st', ev) \<Longrightarrow> \<exists>v. serial_step (GuestData v) b (b\<lparr>shared := lp_dev st'\<rparr>)"
    using assms by (auto simp: handle_exit_def serial_in_def set_r_def reply_def Let_def serial_step_data)
  show "handle_exit K R inp (IoIn 0x3FD [x]) st = Ok (st', ev) \<Longrightarrow> \<exists>v. serial_step (GuestStatus v) b (b\<lparr>shared := lp_dev st'\<rparr>)"
    using assms by (auto simp: handle_exit_def serial_in_def set_r_def reply_def Let_def serial_step_status)
  show "handle_exit K R inp (IoOut 0x3F8 [v]) st = Ok (st', ev) \<Longrightarrow>
      serial_step (GuestSend v (in_sent inp)) b (b\<lparr>shared := lp_dev st'\<rparr>)"
    using assms serial_step.guest_send [of v "in_sent inp" b] by (auto simp: handle_exit_def get_r_def)
qed

end
