(* ===== verification/Inspect.thy ===== *)
theory Inspect
  imports BootRun
begin

text \<open>
  The booted machine as its two inspectors see it: the debugger, whose memory requests go through the page walk of
  \<open>src/gdb.rs\<close>, and the diagnostics of \<open>src/debug.rs\<close>, which translate addresses by a fixed table of windows. On a
  machine that was booted and started the two agree in the windows of the kernel half, and the places where they do
  not are named.
\<close>

unbundle bit_operations_syntax

section \<open>The walk of a started machine\<close>

text \<open>The windows of a started machine, by the debugger's walk and by the tables.\<close>

lemma started_windows:
  fixes new_vm :: "'k vm res"
  assumes "boot_and_start K U obj files path new_vm = Ok vm'" and "regs_law K" and "sregs_law K"
    and "boot_modules U obj files path new_vm = Ok ms" and "boot_sized U files path ms"
  shows "unat x < 0x40000000 \<Longrightarrow> virt_to_phys K vm' (K_VIRT_ANY + x) = Ok x"
    and "unat x < 0x40000000 \<Longrightarrow> virt_to_phys K vm' (STACK_VBASE + x) = Ok (STACK_PBASE + x)"
    and "unat x < 0x1000 \<Longrightarrow> virt_to_phys K vm' (0xFFFFF78000000000 + x) = Ok (KUSER_PBASE + x)"
    and "0x1000 \<le> unat x \<Longrightarrow> unat x < 0x200000 \<Longrightarrow> translate (mem_ptr vm') pml4_p (0xFFFFF78000000000 + x) = None"
    and "unat x < 0x8000000000 \<Longrightarrow> translate (mem_ptr vm') pml4_p x = None"
    and "unat x < 0x4000000 \<Longrightarrow> virt_to_phys K vm' (0xFFFFF80042000000 + x) = Ok (HAL_PBASE + x)"
proof -
  obtain r0 s0 where "get_regs K (kvm_fd vm') =
      Ok (r0\<lparr>rip := mod_entry (ms ! 0), rsp := stack_v - 0x100, rflags := 0x2, rcx := LPB_VBASE, rdx := LPB_VBASE\<rparr>)"
    and "get_sregs K (kvm_fd vm') = Ok (long_mode_sregs (LPB_VBASE + 0x10000) s0)"
    and w: "\<forall>v. virt_to_phys K vm' v =
      Ok (case translate (paging_mem (v_base (ms ! 1)) (mem_ptr vm')) pml4_p v of None \<Rightarrow> v | Some p \<Rightarrow> p)"
    and t: "mem_ptr vm' = paging_mem (v_base (ms ! 1)) (mem_ptr vm')"
    by (rule started_walk [OF assms])
  note w = w [rule_format, unfolded hal_base_of_boot [OF assms(4)]] and t = t [unfolded hal_base_of_boot [OF assms(4)]]
  show "unat x < 0x40000000 \<Longrightarrow> virt_to_phys K vm' (K_VIRT_ANY + x) = Ok x"
    unfolding w using translate_kernel [OF hal_fits_loader] by simp
  show "unat x < 0x40000000 \<Longrightarrow> virt_to_phys K vm' (STACK_VBASE + x) = Ok (STACK_PBASE + x)"
    unfolding w using translate_stack [OF hal_fits_loader] by simp
  show "unat x < 0x1000 \<Longrightarrow> virt_to_phys K vm' (0xFFFFF78000000000 + x) = Ok (KUSER_PBASE + x)"
    unfolding w using translate_kuser [OF hal_fits_loader] by simp
  show "0x1000 \<le> unat x \<Longrightarrow> unat x < 0x200000 \<Longrightarrow> translate (mem_ptr vm') pml4_p (0xFFFFF78000000000 + x) = None"
    by (subst t) (rule translate_kuser_rest [OF hal_fits_loader])
  show "unat x < 0x8000000000 \<Longrightarrow> translate (mem_ptr vm') pml4_p x = None"
    by (subst t) (rule translate_low_half [OF hal_fits_loader])
  show "unat x < 0x4000000 \<Longrightarrow> virt_to_phys K vm' (0xFFFFF80042000000 + x) = Ok (HAL_PBASE + x)"
    unfolding w using translate_hal_window [OF hal_fits_loader] by (simp add: hal_pd_idx_def)
qed

section \<open>Memory access through the debugger\<close>

lemma read_addrs_at:
  "virt_to_phys K (target_vm t) v = Ok p \<Longrightarrow> unat p + length d \<le> MEM_SIZE \<Longrightarrow>
   read_addrs K t v d = Ok (length d, load (mem_ptr (target_vm t)) (unat p) (length d))"
  by (simp add: read_addrs_def read_memory_ok)

lemma write_addrs_at:
  "virt_to_phys K (target_vm t) v = Ok p \<Longrightarrow> unat p + length d \<le> MEM_SIZE \<Longrightarrow>
   write_addrs K t v d = Ok (t\<lparr>target_vm := (target_vm t)\<lparr>mem_ptr := store (mem_ptr (target_vm t)) (unat p) d\<rparr>\<rparr>)"
  by (simp add: write_addrs_def write_memory_ok)

text \<open>Property C15: on a booted machine the debugger sees memory. Whatever range of the kernel window it reads, it gets
  exactly the bytes at those physical addresses, and what it writes there is stored at those and no others. But only
  the first address is translated: a request that crosses the end of the shared user page succeeds and returns bytes of
  the next physical page, although the next virtual page is not mapped.\<close>

theorem debugger_memory_access:
  fixes new_vm :: "'k vm res"
  assumes "boot_and_start K U obj files path new_vm = Ok vm'" and "regs_law K" and "sregs_law K"
    and "boot_modules U obj files path new_vm = Ok ms" and "boot_sized U files path ms" and "target_vm t = vm'"
  shows "(\<forall>x n. unat x + n \<le> 0x40000000 \<and> 0 < n \<longrightarrow>
      read_addrs K t (K_VIRT_ANY + x) (replicate n 0) = Ok (n, load (mem_ptr vm') (unat x) n)) \<and>
    (\<forall>x d. unat x + length d \<le> 0x40000000 \<and> 0 < length d \<longrightarrow>
      (\<exists>t'. write_addrs K t (K_VIRT_ANY + x) d = Ok t' \<and> mem_ptr (target_vm t') = store (mem_ptr vm') (unat x) d)) \<and>
    read_addrs K t 0xFFFFF78000000FF0 (replicate 32 0) = Ok (32, load (mem_ptr vm') 0x9000FF0 32) \<and>
    translate (mem_ptr vm') pml4_p 0xFFFFF78000001000 = None"
proof -
  note w = started_windows [OF assms(1-5)]
  have "read_addrs K t (K_VIRT_ANY + x) (replicate n 0) = Ok (n, load (mem_ptr vm') (unat x) n)"
    if "unat x + n \<le> 0x40000000" "0 < n" for x n
    using read_addrs_at [of K t "K_VIRT_ANY + x" x "replicate n 0"] w(1) [of x] that assms(6) by (simp add: MEM_SIZE_def)
  moreover have "\<exists>t'. write_addrs K t (K_VIRT_ANY + x) d = Ok t' \<and> mem_ptr (target_vm t') = store (mem_ptr vm') (unat x) d"
    if "unat x + length d \<le> 0x40000000" "0 < length d" for x d
    using write_addrs_at [of K t "K_VIRT_ANY + x" x d] w(1) [of x] that assms(6) by (simp add: MEM_SIZE_def)
  moreover have "read_addrs K t 0xFFFFF78000000FF0 (replicate 32 0) = Ok (32, load (mem_ptr vm') 0x9000FF0 32)"
    using read_addrs_at [of K t "0xFFFFF78000000FF0" "0x9000FF0" "replicate 32 0"] w(3) [of "0xFF0"] assms(6)
    by (simp add: MEM_SIZE_def layout_defs)
  moreover have "translate (mem_ptr vm') pml4_p 0xFFFFF78000001000 = None" using w(4) [of "0x1000"] by simp
  ultimately show ?thesis by blast
qed

theorem debugger_memory_access_witness:
  "\<exists>vm'. boot_and_start plain_vcpu no_unicode bare_obj boot_fs (lit ''d'') (Ok (plain_vm sregs0)) = Ok vm' \<and>
     read_addrs plain_vcpu \<lparr>target_vm = vm', resume_action = None\<rparr> (K_VIRT_ANY + 0x200000) (replicate 4 0) =
       Ok (4, load (mem_ptr vm') 0x200000 4)"
proof -
  obtain vm' where s: "boot_and_start plain_vcpu no_unicode bare_obj boot_fs (lit ''d'') (Ok (plain_vm sregs0)) = Ok vm'"
    using boot_and_start_done by blast
  from debugger_memory_access [OF s plain_regs_law plain_sregs_law boot_modules_done boot_mods_sized,
      of "\<lparr>target_vm = vm', resume_action = None\<rparr>"] s
  show ?thesis by (auto dest!: spec [of _ "0x200000"])
qed

section \<open>The windows of the diagnostics\<close>

lemma window_offset:
  fixes v b n :: u64
  assumes "b \<le> v" and "v < b + n" and "unat b + unat n < 2 ^ 64"
  shows "unat (v - b) < unat n"
proof -
  have "unat v < unat b + unat n" using assms(2,3) by (simp add: word_less_nat_alt unat_plus_lt)
  then show ?thesis using assms(1) by (simp add: unat_sub word_le_nat_alt)
qed

text \<open>Where the fixed table answers in the kernel half.\<close>

lemma dbg_high:
  assumes "dbg_virt_to_phys v = Some p" and "0xFFFFF80000000000 \<le> v"
  obtains (kernel) "v = K_VIRT_ANY + p" "unat p < 0x40000000"
  | (stack) x where "v = STACK_VBASE + x" "p = STACK_PBASE + x" "unat x < 0x40000000"
proof -
  have hi: "\<not> v < 0x1c2000000" "\<not> v < 0xFFFFF78000200000" "\<not> unat v < MEM_SIZE"
    using assms(2) by (simp_all add: word_less_nat_alt word_le_nat_alt MEM_SIZE_def)
  consider (sys) "0xFFFFF80008000000 \<le> v" "v < 0xFFFFF80008000000 + 0x8000000" "p = v - 0xFFFFF80008000000 + 0x8000000"
    | (krnl) "0xFFFFF80000200000 \<le> v" "v < 0xFFFFF80000200000 + 0x8000000" "p = v - 0xFFFFF80000200000 + 0x200000"
    | (stk) "0xFFFFFE8000000000 \<le> v" "v < 0xFFFFFE8000000000 + 0x8000000" "p = v - 0xFFFFFE8000000000 + 0x0A000000"
    using assms(1) hi by (auto simp: dbg_virt_to_phys_def layout_defs Let_def split: if_splits)
  then show thesis
  proof cases
    case sys
    have o: "unat (v - 0xFFFFF80008000000) < 0x8000000" using window_offset [OF sys(1,2)] by simp
    have "unat p = unat (v - 0xFFFFF80008000000) + 0x8000000" unfolding sys(3) using o by (subst unat_plus_lt) simp_all
    then show ?thesis using kernel sys(3) o by (simp add: K_VIRT_ANY_def)
  next
    case krnl
    have o: "unat (v - 0xFFFFF80000200000) < 0x8000000" using window_offset [OF krnl(1,2)] by simp
    have "unat p = unat (v - 0xFFFFF80000200000) + 0x200000" unfolding krnl(3) using o by (subst unat_plus_lt) simp_all
    then show ?thesis using kernel krnl(3) o by (simp add: K_VIRT_ANY_def)
  next
    case stk
    have "unat (v - 0xFFFFFE8000000000) < 0x8000000" using window_offset [OF stk(1,2)] by simp
    then show ?thesis using stack [of "v - 0xFFFFFE8000000000"] stk(3) by (simp add: layout_defs add.commute)
  qed
qed

text \<open>Property C16: on a booted machine the fixed windows of the diagnostics agree with the page tables wherever they answer
  for an address of the kernel half, and in the shared user page. They disagree elsewhere: beyond the first page of
  the shared user window and in the window \<open>0x1c0000000\<close> that stands for the HAL they answer for addresses that are
  not mapped, and for the addresses at which the HAL window is mapped they do not answer.\<close>

theorem debug_windows_agree:
  fixes new_vm :: "'k vm res"
  assumes "boot_and_start K U obj files path new_vm = Ok vm'" and "regs_law K" and "sregs_law K"
    and "boot_modules U obj files path new_vm = Ok ms" and "boot_sized U files path ms"
  shows "(\<forall>v p. dbg_virt_to_phys v = Some p \<and> 0xFFFFF80000000000 \<le> v \<longrightarrow> virt_to_phys K vm' v = Ok p) \<and>
    (\<forall>x. unat x < 0x200000 \<longrightarrow> dbg_virt_to_phys (0xFFFFF78000000000 + x) = Some (KUSER_PBASE + x) \<and>
       (if unat x < 0x1000 then virt_to_phys K vm' (0xFFFFF78000000000 + x) = Ok (KUSER_PBASE + x)
        else translate (mem_ptr vm') pml4_p (0xFFFFF78000000000 + x) = None)) \<and>
    (\<forall>x. unat x < 0x2000000 \<longrightarrow>
       dbg_virt_to_phys (0x1c0000000 + x) = Some (HAL_PBASE + x) \<and> translate (mem_ptr vm') pml4_p (0x1c0000000 + x) = None \<and>
       dbg_virt_to_phys (0xFFFFF80042000000 + x) = None \<and> virt_to_phys K vm' (0xFFFFF80042000000 + x) = Ok (HAL_PBASE + x))"
proof -
  note w = started_windows [OF assms]
  have a: "virt_to_phys K vm' v = Ok p" if "dbg_virt_to_phys v = Some p" "0xFFFFF80000000000 \<le> v" for v p
    using that by (rule dbg_high) (simp_all add: w(1,2))
  have k: "dbg_virt_to_phys (0xFFFFF78000000000 + x) = Some (KUSER_PBASE + x)" if "unat x < 0x200000" for x
  proof -
    have "unat (0xFFFFF78000000000 + x) = 0xFFFFF78000000000 + unat x" using that by (simp add: unat_plus_lt)
    then show ?thesis using that
      by (simp add: dbg_virt_to_phys_def layout_defs Let_def word_le_nat_alt word_less_nat_alt add.commute [of x])
  qed
  have h: "dbg_virt_to_phys (0x1c0000000 + x) = Some (HAL_PBASE + x) \<and> translate (mem_ptr vm') pml4_p (0x1c0000000 + x) = None \<and>
     dbg_virt_to_phys (0xFFFFF80042000000 + x) = None" if "unat x < 0x2000000" for x
  proof -
    have u: "unat (0x1c0000000 + x) = 0x1c0000000 + unat x" "unat (0xFFFFF80042000000 + x) = 0xFFFFF80042000000 + unat x"
      using that by (simp_all add: unat_plus_lt)
    then show ?thesis using that w(5) [of "0x1c0000000 + x"]
      by (simp add: dbg_virt_to_phys_def layout_defs Let_def word_le_nat_alt word_less_nat_alt MEM_SIZE_def add.commute [of x])
  qed
  show ?thesis using a k h w(3,4,6) by simp
qed

theorem debug_windows_agree_witness:
  "\<exists>vm'. boot_and_start plain_vcpu no_unicode bare_obj boot_fs (lit ''d'') (Ok (plain_vm sregs0)) = Ok vm' \<and>
     dbg_virt_to_phys 0xFFFFF80000200010 = Some 0x200010 \<and> virt_to_phys plain_vcpu vm' 0xFFFFF80000200010 = Ok 0x200010"
proof -
  obtain vm' where s: "boot_and_start plain_vcpu no_unicode bare_obj boot_fs (lit ''d'') (Ok (plain_vm sregs0)) = Ok vm'"
    using boot_and_start_done by blast
  have d: "dbg_virt_to_phys 0xFFFFF80000200010 = Some 0x200010" by (simp add: dbg_virt_to_phys_def layout_defs Let_def)
  from debug_windows_agree [OF s plain_regs_law plain_sregs_law boot_modules_done boot_mods_sized, THEN conjunct1, rule_format,
      of "0xFFFFF80000200010" "0x200010"] s d
  show ?thesis by auto
qed

end
