(* ===== verification/BootOverlap.thy ===== *)
theory BootOverlap
  imports BootRun
begin

text \<open>
  Data of the boot (\<open>src/main.rs\<close>) that share an address. The module entries are pages from \<open>0x4040000\<close> on, one per
  module; the OEM code page, the upper-case table and the API-set schema were written into the same range
  before. This theory follows the range to the end of the boot.
\<close>

definition shared_area :: "nat set" where
  "shared_area = {0x4040000..<0x4200000}"

lemma last_steps_keep:
  assumes "bind_all U ms vm11 = Ok vm12" and "setup_gdt vm12 = Ok vm13" and "setup_descriptors hs vm13 = Ok vm14"
    and "setup_diagnostic_idt vm14 = Ok vm'" and "clear_of shared_area (iat_slots U ms)"
  shows "keeps shared_area vm11 vm'"
proof -
  note keeps_bind [OF assms(1,5)]
  also have "keeps shared_area vm12 vm13" using keeps_gdt [OF assms(2)] by (simp add: shared_area_def)
  also have "keeps shared_area vm13 vm14" using keeps_descriptors [OF assms(3)] by (simp add: shared_area_def)
  also have "keeps shared_area vm14 vm'" using keeps_idt [OF assms(4)] by (simp add: shared_area_def)
  finally show ?thesis .
qed

text \<open>The entries of the modules, after the lists are linked.\<close>

lemma linked_entries:
  assumes "register_modules ms vm8 = Ok vm9" and "link_hal_ext (hal_ext_nodes U ms) vm9 = Ok vm10"
    and "link_modules (module_nodes ms) vm10 = Ok vm11" and n: "length ms \<le> 0x10000" and "list_all fits ms" and i: "i < length ms"
  shows "entry_at (mem_ptr vm11) i (ms ! i)"
proof -
  have ne: "ms \<noteq> []" using i by auto
  have "entry_at (mem_ptr vm9) i (ms ! i)"
    using register_modules_entries [of 0 ms vm8] assms(1,5) n i by (auto simp: register_modules_def)
  then show ?thesis
  proof (rule entry_at_frame)
    fix b assume b: "b \<in> entry_data i"
    have "mem_ptr vm10 b = mem_ptr vm9 b"
      using link_hal_ext_modules [OF n, of U vm9] assms(2) hal_free_data [OF b] by auto
    then show "mem_ptr vm11 b = mem_ptr vm9 b" using link_modules_frame [OF assms(3) ne n i b] by simp
  next
    show "length (name_bytes (mod_name (ms ! i))) \<le> 0xEB0" using assms(5) i by (simp add: list_all_length fits_def)
  qed
qed

text \<open>What lies behind the entries is left alone.\<close>

lemma linked_behind:
  assumes "register_modules ms vm8 = Ok vm9" and "link_hal_ext (hal_ext_nodes U ms) vm9 = Ok vm10"
    and "link_modules (module_nodes ms) vm10 = Ok vm11" and n: "length ms \<le> 0x10000" and "list_all fits ms"
    and b: "0x4040000 + 0x1000 * length ms \<le> b"
  shows "mem_ptr vm11 b = mem_ptr vm8 b"
proof -
  have ne: "ms \<noteq> []" using assms(3) by (auto simp: link_modules_def module_nodes_def)
  have "mem_ptr vm9 b = mem_ptr vm8 b"
    using register_modules_entries [of 0 ms vm8] assms(1,5) n b by (auto simp: register_modules_def)
  moreover have "hal_free (length ms) b" using b by (auto simp: hal_free_def)
  then have "mem_ptr vm10 b = mem_ptr vm9 b" using link_hal_ext_modules [OF n, of U vm9] assms(2) by auto
  moreover have "b < unat a \<or> unat a + length d \<le> b" if "(a, d) \<in> set (list_writes (module_nodes ms))" for a d
    using that n by (rule list_writes_cases) (use b in auto)
  then have "mem_ptr vm11 b = mem_ptr vm10 b"
    using batch_frame [OF assms(3) [unfolded link_modules_writes [OF ne n]]] by blast
  ultimately show ?thesis by simp
qed

lemma apiset_written:
  assumes "setup_apiset buf vm = Ok vm'" and "length buf \<le> 0x3F00000" and "i < length buf"
  shows "mem_ptr vm' (0x4060000 + i) = buf ! i"
proof -
  obtain v1 n where 1: "wr_ok apiset_p buf vm = Ok v1" and 2: "ok_or_keep v1 (set_apiset v1 ext_p (apiset_v + 0x2000) n) = Ok vm'"
    using assms(1) by (auto simp: setup_apiset_def)
  have "mem_ptr v1 (0x4060000 + i) = buf ! i"
    using 1 assms(2,3) by (auto simp: wr_ok_def apiset_p_def layout_defs write_memory_ok MEM_SIZE_def store_def)
  moreover have "mem_ptr vm' (0x4060000 + i) = mem_ptr v1 (0x4060000 + i)"
    using 2 by (auto simp: set_apiset_def ext_p_def OFFSET_IN_LPB_def layout_defs add_chk_def write_memory_ok MEM_SIZE_def store_def)
  ultimately show ?thesis by simp
qed

lemma nls_pointers:
  "peek nls_image (offset_of NLS_DATA_BLOCK [''OemCodePageData'']) 8 = le64 (K_VIRT_ANY + 0x4041020)"
  "peek nls_image (offset_of NLS_DATA_BLOCK [''UnicodeCaseTableData'']) 8 = le64 (K_VIRT_ANY + 0x4051000)"
  by (simp_all add: nls_image_def assign_def zeroed_def NLS_DATA_BLOCK_def offset_of_def round_up_def poke_def peek_def
      nls_v_base_def layout_defs)

text \<open>Property C17: what is left of the national-language tables and of the API-set schema at the end of a boot. The page
  of module \<open>i\<close> at \<open>0x4040000 + 0x1000 * i\<close> holds that module's base at \<open>0x30\<close>, whatever was there before. The kernel
  is told that the OEM code page is at physical \<open>0x4041020\<close>: in every boot that page is the entry of \<open>hal.dll\<close>, whose
  base is sixteen bytes into the table. The upper-case table at \<open>0x4051000\<close> begins with the entry of the module of
  index 17 in a boot of at least 18 modules, and the API-set schema at \<open>0x4060000\<close> with that of the module of index
  32 in a boot of at least 33; in a boot of at most 32 modules that finds a schema, the schema replaces the upper-case
  table from its byte \<open>0xF000\<close> on.\<close>

theorem nls_tables_overwritten:
  assumes "boot U obj files path new_vm = Ok (e, vm')" and "boot_modules U obj files path new_vm = Ok ms"
    and "boot_sized U files path ms" and "clear_of shared_area (iat_slots U ms)"
  shows "(let m = mem_ptr vm'; upcase_table = unat (nls_p_base + 0x21000)
    in peek nls_image (offset_of NLS_DATA_BLOCK [''OemCodePageData'']) 8 = le64 (K_VIRT_ANY + 0x4041020) \<and>
       peek nls_image (offset_of NLS_DATA_BLOCK [''UnicodeCaseTableData'']) 8 = le64 (K_VIRT_ANY + of_nat upcase_table) \<and>
       (\<forall>i. i < length ms \<and> i < 0x100 \<longrightarrow> load m (0x4040000 + 0x1000 * i + 0x30) 8 = le64 (v_base (ms ! i))) \<and>
       load m (0x4041020 + 0x10) 8 = le64 (v_base (ms ! 1)) \<and>
       (17 < length ms \<longrightarrow> load m (upcase_table + 0x30) 8 = le64 (v_base (ms ! 17))) \<and>
       (32 < length ms \<longrightarrow> load m (unat apiset_p + 0x30) 8 = le64 (v_base (ms ! 32))) \<and>
       (\<forall>buf i. fs_read files (path @ lit ''/apisetschema.dll'') = Ok buf \<and> length ms \<le> 32 \<and> i < length buf \<and> i < 0x10000 \<longrightarrow>
          m (upcase_table + 0xF000 + i) = buf ! i))"
  using assms(1,2)
proof (rule boot_trace)
  fix vm3 vm4 hive vm5 ansi oem vm6 vm7 vm8 vm9 vm10 vm11 vm12 vm13 vm14
  assume len: "2 \<le> length ms"
    and api: "(case fs_read files (path @ lit ''/apisetschema.dll'') of Ok apiset_buf \<Rightarrow> setup_apiset apiset_buf vm7
         | Err _ \<Rightarrow> Ok vm7 | Panic \<Rightarrow> Panic) = Ok vm8"
    and l: "register_modules ms vm8 = Ok vm9" "link_hal_ext (hal_ext_nodes U ms) vm9 = Ok vm10"
      "link_modules (module_nodes ms) vm10 = Ok vm11"
    and s: "bind_all U ms vm11 = Ok vm12" "setup_gdt vm12 = Ok vm13"
      "setup_descriptors (of_nat (length hive)) vm13 = Ok vm14" "setup_diagnostic_idt vm14 = Ok vm'"
  have z: "length ms \<le> 0x10000" "list_all fits ms" "small_file files (path @ lit ''/apisetschema.dll'')"
    using assms(3) by (simp_all add: boot_sized_def)
  have k: "mem_ptr vm' b = mem_ptr vm11 b" if "0x4040000 \<le> b" "b < 0x4200000" for b
    using last_steps_keep [OF s assms(4)] that by (simp add: keeps_def shared_area_def)
  have e: "load (mem_ptr vm') (0x4040030 + 0x1000 * i) 8 = le64 (v_base (ms ! i))" if "i < length ms" "i < 0x100" for i
  proof -
    have "load (mem_ptr vm') (0x4040030 + 0x1000 * i) 8 = load (mem_ptr vm11) (0x4040030 + 0x1000 * i) 8"
      using that(2) by (intro load_cong k) auto
    then show ?thesis using linked_entries [OF l z(1,2) that(1)] by (simp add: entry_at_def Let_def)
  qed
  have a: "mem_ptr vm' (0x4060000 + i) = buf ! i"
    if "fs_read files (path @ lit ''/apisetschema.dll'') = Ok buf" "length ms \<le> 32" "i < length buf" "i < 0x10000" for buf i
  proof -
    have "mem_ptr vm' (0x4060000 + i) = mem_ptr vm11 (0x4060000 + i)" using that(4) by (intro k) auto
    also have "\<dots> = mem_ptr vm8 (0x4060000 + i)" using that(2) by (intro linked_behind [OF l z(1,2)]) simp
    also have "\<dots> = buf ! i" using api that(1,3) z(3) by (intro apiset_written) (auto simp: small_file_def)
    finally show ?thesis .
  qed
  have all: "\<forall>i. i < length ms \<and> i < 0x100 \<longrightarrow> load (mem_ptr vm') (0x4040000 + 0x1000 * i + 0x30) 8 = le64 (v_base (ms ! i))"
    using e by (simp add: algebra_simps)
  show ?thesis
    using all e [of 1] e [of 17] e [of 32] len a nls_pointers by (simp add: Let_def nls_places apiset_p_def layout_defs)
qed

text \<open>Thirty drivers beside the essential modules.\<close>

definition many_names :: "rstring list" where
  "many_names = map (\<lambda>i. lit ''drv'' @ [48 + i div 10, 48 + i mod 10] @ lit ''.sys'') [0..<30]"

lemma many_names_good: "good_names many_names"
  unfolding good_names_def driver_name_def by code_simp

lemma many_mods: "17 < length (booted_mods many_names)" "32 < length (booted_mods many_names)"
  "v_base (booted_mods many_names ! 17) = 0xFFFFF80041A00000" "v_base (booted_mods many_names ! 32) = 0xFFFFF80043800000"
  by code_simp+

theorem nls_tables_overwritten_witness:
  "\<exists>vm' vm2. boot no_unicode bare_obj (site_fs (Ok (replicate 0x2000 7)) many_names) (lit ''d'') (Ok (plain_vm sregs0)) =
       Ok (0xFFFFF80000200010, vm') \<and>
     load (mem_ptr vm') 0x4041030 8 = le64 0xFFFFF80002000000 \<and> load (mem_ptr vm') 0x4051030 8 = le64 0xFFFFF80041A00000 \<and>
     load (mem_ptr vm') 0x4060030 8 = le64 0xFFFFF80043800000 \<and>
     boot no_unicode bare_obj (site_fs (Ok (replicate 0x2000 7)) []) (lit ''d'') (Ok (plain_vm sregs0)) =
       Ok (0xFFFFF80000200010, vm2) \<and> mem_ptr vm2 0x4060001 = 7"
proof -
  let ?s = "Ok (replicate 0x2000 7) :: u8 list res"
  have g: "good_schema ?s" by (simp add: good_schema_def)
  have c: "clear_of shared_area (iat_slots no_unicode (booted_mods names))" if "good_names names" for names
    using site_bind(2) [of names] that by (simp add: clear_of_def good_names_def)
  obtain vm' where b: "boot no_unicode bare_obj (site_fs ?s many_names) (lit ''d'') (Ok (plain_vm sregs0)) = Ok (0xFFFFF80000200010, vm')"
    using site_boot [OF many_names_good g] by blast
  obtain vm2 where b2: "boot no_unicode bare_obj (site_fs ?s []) (lit ''d'') (Ok (plain_vm sregs0)) = Ok (0xFFFFF80000200010, vm2)"
    using site_boot [OF no_drivers(1) g] by blast
  have u: "unat (nls_p_base + 0x21000) = 0x4051000" "unat apiset_p = 0x4060000" "v_base (booted_mods names ! 1) = 0xFFFFF80002000000" for names
    unfolding booted_mods_nth by (simp_all add: nls_places apiset_p_def layout_defs site_module_def)
  have f: "fs_read (site_fs ?s []) (lit ''d'' @ lit ''/apisetschema.dll'') = ?s" "length (booted_mods []) \<le> 32"
    by (simp_all add: site_fs_def lit_def length_booted_mods)
  note n1 = nls_tables_overwritten [OF b site_modules [OF many_names_good] site_sized [OF many_names_good g] c [OF many_names_good], unfolded Let_def u many_mods(3,4)]
  note n2 = nls_tables_overwritten [OF b2 site_modules [OF no_drivers(1)] site_sized [OF no_drivers(1) g] c [OF no_drivers(1)], unfolded Let_def u]
  have "mem_ptr vm2 0x4060001 = 7"
    using n2 [THEN conjunct2, THEN conjunct2, THEN conjunct2, THEN conjunct2, THEN conjunct2, THEN conjunct2, rule_format, of "replicate 0x2000 7" 1] f by simp
  moreover have "load (mem_ptr vm') 0x4041030 8 = le64 0xFFFFF80002000000 \<and> load (mem_ptr vm') 0x4051030 8 = le64 0xFFFFF80041A00000 \<and>
      load (mem_ptr vm') 0x4060030 8 = le64 0xFFFFF80043800000"
    using n1 many_mods(1,2) by simp
  ultimately show ?thesis using b b2 by blast
qed

end
