(* ===== verification/HalList.thy ===== *)
theory HalList
  imports BootOverlap
begin

text \<open>
  The list of the HAL extensions (\<open>HalExtensionModuleList\<close>), as the boot of \<open>src/main.rs\<close> leaves it: the head that
  \<open>main\<close> links at \<open>0xA18\<close> of the extension block, and the third pair of links of the module entries. The list is
  followed to the end of the boot, with and without such modules.
\<close>

section \<open>The writes of the list\<close>

text \<open>The indices of the modules with \<open>halext\<close> in their name, in the order of loading.\<close>

definition is_hal_ext :: "unicode \<Rightarrow> loaded_module \<Rightarrow> bool" where
  "is_hal_ext U md \<longleftrightarrow> contains (to_lowercase U (mod_name md)) (lit ''halext'')"

definition hal_indices :: "unicode \<Rightarrow> loaded_module list \<Rightarrow> nat list" where
  "hal_indices U ms = filter (\<lambda>i. is_hal_ext U (ms ! i)) [0..<length ms]"

lemma hal_ext_nodes_indices: "hal_ext_nodes U ms = map module_node (hal_indices U ms)"
proof -
  have "enumerate 0 ms = map (\<lambda>i. (i, ms ! i)) [0..<length ms]"
    by (rule nth_equalityI) (simp_all add: nth_enumerate_eq)
  then show ?thesis by (simp add: hal_ext_nodes_def hal_indices_def is_hal_ext_def filter_map comp_def)
qed

lemma hal_indices_facts:
  "sorted_wrt (<) (hal_indices U ms)" "k \<in> set (hal_indices U ms) \<Longrightarrow> k < length ms"
  "map ((!) ms) (hal_indices U ms) = filter (is_hal_ext U) ms"
proof -
  show "sorted_wrt (<) (hal_indices U ms)" unfolding hal_indices_def by (intro sorted_wrt_filter) simp
  show "k \<in> set (hal_indices U ms) \<Longrightarrow> k < length ms" by (simp add: hal_indices_def)
  have "map ((!) ms) (hal_indices U ms) = filter (is_hal_ext U) (map ((!) ms) [0..<length ms])"
    by (simp add: hal_indices_def filter_map comp_def)
  then show "map ((!) ms) (hal_indices U ms) = filter (is_hal_ext U) ms" by (simp only: map_nth)
qed

text \<open>The ring the links are to form: the head, then the links of the entries \<open>ks\<close>.\<close>

definition hal_link :: "nat \<Rightarrow> u64" where
  "hal_link k = fst (module_node k) + 0x20"

definition hal_ring :: "nat list \<Rightarrow> u64 list" where
  "hal_ring ks = (ext_v + 0xA18) # map hal_link ks"

definition hal_node_writes :: "nat list \<Rightarrow> nat \<Rightarrow> (u64 \<times> u8 list) list" where
  "hal_node_writes ks i =
     [(snd (module_node (ks ! i)) + 0x20, le64 (if i = length ks - 1 then ext_v + 0xA18 else hal_link (ks ! (i + 1)))),
      (snd (module_node (ks ! i)) + 0x20 + 8, le64 (if i = 0 then ext_v + 0xA18 else hal_link (ks ! (i - 1))))]"

definition hal_writes :: "nat list \<Rightarrow> (u64 \<times> u8 list) list" where
  "hal_writes ks = [(ext_p + 0xA18, le64 (hal_link (hd ks))), (ext_p + 0xA18 + 8, le64 (hal_link (last ks)))] @
     concat (map (hal_node_writes ks) [0..<length ks])"

lemma hal_head:
  "unat (ext_p + 0xA18) = 0x4008A18" "unat (ext_p + 0xA18 + 8) = 0x4008A20" "unat (0xA20 + ext_p) = 0x4008A20"
  "window (ext_v + 0xA18) = 0x4008A18"
  by (simp_all add: ext_p_def ext_v_def OFFSET_IN_LPB_def layout_defs window_def)

lemma hal_node_addr:
  assumes "k < 0x10000"
  shows "unat (snd (module_node k) + 0x20) = 0x4040020 + 0x1000 * k"
    "unat (snd (module_node k) + 0x20 + 8) = 0x4040028 + 0x1000 * k" "window (hal_link k) = 0x4040020 + 0x1000 * k"
proof -
  note a = module_node_addr [OF assms]
  show p: "unat (snd (module_node k) + 0x20) = 0x4040020 + 0x1000 * k"
    "unat (snd (module_node k) + 0x20 + 8) = 0x4040028 + 0x1000 * k" using a(1) assms by (simp_all add: near_addr)
  have "hal_link k - K_VIRT_ANY = snd (module_node k) + 0x20" using a(3) by (simp add: hal_link_def)
  then show "window (hal_link k) = 0x4040020 + 0x1000 * k" using p(1) by (simp add: window_def)
qed

lemma hal_node_range:
  assumes "i < length ks" and "\<forall>k\<in>set ks. k < 0x10000" and "(a, d) \<in> set (hal_node_writes ks i)"
  shows "0x4040020 + 0x1000 * ks ! i \<le> unat a \<and> unat a + length d \<le> 0x4040030 + 0x1000 * ks ! i"
proof -
  have "ks ! i < 0x10000" using assms(1,2) by simp
  from hal_node_addr [OF this] assms(3) show ?thesis by (auto simp: hal_node_writes_def)
qed

lemma two_links:
  "unat p + 16 \<le> MEM_SIZE \<Longrightarrow>
   bind_r (wr_ok p (le64 a) vm) (wr_ok (p + 8) (le64 b)) =
   for_r (\<lambda>(a, d) vm. write_memory vm a d) [(p, le64 a), (p + 8, le64 b)] vm"
  by (simp add: wr_ok_def write_memory_ok near_addr MEM_SIZE_def)

lemma link_hal_ext_writes:
  fixes vm :: "'k vm"
  assumes "ks \<noteq> []" and "\<forall>k\<in>set ks. k < 0x10000"
  shows "link_hal_ext (map module_node ks) vm = for_r (\<lambda>(a, d) vm. write_memory vm a d) (hal_writes ks) vm"
proof -
  have node: "link_hal_ext_node (map module_node ks) i s =
      for_r (\<lambda>(a, d) vm. write_memory vm a d) (hal_node_writes ks i) s" if i: "i \<in> set [0..<length ks]" for i and s :: "'k vm"
  proof -
    have k: "ks ! i < 0x10000" using i assms(2) by simp
    have p: "unat (snd (module_node (ks ! i)) + 0x20) + 16 \<le> MEM_SIZE" using hal_node_addr(1) [OF k] k by (simp add: MEM_SIZE_def)
    have "i + 1 < length ks" if "i \<noteq> length ks - 1" using that i by auto
    moreover have "i - 1 < length ks" using i by auto
    ultimately have "link_hal_ext_node (map module_node ks) i s =
      bind_r (wr_ok (snd (module_node (ks ! i)) + 0x20) (le64 (if i = length ks - 1 then ext_v + 0xA18 else hal_link (ks ! (i + 1)))) s)
        (wr_ok (snd (module_node (ks ! i)) + 0x20 + 8) (le64 (if i = 0 then ext_v + 0xA18 else hal_link (ks ! (i - 1)))))"
      using i by (simp add: link_hal_ext_node_def hal_link_def Let_def)
    then show ?thesis unfolding hal_node_writes_def two_links [OF p] .
  qed
  have l: "for_r (link_hal_ext_node (map module_node ks)) [0..<length ks] =
      for_r (\<lambda>(a, d) (vm :: 'k vm). write_memory vm a d) (concat (map (hal_node_writes ks) [0..<length ks]))"
    by (rule ext) (simp only: for_r_concat for_r_cong [OF node])
  have p: "unat (ext_p + 0xA18) + 16 \<le> MEM_SIZE" by (simp add: hal_head MEM_SIZE_def)
  have "for_r (\<lambda>(a, d) vm. write_memory vm a d) (hal_writes ks) vm =
    bind_r (bind_r (wr_ok (ext_p + 0xA18) (le64 (hal_link (hd ks))) vm) (wr_ok (ext_p + 0xA18 + 8) (le64 (hal_link (last ks)))))
      (for_r (link_hal_ext_node (map module_node ks)) [0..<length ks])"
    unfolding hal_writes_def for_r_append two_links [OF p] l ..
  then show ?thesis using assms(1) by (simp add: link_hal_ext_def bind_r_assoc hd_map last_map hal_link_def)
qed

lemma hal_writes_separate:
  assumes "sorted_wrt (<) ks" and "\<forall>k\<in>set ks. k < 0x10000"
  shows "sorted_wrt separate (hal_writes ks)"
proof -
  have "sorted_wrt separate (hal_node_writes ks i)" if "i < length ks" for i
    using that assms(2) hal_node_addr(1,2) [of "ks ! i"] by (simp add: hal_node_writes_def)
  moreover have "separate x y" if "i < j" "j < length ks" "x \<in> set (hal_node_writes ks i)" "y \<in> set (hal_node_writes ks j)" for i j x y
    using hal_node_range [of i ks "fst x" "snd x"] hal_node_range [of j ks "fst y" "snd y"] that assms(2)
      sorted_wrt_nth_less [OF assms(1) that(1,2)] by (cases x; cases y) auto
  ultimately have c: "sorted_wrt separate (concat (map (hal_node_writes ks) [0..<length ks]))"
    by (rule sorted_wrt_concat_upt)
  have "separate (a, d) y" if "unat a + length d \<le> 0x4008A28" "y \<in> set (concat (map (hal_node_writes ks) [0..<length ks]))" for a d y
    using hal_node_range [of _ ks "fst y" "snd y"] that assms(2) by (cases y) fastforce
  then show ?thesis using c by (simp add: hal_writes_def sorted_wrt_append hal_head)
qed

lemma hal_links:
  assumes "link_hal_ext (map module_node ks) vm = Ok vm'" and "ks \<noteq> []" and "sorted_wrt (<) ks" and b: "\<forall>k\<in>set ks. k < 0x10000"
  shows "(a, le64 v) \<in> set (hal_writes ks) \<Longrightarrow> q64 (mem_ptr vm') (unat a) = v"
  using guest.batch_reads_back [OF assms(1) [unfolded link_hal_ext_writes [OF assms(2) b]] hal_writes_separate [OF assms(3) b], of a "le64 v"]
  by (intro q64_read) simp

lemma hal_list_ring:
  assumes w: "\<And>a v. (a, le64 v) \<in> set (hal_writes ks) \<Longrightarrow> q64 m (unat a) = v" and ne: "ks \<noteq> []" and b: "\<forall>k\<in>set ks. k < 0x10000"
  shows "linked_ring (flink m) (blink m) (hal_ring ks)"
proof -
  have in_w: "x \<in> set (hal_node_writes ks i) \<Longrightarrow> i < length ks \<Longrightarrow> x \<in> set (hal_writes ks)" for x i by (auto simp: hal_writes_def)
  have el: "(snd (module_node (ks ! i)) + 0x20, le64 (if i = length ks - 1 then ext_v + 0xA18 else hal_link (ks ! (i + 1)))) \<in> set (hal_node_writes ks i)"
    "(snd (module_node (ks ! i)) + 0x20 + 8, le64 (if i = 0 then ext_v + 0xA18 else hal_link (ks ! (i - 1)))) \<in> set (hal_node_writes ks i)" for i
    by (simp_all add: hal_node_writes_def)
  have nx: "q64 m (0x4040020 + 0x1000 * ks ! i) = (if i = length ks - 1 then ext_v + 0xA18 else hal_link (ks ! (i + 1)))"
    and pv: "q64 m (0x4040028 + 0x1000 * ks ! i) = (if i = 0 then ext_v + 0xA18 else hal_link (ks ! (i - 1)))"
    if i: "i < length ks" for i
  proof -
    have k: "ks ! i < 0x10000" using b i by simp
    show "q64 m (0x4040020 + 0x1000 * ks ! i) = (if i = length ks - 1 then ext_v + 0xA18 else hal_link (ks ! (i + 1)))"
      using w [OF in_w [OF el(1) i]] unfolding hal_node_addr(1) [OF k] .
    show "q64 m (0x4040028 + 0x1000 * ks ! i) = (if i = 0 then ext_v + 0xA18 else hal_link (ks ! (i - 1)))"
      using w [OF in_w [OF el(2) i]] unfolding hal_node_addr(2) [OF k] .
  qed
  have hd: "q64 m 0x4008A18 = hal_link (hd ks)" "q64 m 0x4008A20 = hal_link (last ks)"
    using w [of "ext_p + 0xA18" "hal_link (hd ks)"] w [of "ext_p + 0xA18 + 8" "hal_link (last ks)"] by (simp_all add: hal_writes_def hal_head)
  have wd: "window (hal_link (ks ! i)) = 0x4040020 + 0x1000 * ks ! i" if "i < length ks" for i
    using hal_node_addr(3) [of "ks ! i"] that b by simp
  have l: "last (hal_ring ks) = hal_link (ks ! (length ks - 1))" using ne by (simp add: hal_ring_def last_map last_conv_nth)
  show ?thesis
  proof (rule memory_ringI)
    fix i assume i: "Suc i < length (hal_ring ks)"
    show "q64 m (window (hal_ring ks ! i)) = hal_ring ks ! Suc i \<and> q64 m (window (hal_ring ks ! Suc i) + 8) = hal_ring ks ! i"
    proof (cases i)
      case 0
      then show ?thesis using pv [of 0] hd(1) wd [of 0] ne by (simp add: hal_ring_def hal_head hd_conv_nth)
    next
      case (Suc j)
      then show ?thesis using i nx [of j] pv [of "Suc j"] wd [of j] wd [of "Suc j"] by (auto simp: hal_ring_def)
    qed
  next
    have "length ks - 1 < length ks" using ne by simp
    then show "q64 m (window (last (hal_ring ks))) = hd (hal_ring ks)" unfolding l using nx wd by (simp add: hal_ring_def)
    show "q64 m (window (hd (hal_ring ks)) + 8) = last (hal_ring ks)"
      unfolding l using hd(2) ne by (simp add: hal_ring_def hal_head last_conv_nth)
  qed (simp add: hal_ring_def)
qed

section \<open>The list at the end of the boot\<close>

text \<open>The head of the list and the pages of the module entries.\<close>

definition hal_area :: "nat \<Rightarrow> nat set" where
  "hal_area n = {0x4008A18..<0x4008A28} \<union> {0x4040000..<0x4040000 + 0x1000 * n}"

lemma hal_last_steps:
  assumes "bind_all U ms vm11 = Ok vm12" and "setup_gdt vm12 = Ok vm13" and "setup_descriptors hs vm13 = Ok vm14"
    and "setup_diagnostic_idt vm14 = Ok vm'" and "clear_of (hal_area n) (iat_slots U ms)" and "n \<le> 0x3000"
  shows "keeps (hal_area n) vm11 vm'"
proof -
  have d: "hal_area n \<inter> {lo..<hi} = {}" if "hi \<le> 0x4008A18 \<or> 0x4008A28 \<le> lo \<and> hi \<le> 0x4040000 \<or> 0x7040000 \<le> lo" for lo hi
    using that assms(6) by (auto simp: hal_area_def)
  note keeps_bind [OF assms(1,5)]
  also have "keeps (hal_area n) vm12 vm13" using keeps_gdt [OF assms(2)] d by simp
  also have "keeps (hal_area n) vm13 vm14" using keeps_descriptors [OF assms(3)] d by simp
  also have "keeps (hal_area n) vm14 vm'" using keeps_idt [OF assms(4)] d by simp
  finally show ?thesis .
qed

text \<open>Linking the other module lists leaves the links of this one alone.\<close>

lemma link_modules_keeps_hal:
  assumes "link_modules (module_nodes ms) vm = Ok vm'" and n: "length ms \<le> 0x10000"
    and "0x4008A18 \<le> b \<and> b < 0x4008A28 \<or> 0x4040020 + 0x1000 * k \<le> b \<and> b < 0x4041000 + 0x1000 * k"
  shows "mem_ptr vm' b = mem_ptr vm b"
proof -
  have ne: "ms \<noteq> []" using assms(1) by (auto simp: link_modules_def module_nodes_def)
  have "b < unat a \<or> unat a + length d \<le> b" if "(a, d) \<in> set (list_writes (module_nodes ms))" for a d
    using that n
  proof (cases rule: list_writes_cases)
    case (node j)
    have "j = k \<or> j < k \<or> k < j" by linarith
    then show ?thesis using node assms(3) by auto
  qed (use assms(3) in auto)
  then show ?thesis using batch_frame [OF assms(1) [unfolded link_modules_writes [OF ne n]]] by blast
qed

text \<open>What the head holds when no module is linked: the bytes that \<open>Extension_setup\<close> left there.\<close>

lemma blocks_hal_head:
  assumes "setup_blocks hs vm = Ok vm'"
  shows "q64 (mem_ptr vm') 0x4008A18 = 0" "q64 (mem_ptr vm') 0x4008A20 = ext_v + 0xA18"
proof -
  let ?i = "extension_image (ext_v + 0xA18)"
  obtain m where m: "mem_ptr vm' = extension_mem m" using assms by (auto intro: setup_blocks_steps [of hs vm])
  have "load (extension_mem m) (0x4008000 + off) 8 = peek ?i off 8" if "0x84 \<le> off" "off + 8 \<le> 0xE38" for off
    using that by (simp add: extension_mem_def load_store_other load_struct extension_image_fields peek_def drop_take min_def)
  from this [of "0xA18"] this [of "0xA20"]
  show "q64 (mem_ptr vm') 0x4008A18 = 0" "q64 (mem_ptr vm') 0x4008A20 = ext_v + 0xA18"
    using from_le_zeros [of 8, where ?'a = 64] by (simp_all add: m q64_def extension_layout extension_image_fields)
qed

lemma apiset_keeps_head:
  assumes "setup_apiset buf vm = Ok vm'" and "length buf \<le> 0x3F00000" and "0x4008A18 \<le> b" and "b < 0x4008A28"
  shows "mem_ptr vm' b = mem_ptr vm b"
proof -
  obtain v1 n where 1: "wr_ok apiset_p buf vm = Ok v1" and 2: "ok_or_keep v1 (set_apiset v1 ext_p (apiset_v + 0x2000) n) = Ok vm'"
    using assms(1) by (auto simp: setup_apiset_def)
  have "mem_ptr v1 b = mem_ptr vm b" using wr_ok_frame [OF 1, of b] assms(4) by (simp add: apiset_p_def layout_defs)
  moreover have "mem_ptr vm' b = mem_ptr v1 b"
    using 2 assms(3,4) by (auto simp: set_apiset_def ext_p_def OFFSET_IN_LPB_def layout_defs add_chk_def write_memory_ok MEM_SIZE_def store_def)
  ultimately show ?thesis by simp
qed

text \<open>The entries of the modules, and the head as long as nothing was linked, up to the linking of the other lists.\<close>

lemma hal_unlinked:
  assumes "register_modules ms vm8 = Ok vm9" and "link_hal_ext [] vm9 = Ok vm10" and "link_modules (module_nodes ms) vm10 = Ok vm11"
    and n: "length ms \<le> 0x10000" and "list_all fits ms" and b: "0x4008A18 \<le> b" "b < 0x4008A28"
  shows "mem_ptr vm11 b = mem_ptr vm8 b"
proof -
  have "mem_ptr vm9 b = mem_ptr vm8 b"
    using register_modules_entries [of 0 ms vm8] assms(1,5) n b by (auto simp: register_modules_def)
  moreover have "vm10 = vm9" using assms(2) by (simp add: link_hal_ext_def)
  moreover have "mem_ptr vm11 b = mem_ptr vm10 b" using link_modules_keeps_hal [OF assms(3) n] b by blast
  ultimately show ?thesis by simp
qed

lemma hal_linked:
  assumes "link_hal_ext (map module_node ks) vm9 = Ok vm10" and "link_modules (module_nodes ms) vm10 = Ok vm11"
    and n: "length ms \<le> 0x10000" and "ks \<noteq> []" and "sorted_wrt (<) ks" and b: "\<forall>k\<in>set ks. k < 0x10000"
  shows "linked_ring (flink (mem_ptr vm11)) (blink (mem_ptr vm11)) (hal_ring ks)"
proof (rule hal_list_ring [OF _ assms(4) b])
  fix a v assume w: "(a, le64 v) \<in> set (hal_writes ks)"
  have "unat a = 0x4008A18 \<or> unat a = 0x4008A20 \<or> (\<exists>i<length ks. (a, le64 v) \<in> set (hal_node_writes ks i))"
    using w hal_head by (auto simp: hal_writes_def)
  then obtain k where r: "0x4008A18 \<le> unat a \<and> unat a + 8 \<le> 0x4008A28 \<or> 0x4040020 + 0x1000 * k \<le> unat a \<and> unat a + 8 \<le> 0x4041000 + 0x1000 * k"
    using hal_node_range [OF _ b, of _ a "le64 v"] by fastforce
  have "q64 (mem_ptr vm11) (unat a) = q64 (mem_ptr vm10) (unat a)"
    unfolding q64_def by (intro arg_cong [where f = from_le] load_cong link_modules_keeps_hal [OF assms(2) n, of _ k]) (use r in auto)
  then show "q64 (mem_ptr vm11) (unat a) = v" using hal_links [OF assms(1,4,5) b w] by simp
qed

text \<open>A ring holds in every memory with the same links.\<close>

lemma hal_ring_frame:
  assumes "linked_ring (flink m) (blink m) (hal_ring ks)" and "\<forall>k\<in>set ks. k < n" and "n \<le> 0x10000"
    and "\<forall>b\<in>hal_area n. m' b = m b"
  shows "linked_ring (flink m') (blink m') (hal_ring ks)"
proof -
  have "q64 m' a = q64 m a" if "{a..<a + 8} \<subseteq> hal_area n" for a
    unfolding q64_def using that by (intro arg_cong [where f = from_le] load_cong assms(4) [rule_format]) auto
  moreover have "{window v..<window v + 8} \<subseteq> hal_area n \<and> {window v + 8..<window v + 8 + 8} \<subseteq> hal_area n" if v: "v \<in> set (hal_ring ks)" for v
  proof (cases "v = ext_v + 0xA18")
    case False
    then obtain k where k: "k < n" "v = hal_link k" using v assms(2) by (auto simp: hal_ring_def)
    have "window v = 0x4040020 + 0x1000 * k" using hal_node_addr(3) [of k] k assms(3) by simp
    then show ?thesis using k(1) by (auto simp: hal_area_def)
  qed (auto simp: hal_head hal_area_def)
  ultimately have eq: "flink m' v = flink m v" "blink m' v = blink m v" if "v \<in> set (hal_ring ks)" for v
    using that by (simp_all add: flink_def blink_def)
  show ?thesis
    using linked_ring.ring_nonempty [OF assms(1)] linked_ring.next_nth [OF assms(1)] linked_ring.prev_nth [OF assms(1)]
    by unfold_locales (simp_all add: eq)
qed

text \<open>Walking the ring.\<close>

lemma hal_ring_walk:
  assumes "linked_ring (flink m) (blink m) (hal_ring ks)"
  shows "k < length ks \<Longrightarrow> (flink m ^^ Suc k) (ext_v + 0xA18) = hal_link (ks ! k)"
    and "(flink m ^^ Suc (length ks)) (ext_v + 0xA18) = ext_v + 0xA18"
    and "k \<le> length ks \<Longrightarrow> blink m ((flink m ^^ Suc k) (ext_v + 0xA18)) = (flink m ^^ k) (ext_v + 0xA18)"
proof -
  have r: "hal_ring ks ! 0 = ext_v + 0xA18" "length (hal_ring ks) = Suc (length ks)" by (simp_all add: hal_ring_def)
  note pow = linked_ring.next_pow [OF assms, of 0, unfolded r]
  show "k < length ks \<Longrightarrow> (flink m ^^ Suc k) (ext_v + 0xA18) = hal_link (ks ! k)"
    using pow [of "Suc k"] by (simp add: hal_ring_def del: funpow.simps)
  show "(flink m ^^ Suc (length ks)) (ext_v + 0xA18) = ext_v + 0xA18"
    using pow [of "Suc (length ks)"] by (simp add: hal_ring_def del: funpow.simps)
  assume "k \<le> length ks"
  then have "(flink m ^^ k) (ext_v + 0xA18) \<in> set (hal_ring ks)" using pow [of k] r(2) by simp
  from linked_ring.prev_next [OF assms this]
  show "blink m ((flink m ^^ Suc k) (ext_v + 0xA18)) = (flink m ^^ k) (ext_v + 0xA18)" by simp
qed

section \<open>Properties\<close>

text \<open>What a walk finds in a memory that holds the ring and the entries of the modules.\<close>

lemma hal_list_found:
  assumes "linked_ring (flink m) (blink m) (hal_ring (hal_indices U ms))" and "\<And>i. i < length ms \<Longrightarrow> entry_at m i (ms ! i)"
    and n: "length ms \<le> 0x10000" and "list_all fits ms" and "list_all (\<lambda>md. list_all scalar (mod_name md)) ms"
  shows "map (\<lambda>k. ldr_entry m ((flink m ^^ Suc k) (ext_v + 0xA18) - 0x20)) [0..<length (filter (is_hal_ext U) ms)] =
      map (\<lambda>md. (v_base md, mod_entry md, mod_size md, mod_name md)) (filter (is_hal_ext U) ms)"
proof -
  let ?ks = "hal_indices U ms" and ?xs = "filter (is_hal_ext U) ms"
  note x = hal_indices_facts(3) [of ms U]
  have len: "length ?xs = length ?ks" unfolding x [symmetric] by simp
  have "ldr_entry m (hal_link (?ks ! i) - 0x20) =
      (v_base (?xs ! i), mod_entry (?xs ! i), mod_size (?xs ! i), mod_name (?xs ! i))" if i: "i < length ?ks" for i
  proof -
    have j: "?ks ! i < length ms" "?xs ! i = ms ! (?ks ! i)"
      using hal_indices_facts(2) [of "?ks ! i" U ms] i by (simp_all add: x [symmetric])
    then have f: "fits (?xs ! i)" "list_all scalar (mod_name (?xs ! i))" using assms(4,5) by (simp_all add: list_all_length)
    have "entry_at m (?ks ! i) (?xs ! i)" unfolding j(2) by (rule assms(2) [OF j(1)])
    then show ?thesis using entry_at_ldr [OF _ _ f] j(1) n by (simp add: hal_link_def)
  qed
  then show ?thesis
    unfolding len using hal_ring_walk(1) [OF assms(1)] by (auto intro!: nth_equalityI simp: len simp del: funpow.simps)
qed

text \<open>The memory at the end of the boot, in the area of the list.\<close>

lemma hal_area_at_end:
  assumes "setup_blocks hs vm6 = Ok vm7"
    and api: "(case fs_read files p of Ok buf \<Rightarrow> setup_apiset buf vm7 | Err _ \<Rightarrow> Ok vm7 | Panic \<Rightarrow> Panic) = Ok vm8"
    and "small_file files p" and l: "register_modules ms vm8 = Ok vm9" "link_hal_ext (hal_ext_nodes U ms) vm9 = Ok vm10"
      "link_modules (module_nodes ms) vm10 = Ok vm11"
    and k: "\<forall>b\<in>hal_area (length ms). m b = mem_ptr vm11 b" and n: "length ms \<le> 0x10000" and f: "list_all fits ms"
  shows "hal_indices U ms = [] \<Longrightarrow> flink m (ext_v + 0xA18) = 0 \<and> blink m (ext_v + 0xA18) = ext_v + 0xA18"
    and "hal_indices U ms \<noteq> [] \<Longrightarrow> linked_ring (flink m) (blink m) (hal_ring (hal_indices U ms))"
    and "i < length ms \<Longrightarrow> entry_at m i (ms ! i)"
proof -
  let ?ks = "hal_indices U ms"
  assume e: "?ks = []"
  have 8: "mem_ptr vm8 b = mem_ptr vm7 b" if "0x4008A18 \<le> b" "b < 0x4008A28" for b
    using api assms(3) that by (auto simp: small_file_def split: res.splits dest!: apiset_keeps_head [where b = b])
  have "m b = mem_ptr vm7 b" if "0x4008A18 \<le> b" "b < 0x4008A28" for b
    using k [rule_format, of b] hal_unlinked [OF l(1) l(2) [unfolded hal_ext_nodes_indices e list.map] l(3) n f that] 8 [OF that] that
    by (simp add: hal_area_def)
  then have "load m 0x4008A18 8 = load (mem_ptr vm7) 0x4008A18 8" "load m 0x4008A20 8 = load (mem_ptr vm7) 0x4008A20 8"
    by (auto intro!: load_cong)
  then show "flink m (ext_v + 0xA18) = 0 \<and> blink m (ext_v + 0xA18) = ext_v + 0xA18"
    using blocks_hal_head [OF assms(1)] by (simp add: flink_def blink_def hal_head q64_def)
next
  let ?ks = "hal_indices U ms"
  assume e: "?ks \<noteq> []"
  have b: "\<forall>k\<in>set ?ks. k < length ms" "\<forall>k\<in>set ?ks. k < 0x10000" using hal_indices_facts(2) [of _ U ms] n by force+
  show "linked_ring (flink m) (blink m) (hal_ring ?ks)"
    by (rule hal_ring_frame [OF hal_linked [OF l(2) [unfolded hal_ext_nodes_indices] l(3) n e hal_indices_facts(1) b(2)] b(1) n k])
next
  assume i: "i < length ms"
  have "length (name_bytes (mod_name (ms ! i))) \<le> 0xEB0" using f i by (simp add: list_all_length fits_def)
  then show "entry_at m i (ms ! i)"
    using i by (intro entry_at_frame [OF linked_entries [OF l n f i]] k [rule_format]) (auto simp: entry_data_def hal_area_def)
qed

text \<open>Property C34: the list of the HAL extensions at the end of a boot, from the head at \<open>0xA18\<close> of the extension block, where
  \<open>main\<close> links it. When there are modules with \<open>halext\<close> in their name, walking the list from the head yields, entry
  by entry, the base, the entry point, the size and the name of each of them in the order they were loaded, then
  the head again, and the backward links undo the forward ones. When there is none, the list is not an empty list: its forward link is
  null, because \<open>Extension_setup\<close> initialises the declared field, which lies eight bytes further on.\<close>

theorem hal_extension_list:
  assumes "boot U obj files path new_vm = Ok (e, vm')" and "boot_modules U obj files path new_vm = Ok ms"
    and "boot_sized U files path ms" and "length ms \<le> 0x3000" and "list_all (\<lambda>md. list_all scalar (mod_name md)) ms"
    and "clear_of (hal_area (length ms)) (iat_slots U ms)"
  shows "let m = mem_ptr vm'; head = LPB_VBASE + 0x8000 + 0xA18;
      xs = filter (\<lambda>md. contains (to_lowercase U (mod_name md)) (lit ''halext'')) ms
    in if xs = [] then flink m head = 0 \<and> blink m head = head
       else map (\<lambda>k. ldr_entry m ((flink m ^^ Suc k) head - 0x20)) [0..<length xs] =
              map (\<lambda>md. (v_base md, mod_entry md, mod_size md, mod_name md)) xs \<and>
            (flink m ^^ Suc (length xs)) head = head \<and>
            (\<forall>k. k \<le> length xs \<longrightarrow> blink m ((flink m ^^ Suc k) head) = (flink m ^^ k) head)"
  using assms(1,2)
proof (rule boot_trace)
  fix vm3 vm4 hive vm5 ansi oem vm6 vm7 vm8 vm9 vm10 vm11 vm12 vm13 vm14
  assume blk: "setup_blocks (of_nat (length hive)) vm6 = Ok vm7"
    and api: "(case fs_read files (path @ lit ''/apisetschema.dll'') of Ok apiset_buf \<Rightarrow> setup_apiset apiset_buf vm7
         | Err _ \<Rightarrow> Ok vm7 | Panic \<Rightarrow> Panic) = Ok vm8"
    and l: "register_modules ms vm8 = Ok vm9" "link_hal_ext (hal_ext_nodes U ms) vm9 = Ok vm10"
      "link_modules (module_nodes ms) vm10 = Ok vm11"
    and s: "bind_all U ms vm11 = Ok vm12" "setup_gdt vm12 = Ok vm13"
      "setup_descriptors (of_nat (length hive)) vm13 = Ok vm14" "setup_diagnostic_idt vm14 = Ok vm'"
  have z: "length ms \<le> 0x10000" "list_all fits ms" "small_file files (path @ lit ''/apisetschema.dll'')"
    using assms(3) by (simp_all add: boot_sized_def)
  let ?m = "mem_ptr vm'" and ?ks = "hal_indices U ms" and ?head = "ext_v + 0xA18" and ?xs = "filter (is_hal_ext U) ms"
  have k: "\<forall>b\<in>hal_area (length ms). ?m b = mem_ptr vm11 b"
    using hal_last_steps [OF s assms(6,4)] by (simp add: keeps_def)
  note f = hal_area_at_end [OF blk api z(3) l k z(1,2)]
  have x: "?xs = [] \<longleftrightarrow> ?ks = []" "length ?xs = length ?ks" unfolding hal_indices_facts(3) [of ms U, symmetric] by simp_all
  have some: "map (\<lambda>k. ldr_entry ?m ((flink ?m ^^ Suc k) ?head - 0x20)) [0..<length ?xs] =
        map (\<lambda>md. (v_base md, mod_entry md, mod_size md, mod_name md)) ?xs \<and>
      (flink ?m ^^ Suc (length ?xs)) ?head = ?head \<and>
      (\<forall>k. k \<le> length ?xs \<longrightarrow> blink ?m ((flink ?m ^^ Suc k) ?head) = (flink ?m ^^ k) ?head)" if e: "?ks \<noteq> []"
    using hal_list_found [OF f(2) [OF e] f(3) z(1,2) assms(5)] hal_ring_walk(2,3) [OF f(2) [OF e]] unfolding x(2) by blast
  from f(1) some
  have "if ?xs = [] then flink ?m ?head = 0 \<and> blink ?m ?head = ?head
       else map (\<lambda>k. ldr_entry ?m ((flink ?m ^^ Suc k) ?head - 0x20)) [0..<length ?xs] =
              map (\<lambda>md. (v_base md, mod_entry md, mod_size md, mod_name md)) ?xs \<and>
            (flink ?m ^^ Suc (length ?xs)) ?head = ?head \<and>
            (\<forall>k. k \<le> length ?xs \<longrightarrow> blink ?m ((flink ?m ^^ Suc k) ?head) = (flink ?m ^^ k) ?head)"
    unfolding x(1) by presburger
  then show ?thesis unfolding Let_def is_hal_ext_def [abs_def] ext_v_def OFFSET_IN_LPB_def .
qed

text \<open>Two HAL extensions beside the essential modules.\<close>

definition hal_names :: "rstring list" where
  "hal_names = [lit ''halextintclpiodma.dll'', lit ''halextpl080.dll'']"

lemma hal_names_good: "good_names hal_names"
  unfolding good_names_def driver_name_def by code_simp

lemma booted_names:
  "map mod_name (booted_mods names) = [lit ''ntoskrnl.exe'', lit ''hal.dll'', lit ''kd.dll'', lit ''kdcom.dll''] @ names"
proof -
  have "map mod_name (site_drivers b p v ns) = ns" for b p v ns
    by (induction ns arbitrary: p v) (simp_all add: site_module_def)
  then show ?thesis by (simp add: site_mods_def site_module_def)
qed

lemma hal_filter:
  "map mod_name (filter (is_hal_ext U) ms) = filter (\<lambda>n. contains (to_lowercase U n) (lit ''halext'')) (map mod_name ms)"
  by (simp add: filter_map comp_def is_hal_ext_def [abs_def])

lemma hal_name_tests:
  "map (\<lambda>n. contains (to_lowercase no_unicode n) (lit ''halext''))
     ([lit ''ntoskrnl.exe'', lit ''hal.dll'', lit ''kd.dll'', lit ''kdcom.dll''] @ hal_names) = [False, False, False, False, True, True]"
  by code_simp

lemma hal_mods:
  "map mod_name (filter (is_hal_ext no_unicode) (booted_mods hal_names)) = hal_names"
  "filter (is_hal_ext no_unicode) (booted_mods []) = []"
proof -
  show "map mod_name (filter (is_hal_ext no_unicode) (booted_mods hal_names)) = hal_names"
    unfolding hal_filter booted_names using hal_name_tests by (simp add: hal_names_def)
  have "map mod_name (filter (is_hal_ext no_unicode) (booted_mods [])) = []"
    unfolding hal_filter booted_names using hal_name_tests by simp
  then show "filter (is_hal_ext no_unicode) (booted_mods []) = []" by simp
qed

lemma hal_scalars:
  "list_all (\<lambda>md. list_all scalar (mod_name md)) (booted_mods hal_names)"
  "list_all (\<lambda>md. list_all scalar (mod_name md)) (booted_mods [])"
proof -
  have s: "list_all (\<lambda>md. list_all scalar (mod_name md)) ms \<longleftrightarrow> list_all (list_all scalar) (map mod_name ms)" for ms
    by (simp add: list_all_iff)
  show "list_all (\<lambda>md. list_all scalar (mod_name md)) (booted_mods hal_names)"
    "list_all (\<lambda>md. list_all scalar (mod_name md)) (booted_mods [])"
    unfolding s booted_names by (simp_all add: hal_names_def lit_def scalar_def)
qed
theorem hal_extension_list_witness:
  "\<exists>vm' vm2. boot no_unicode bare_obj (site_fs (Err ''No such file'') hal_names) (lit ''d'') (Ok (plain_vm sregs0)) =
       Ok (0xFFFFF80000200010, vm') \<and>
     (let m = mem_ptr vm'; v = flink m 0xFFFFF80004008A18
      in snd (snd (snd (ldr_entry m (v - 0x20)))) = lit ''halextintclpiodma.dll'' \<and> flink m (flink m v) = 0xFFFFF80004008A18) \<and>
     boot no_unicode bare_obj boot_fs (lit ''d'') (Ok (plain_vm sregs0)) = Ok (0xFFFFF80000200010, vm2) \<and>
     flink (mem_ptr vm2) 0xFFFFF80004008A18 = 0"
proof -
  let ?e = "Err ''No such file'' :: u8 list res"
  have c: "clear_of (hal_area n) (iat_slots no_unicode (booted_mods names))" if "good_names names" for names n
    using site_bind(2) [of names] that by (simp add: clear_of_def good_names_def)
  have l: "length (booted_mods hal_names) \<le> 0x3000" "length (booted_mods []) \<le> 0x3000" "LPB_VBASE + 0x8000 + 0xA18 = 0xFFFFF80004008A18"
    by (simp_all add: length_booted_mods hal_names_def layout_defs)
  obtain vm' where b: "boot no_unicode bare_obj (site_fs ?e hal_names) (lit ''d'') (Ok (plain_vm sregs0)) = Ok (0xFFFFF80000200010, vm')"
    using site_boot [OF hal_names_good no_drivers(2)] by blast
  obtain vm2 where b2: "boot no_unicode bare_obj boot_fs (lit ''d'') (Ok (plain_vm sregs0)) = Ok (0xFFFFF80000200010, vm2)"
    using boot_done by blast
  let ?xs = "filter (is_hal_ext no_unicode) (booted_mods hal_names)"
  have x: "length ?xs = 2" "mod_name (?xs ! 0) = lit ''halextintclpiodma.dll''"
    using arg_cong [OF hal_mods(1), of length] arg_cong [OF hal_mods(1), of "\<lambda>ns. ns ! 0"] by (cases ?xs; simp add: hal_names_def)+
  note n1 = hal_extension_list [OF b site_modules [OF hal_names_good] site_sized [OF hal_names_good no_drivers(2)] l(1) hal_scalars(1) c [OF hal_names_good],
      unfolded l(3) Let_def is_hal_ext_def [symmetric]]
  note n2 = hal_extension_list [OF b2 [unfolded boot_fs_def] site_modules [OF no_drivers(1)] site_sized [OF no_drivers] l(2) hal_scalars(2) c [OF no_drivers(1)],
      unfolded l(3) Let_def is_hal_ext_def [symmetric]]
  have "flink (mem_ptr vm2) 0xFFFFF80004008A18 = 0" using n2 hal_mods(2) by (simp add: is_hal_ext_def [abs_def])
  moreover have "?xs \<noteq> []" using x(1) by auto
  then have r: "map (\<lambda>k. ldr_entry (mem_ptr vm') ((flink (mem_ptr vm') ^^ Suc k) 0xFFFFF80004008A18 - 0x20)) [0..<length ?xs] =
        map (\<lambda>md. (v_base md, mod_entry md, mod_size md, mod_name md)) ?xs"
      "(flink (mem_ptr vm') ^^ Suc (length ?xs)) 0xFFFFF80004008A18 = 0xFFFFF80004008A18"
    using n1 by simp_all
  have "ldr_entry (mem_ptr vm') (flink (mem_ptr vm') 0xFFFFF80004008A18 - 0x20) =
      (v_base (?xs ! 0), mod_entry (?xs ! 0), mod_size (?xs ! 0), lit ''halextintclpiodma.dll'')"
    using arg_cong [OF r(1), of "\<lambda>ys. ys ! 0"] x by simp
  moreover have "flink (mem_ptr vm') (flink (mem_ptr vm') (flink (mem_ptr vm') 0xFFFFF80004008A18)) = 0xFFFFF80004008A18"
    using r(2) unfolding x(1) by (simp add: numeral_2_eq_2)
  ultimately show ?thesis using b b2 by (simp add: Let_def)
qed

end
