(* ===== verification/Spec2Isabelle.thy ===== *)
theory Spec2Isabelle
  imports Program Bridge Inspect HalList
begin

text \<open>
  VWFL (\<open>src/*.rs\<close>) boots a Windows kernel in a KVM virtual machine without a firmware or a boot loader.
  \<open>main\<close> creates the machine, loads the kernel's PE images from a directory, relocates and binds them,
  writes the page tables, the ACPI tables, the processor blocks, the loader parameter block and the lists
  that hang from it, starts the processor in 64-bit mode at the kernel's entry point, and then serves a
  GDB connection while emulating the few devices the kernel touches. All parts share the guest memory of
  \<open>Vm\<close>; the loader hands the modules to \<open>main\<close>, which passes their bases on to the paging and the blocks.

  \<^bold>\<open>Conventions.\<close> Machine integers are words of their width. A fallible operation returns \<open>res\<close>: a value, an
  \<open>Err\<close> with its message, or \<open>Panic\<close> for every failed index, slice, \<open>unwrap\<close>, \<open>expect\<close> and, as in a build
  with overflow checks, every arithmetic overflow (\<open>add_chk\<close>, \<open>sub_chk\<close>, \<open>mul_chk\<close>); where the source says
  \<open>wrapping_\<close> or shifts, the word operation is used. A dropped result (\<open>.ok()\<close>) is \<open>ok_or_keep\<close>. Guest memory
  is a function from offsets to bytes in the record \<open>vm\<close>, beside the handle of the KVM objects. Code outside
  the repository is a parameter: the KVM calls on the processor (\<open>vcpu_ops\<close>, \<open>run_ops\<close>, with the laws
  \<open>regs_law\<close> and \<open>sregs_law\<close>: registers read back as set; a run of the guest may change any memory, and
  \<open>guest_keeps\<close> names the bytes it does not), the \<open>object\<close> crate's parser, the file system, the Unicode case maps
  beyond ASCII, the sockets, and the \<open>gdbstub\<close> library (\<open>stub_reads_only\<close>: it reaches the machine only through the
  target and the event loop). \<open>plain_vcpu\<close>, \<open>bare_obj\<close>, \<open>site_fs\<close> (a directory with any drivers and any
  API-set file) and its case \<open>boot_fs\<close>, \<open>no_unicode\<close>, \<open>plain_tcp\<close>, \<open>halting\<close> and \<open>one_step\<close>
  are concrete instances of them that the witnesses run on.

  \<^bold>\<open>Theories\<close>, with the sources they model and what they show:
  \<^item> \<open>Prelude\<close>, \<open>RustText\<close>, \<open>Traces\<close>: results, checked arithmetic, slices, little-endian codec; the string functions
    the sources call. \<open>Traces\<close>: executions of step relations; the locales \<open>tracked\<close> (a part of the state whose change the
    action determines) and \<open>kept_by\<close> (a part that some actions leave alone) carry facts about steps over to
    executions, and are interpreted on the debugger's calls and on the sessions of the server.
  \<^item> \<open>Vm\<close> (\<open>vm.rs\<close>): \<open>Vm_new\<close>, \<open>write_memory\<close>, \<open>read_memory\<close>. The locale \<open>byte_store\<close> states what clients rely
    on and is interpreted on the two operations. Reads return what was written, the two slots partition
    the block around the MMIO hole, the interrupt routing is complete.
  \<^item> \<open>Layout\<close>, \<open>Paging\<close>, \<open>GuestMap\<close> (\<open>main.rs\<close>, constants and \<open>setup_kernel_paging\<close>): every entry of the page
    tables; \<open>GuestMap\<close> evaluates them by the page walk: which windows are mapped where, and what is not.
  \<^item> \<open>Vcpu\<close>, \<open>Gdb\<close>, \<open>GdbSession\<close> (\<open>gdb.rs\<close>): the page walk equals a level-by-level translation; register
    round trip; sessions of debugger calls in any order.
  \<^item> \<open>Pe\<close>, \<open>Reloc\<close> (\<open>pe.rs\<close>): parser, exports, imports, address translation against the tables of the file;
    relocation changes exactly the listed targets, can be undone, and every outcome is classified.
  \<^item> \<open>Forwarder\<close> (\<open>forwarder.rs\<close>): the resolver refines an abstract chain of forwards (locale
    \<open>bounded_chain\<close>) of at most ten steps, and a cycle ends without a result.
  \<^item> \<open>Loader\<close> (\<open>loader.rs\<close>): placement of modules without overlap, measured by the bytes that loading an image
    writes (\<open>image_in_room\<close>, for images whose sections fit their virtual sizes, \<open>image_fits\<close>), copied images, bound imports.
  \<^item> \<open>NtTypes\<close>, \<open>LoaderBlock\<close> (\<open>nt_types.rs\<close>, \<open>loaderblock.rs\<close>): structures by their \<open>repr(C)\<close> layout, the
    offsets computed and compared with the comments; the blocks the kernel reads.
  \<^item> \<open>Acpi\<close> (\<open>acpi.rs\<close>): the tables, their checksums and links.
  \<^item> \<open>Debug\<close> (\<open>debug.rs\<close>): interrupt stubs, trap and debug handlers, their termination; the text of the dumps, from
    which the dumped bytes are read back.
  \<^item> \<open>Cpu\<close>, \<open>EventLoop\<close> (\<open>cpu.rs\<close>): start state, device registers, guest clock, serial port; one round of the
    event loop and the loop over rounds, which writes only the clock page; which round ends the wait of the
    debugger, and with what answer, error or panic.
  \<^item> \<open>Bridge\<close> (\<open>start_windbg_server\<close> in \<open>cpu.rs\<close>): the listener, one reader thread per connection and the guest as a
    step relation; input is first-in first-out over all interleavings, the output stream belongs to the latest
    connection.
  \<^item> \<open>Server\<close> (\<open>run\<close> and \<open>run_gdb_server\<close> in \<open>cpu.rs\<close>): a debugger's session as a sequence of target calls and waits;
    what a whole run can change in the guest.
  \<^item> \<open>Boot\<close> (\<open>main\<close> in \<open>main.rs\<close>): each step a definition, composed by \<open>boot\<close> and \<open>boot_and_start\<close>.
  \<^item> \<open>Program\<close> (\<open>main\<close>): the program from its arguments to the end of the session, \<open>vwfl_main\<close>, and that the address
    space survives it.
  \<^item> \<open>ListRings\<close>, \<open>BootLists\<close>, \<open>BootBlocks\<close>, \<open>BootRun\<close>, \<open>BootOverlap\<close>, \<open>HalList\<close>: what the boot leaves in memory. The locale
    \<open>linked_ring\<close> is the contract of a circular list, interpreted on the memory descriptor list; the module
    lists, the chain of blocks and the upper-case table are read back; \<open>BootRun\<close> shows that no later step
    touches the page tables, \<open>BootOverlap\<close> which data share an address and what is left of them, \<open>HalList\<close> the list of
    the HAL extensions at the end of the boot.
  \<^item> \<open>Inspect\<close>: the booted machine through the debugger's page walk and through the fixed windows of the
    diagnostics.
  \<^item> This theory: the properties of the booted machine as a whole.

  \<^bold>\<open>Bounds.\<close> Recursion follows the sources: \<open>resolve_recursive\<close> has its own depth limit of ten; \<open>skip_cc\<close>, the
  scans of the PE tables and the relocation blocks terminate by a measure. The event loop has no bound of
  its own: \<open>wait_for_stop_reason\<close> runs over a given list of rounds, each with what the outside world delivers
  in it, and \<open>event_loop_outcomes\<close> shows how it ends: the first round that is not quiet decides between the answer, the
  error of a failed or interrupted \<open>KVM_RUN\<close> and the panic, and while all rounds are quiet it goes on.
  The end-to-end properties bound the files (63 MB each), the modules (16384) and the import slots so that
  none reaches the page tables (\<open>boot_sized\<close>); the code checks none of this.

  \<^bold>\<open>Not modelled.\<close> The lines that the loader and the boot steps print, and what goes to the standard error; the
  empty \<open>verify_mapping\<close>; the unmapping in \<open>Drop\<close>, after which nothing reads the memory; sockets, the scheduler of
  the threads and the \<open>gdbstub\<close> library beyond what the parameters state; sleeping; the separate C program
  \<open>src/socket/socket.c\<close>, which is no part of the Rust build.
\<close>

unbundle bit_operations_syntax

section \<open>The booted machine\<close>

text \<open>Property C1: a boot that succeeds starts the processor in the kernel: the instruction pointer is the entry
  point of \<open>ntoskrnl.exe\<close> at its base, and the page walk from the control register that was set, in the
  memory as it then is, takes the whole gigabyte of the kernel window to physical memory one to one, and
  the stack pointer, the loader block passed in \<open>rcx\<close>, the processor control region behind \<open>gs\<close>, and the
  two descriptor tables to the places where the boot wrote them. The hypotheses: the registers read back
  as they were set, and the files, the module count and the bound import slots stay clear of the tables.\<close>

theorem boot_starts_kernel:
  fixes new_vm :: "'k vm res"
  assumes "boot_and_start K U obj files path new_vm = Ok vm'" and "regs_law K" and "sregs_law K"
    and "boot_modules U obj files path new_vm = Ok ms" and sized: "boot_sized U files path ms"
  shows "\<exists>r s. get_regs K (kvm_fd vm') = Ok r \<and> get_sregs K (kvm_fd vm') = Ok s \<and>
    mod_name (ms ! 0) = lit ''ntoskrnl.exe'' \<and>
    rip r = 0xFFFFF80000200000 + (entry_point (mod_pe (ms ! 0)) - image_base (mod_pe (ms ! 0))) \<and>
    (\<forall>x. unat x < 0x40000000 \<longrightarrow> virt_to_phys K vm' (K_VIRT_ANY + x) = Ok x) \<and>
    virt_to_phys K vm' (rsp r) = Ok (STACK_PBASE + 0xFF00) \<and>
    virt_to_phys K vm' (rcx r) = Ok LPB_PBASE \<and> virt_to_phys K vm' (seg_base (gs s)) = Ok KPCR_PBASE \<and>
    virt_to_phys K vm' (dt_base (gdt s)) = Ok SYSTEM_BASE \<and> virt_to_phys K vm' (dt_base (idt s)) = Ok idt_pbase"
proof -
  obtain vm0 vm2 :: "'k vm" where ld: "load_directory U obj files vm0 path KRNL_PBASE 0xFFFFF80000200000 [] = Ok (ms, vm2)"
    by (rule boot_modules_loaded [OF assms(4)])
  obtain nt hal kd kc ds pe ve where ms: "ms = nt # hal # kd # kc # ds"
    and names: "map (\<lambda>m. (mod_name m, v_base m)) [nt, hal, kd, kc] = essentials 0xFFFFF80000200000"
    and ls: "\<exists>vm3. load_sections vm0 (mod_pe nt) KRNL_PBASE 0xFFFFF80000200000 = Ok (mod_entry nt, vm3)"
    by (rule load_directory_modules [OF ld])
  have en: "mod_entry nt = 0xFFFFF80000200000 + (entry_point (mod_pe nt) - image_base (mod_pe nt))"
    using ls by (auto simp: load_sections_def add_chk_Ok_iff)
  have v1: "v_base (ms ! 1) = 0xFFFFF80002000000" "mod_name (ms ! 0) = lit ''ntoskrnl.exe''"
    using names by (auto simp: ms essentials_def)
  obtain r0 s0 where r: "get_regs K (kvm_fd vm') =
      Ok (r0\<lparr>rip := mod_entry (ms ! 0), rsp := stack_v - 0x100, rflags := 0x2, rcx := LPB_VBASE, rdx := LPB_VBASE\<rparr>)"
    and s: "get_sregs K (kvm_fd vm') = Ok (long_mode_sregs (LPB_VBASE + 0x10000) s0)"
    and "\<forall>v. virt_to_phys K vm' v =
      Ok (case translate (paging_mem (v_base (ms ! 1)) (mem_ptr vm')) pml4_p v of None \<Rightarrow> v | Some p \<Rightarrow> p)"
    and "mem_ptr vm' = paging_mem (v_base (ms ! 1)) (mem_ptr vm')"
    by (rule started_walk [OF assms])
  note k = started_windows(1) [OF assms] and sp = started_windows(2) [OF assms]
  show ?thesis
    unfolding r s using k sp [of "0xFF00"] k [of LPB_PBASE] k [of KPCR_PBASE] k [of SYSTEM_BASE] k [of idt_pbase] v1(2) en
    by (simp add: ms long_mode_sregs_def Let_def stack_v_def idt_pbase_def layout_defs)
qed

theorem boot_starts_kernel_witness:
  "\<exists>vm' r. boot_and_start plain_vcpu no_unicode bare_obj boot_fs (lit ''d'') (Ok (plain_vm sregs0)) = Ok vm' \<and>
     get_regs plain_vcpu (kvm_fd vm') = Ok r \<and> rip r = 0xFFFFF80000200010 \<and>
     virt_to_phys plain_vcpu vm' 0xFFFFF80000200010 = Ok 0x200010"
proof -
  obtain v2 where s: "boot_and_start plain_vcpu no_unicode bare_obj boot_fs (lit ''d'') (Ok (plain_vm sregs0)) = Ok v2"
    using boot_and_start_done by blast
  obtain r where r: "get_regs plain_vcpu (kvm_fd v2) = Ok r"
    "rip r = 0xFFFFF80000200000 + (entry_point (mod_pe (boot_mods ! 0)) - image_base (mod_pe (boot_mods ! 0)))"
    "\<forall>x. unat x < 0x40000000 \<longrightarrow> virt_to_phys plain_vcpu v2 (K_VIRT_ANY + x) = Ok x"
    using boot_starts_kernel [OF s plain_regs_law plain_sregs_law boot_modules_done boot_mods_sized] by blast
  show ?thesis using s r(1,2) r(3) [rule_format, of "0x200010"]
    by (simp add: boot_mods_simps layout_defs)
qed

text \<open>Property C26: where the page tables of a booted machine send the addresses handed out for loaded data.
  \<open>ntoskrnl.exe\<close> and \<open>hal.dll\<close> are where they were loaded. \<open>kd.dll\<close> and \<open>kdcom.dll\<close> are not: their virtual
  bases lead into the region of \<open>ntoskrnl.exe\<close>, away from where they were loaded. The first driver's base
  is not mapped at all, and the hive address given to the kernel leads to the ACPI tables instead of the
  hive.\<close>

theorem module_bases_mapped:
  fixes new_vm :: "'k vm res"
  assumes "boot_and_start K U obj files path new_vm = Ok vm'" and "regs_law K" and "sregs_law K"
    and "boot_modules U obj files path new_vm = Ok ms" and sized: "boot_sized U files path ms"
  shows "virt_to_phys K vm' (v_base (ms ! 0)) = Ok (p_base (ms ! 0)) \<and>
    virt_to_phys K vm' (v_base (ms ! 1)) = Ok (p_base (ms ! 1)) \<and>
    (\<forall>i\<in>{2, 3}. \<exists>p. virt_to_phys K vm' (v_base (ms ! i)) = Ok p \<and>
       p_base (ms ! 0) < p \<and> p < p_base (ms ! 1) \<and> p_base (ms ! 1) \<le> p_base (ms ! i)) \<and>
    (4 < length ms \<longrightarrow> translate (mem_ptr vm') pml4_p (v_base (ms ! 4)) = None) \<and>
    virt_to_phys K vm' hive_v = Ok ACPI_PBASE \<and> hive_p \<noteq> ACPI_PBASE"
proof -
  obtain vm0 vm2 :: "'k vm" where ld: "load_directory U obj files vm0 path KRNL_PBASE 0xFFFFF80000200000 [] = Ok (ms, vm2)"
    by (rule boot_modules_loaded [OF assms(4)])
  obtain nt hal kd kc ds pe ve where ms: "ms = nt # hal # kd # kc # ds"
    and names: "map (\<lambda>m. (mod_name m, v_base m)) [nt, hal, kd, kc] = essentials 0xFFFFF80000200000"
    and p: "p_base nt = KRNL_PBASE" "p_base hal = 0x2000000"
    and st: "stacked p_base 0x2000000 (hal # kd # kc # ds) pe" "stacked v_base 0xFFFFF80040000000 ds ve"
    by (rule load_directory_modules [OF ld])
  have v: "v_base nt = 0xFFFFF80000200000" "v_base hal = 0xFFFFF80002000000" "v_base kd = 0xFFFFF80000600000"
    "v_base kc = 0xFFFFF80000800000"
    using names by (simp_all add: essentials_def)
  have pk: "0x2000000 \<le> p_base kd" "0x2000000 \<le> p_base kc" using st(1) by (auto simp: word_le_nat_alt)
  obtain r0 s0 where "get_regs K (kvm_fd vm') =
      Ok (r0\<lparr>rip := mod_entry (ms ! 0), rsp := stack_v - 0x100, rflags := 0x2, rcx := LPB_VBASE, rdx := LPB_VBASE\<rparr>)"
    and "get_sregs K (kvm_fd vm') = Ok (long_mode_sregs (LPB_VBASE + 0x10000) s0)"
    and "\<forall>v. virt_to_phys K vm' v =
      Ok (case translate (paging_mem (v_base (ms ! 1)) (mem_ptr vm')) pml4_p v of None \<Rightarrow> v | Some p \<Rightarrow> p)"
    and t: "mem_ptr vm' = paging_mem (v_base (ms ! 1)) (mem_ptr vm')"
    by (rule started_walk [OF assms])
  have h: "v_base (ms ! 1) = 0xFFFFF80002000000" by (simp add: ms v)
  note k = started_windows(1) [OF assms]
  have hive: "virt_to_phys K vm' hive_v = Ok ACPI_PBASE"
    using started_windows(6) [OF assms, of "0x3000000"] by (simp add: hive_v_def layout_defs)
  have drv: "translate (mem_ptr vm') pml4_p (v_base (ms ! 4)) = None" if "4 < length ms"
  proof -
    have "unat (v_base (ms ! 4)) = 0xFFFFF80040000000 + 0" using that st(2) by (cases ds) (auto simp: ms)
    from translate_hal_gap [OF hal_fits_loader this] show ?thesis
      by (subst t, unfold h) (simp add: hal_pd_idx_def)
  qed
  show ?thesis
    using k [of "0x200000"] k [of "0x2000000"] k [of "0x600000"] k [of "0x800000"] pk drv hive
    by (simp add: ms v p hive_p_def layout_defs)
qed

theorem module_bases_mapped_witness:
  "\<exists>vm' p. boot_and_start plain_vcpu no_unicode bare_obj boot_fs (lit ''d'') (Ok (plain_vm sregs0)) = Ok vm' \<and>
     p_base (boot_mods ! 2) = 0x2200000 \<and> virt_to_phys plain_vcpu vm' (v_base (boot_mods ! 2)) = Ok p \<and> p < 0x2000000"
proof -
  obtain v2 where s: "boot_and_start plain_vcpu no_unicode bare_obj boot_fs (lit ''d'') (Ok (plain_vm sregs0)) = Ok v2"
    using boot_and_start_done by blast
  from module_bases_mapped [OF s plain_regs_law plain_sregs_law boot_modules_done boot_mods_sized] s
  show ?thesis by (auto simp: boot_mods_simps simp del: One_nat_def)
qed

end
